(* ===== verification/SRP_Prelude.thy ===== *)
theory SRP_Prelude
  imports Main "HOL-Library.Word"
begin

unbundle bit_operations_syntax

text \<open>
  Shared vocabulary of the development: the C integer types of the drivers, the errno
  values they return, two's complement wrap-around of \<^verbatim>\<open>int\<close>/\<^verbatim>\<open>s32\<close>
  arithmetic, the big-endian wire types \<^verbatim>\<open>__be16\<close>, \<^verbatim>\<open>__be32\<close> and
  \<^verbatim>\<open>__be64\<close>, and list lemmas used by several components.

  An object of type \<^verbatim>\<open>__beN\<close> is modelled as what it is in memory: its bytes in
  network order. \<open>cpu_to_beN\<close> and \<open>beN_to_cpu\<close> convert; they are inverse to each
  other on lists of the right length.
\<close>

named_theorems wire_simps \<open>conversions between host and network byte order\<close>
named_theorems wire_len \<open>lengths of encoded objects\<close>

type_synonym u8 = "8 word"
type_synonym u16 = "16 word"
type_synonym u32 = "32 word"
type_synonym u64 = "64 word"
type_synonym be16 = "u8 list"
type_synonym be32 = "u8 list"
type_synonym be64 = "u8 list"

section \<open>Error numbers\<close>

abbreviation EIO :: int where "EIO \<equiv> 5"
abbreviation ENXIO :: int where "ENXIO \<equiv> 6"
abbreviation ENOMEM :: int where "ENOMEM \<equiv> 12"
abbreviation EEXIST :: int where "EEXIST \<equiv> 17"
abbreviation ENODEV :: int where "ENODEV \<equiv> 19"
abbreviation EINVAL :: int where "EINVAL \<equiv> 22"
abbreviation ERANGE :: int where "ERANGE \<equiv> 34"
abbreviation ENOSYS :: int where "ENOSYS \<equiv> 38"
abbreviation EOPNOTSUPP :: int where "EOPNOTSUPP \<equiv> 95"
abbreviation ECONNRESET :: int where "ECONNRESET \<equiv> 104"
abbreviation EHOSTUNREACH :: int where "EHOSTUNREACH \<equiv> 113"

section \<open>Signed 32-bit arithmetic\<close>

text \<open>
  \<open>s32 x\<close> is the value an \<^verbatim>\<open>int\<close> holds after the mathematical result \<open>x\<close>
  has been stored in it (the kernel is compiled with wrapping signed arithmetic).
\<close>

definition s32 :: "int \<Rightarrow> int" where
  "s32 x = (x + 2 ^ 31) mod 2 ^ 32 - 2 ^ 31"

definition int_range :: "int \<Rightarrow> bool" where
  "int_range x \<longleftrightarrow> - (2 ^ 31) \<le> x \<and> x < 2 ^ 31"

lemma s32_id [simp]: "int_range x \<Longrightarrow> s32 x = x"
  by (simp add: s32_def int_range_def)

lemma int_range_s32 [simp, intro]: "int_range (s32 x)"
proof -
  have "0 \<le> (x + 2 ^ 31) mod 2 ^ 32" "(x + 2 ^ 31) mod 2 ^ 32 < (2 ^ 32 :: int)"
    by simp_all
  then show ?thesis unfolding s32_def int_range_def by simp
qed

lemma s32_cong: "s32 x mod 2 ^ 32 = x mod 2 ^ 32"
  by (simp add: s32_def mod_diff_left_eq)

lemma s32_idem [simp]: "s32 (s32 x) = s32 x"
  by simp

lemma s32_eq_iff: "s32 x = s32 y \<longleftrightarrow> x mod 2 ^ 32 = y mod 2 ^ 32"
proof
  assume "s32 x = s32 y"
  then show "x mod 2 ^ 32 = y mod 2 ^ 32" by (metis s32_cong)
next
  assume h: "x mod 2 ^ 32 = y mod 2 ^ 32"
  then have "(x + 2 ^ 31) mod 2 ^ 32 = (y + 2 ^ 31) mod 2 ^ 32"
    by (rule mod_add_cong) simp
  then show "s32 x = s32 y" by (simp add: s32_def)
qed

lemma s32_add_left [simp]: "s32 (s32 x + y) = s32 (x + y)"
  unfolding s32_eq_iff by (metis mod_add_left_eq s32_cong)

lemma s32_add_right [simp]: "s32 (x + s32 y) = s32 (x + y)"
  by (metis add.commute s32_add_left)

text \<open>Reading a \<^verbatim>\<open>u32\<close> into an \<^verbatim>\<open>int\<close> or \<^verbatim>\<open>s32\<close> object.\<close>

definition u32_to_int :: "u32 \<Rightarrow> int" where
  "u32_to_int w = s32 (uint w)"

lemma int_range_u32_to_int [simp, intro]: "int_range (u32_to_int w)"
  by (simp add: u32_to_int_def)

section \<open>Big-endian wire types\<close>

definition cpu_to_be16 :: "u16 \<Rightarrow> be16" where
  "cpu_to_be16 x = [ucast (drop_bit 8 x), ucast x]"

definition cpu_to_be32 :: "u32 \<Rightarrow> be32" where
  "cpu_to_be32 x = [ucast (drop_bit 24 x), ucast (drop_bit 16 x), ucast (drop_bit 8 x), ucast x]"

definition cpu_to_be64 :: "u64 \<Rightarrow> be64" where
  "cpu_to_be64 x =
     cpu_to_be32 (ucast (drop_bit 32 x)) @ cpu_to_be32 (ucast x)"

definition be16_to_cpu :: "be16 \<Rightarrow> u16" where
  "be16_to_cpu b = push_bit 8 (ucast (b ! 0)) OR ucast (b ! 1)"

definition be32_to_cpu :: "be32 \<Rightarrow> u32" where
  "be32_to_cpu b =
     push_bit 24 (ucast (b ! 0)) OR push_bit 16 (ucast (b ! 1)) OR
     push_bit 8 (ucast (b ! 2)) OR ucast (b ! 3)"

definition be64_to_cpu :: "be64 \<Rightarrow> u64" where
  "be64_to_cpu b = push_bit 32 (ucast (be32_to_cpu (take 4 b))) OR ucast (be32_to_cpu (drop 4 b))"

lemma length_cpu_to_be [simp, wire_len]:
  "length (cpu_to_be16 x) = 2" "length (cpu_to_be32 y) = 4" "length (cpu_to_be64 z) = 8"
  by (simp_all add: cpu_to_be16_def cpu_to_be32_def cpu_to_be64_def)

lemma be16_roundtrip [simp, wire_simps]: "be16_to_cpu (cpu_to_be16 x) = x"
  by (rule bit_word_eqI)
     (auto simp: be16_to_cpu_def cpu_to_be16_def bit_simps)

lemma be32_roundtrip [simp, wire_simps]: "be32_to_cpu (cpu_to_be32 x) = x"
proof (rule bit_word_eqI)
  fix n :: nat
  assume "n < LENGTH(32)"
  then consider "n < 8" | "8 \<le> n" "n < 16" | "16 \<le> n" "n < 24" | "24 \<le> n" "n < 32"
    by fastforce
  then show "bit (be32_to_cpu (cpu_to_be32 x)) n \<longleftrightarrow> bit x n"
    by cases (auto simp: be32_to_cpu_def cpu_to_be32_def bit_simps)
qed

lemma be64_roundtrip [simp, wire_simps]: "be64_to_cpu (cpu_to_be64 x) = x"
  by (rule bit_word_eqI)
     (auto simp: be64_to_cpu_def cpu_to_be64_def bit_simps)

section \<open>Lists\<close>

lemma nth_list_update_if:
  "i < length xs \<Longrightarrow> xs[i := v] ! j = (if i = j then v else xs ! j)"
  by simp

lemma distinct_remove1_length:
  "x \<in> set xs \<Longrightarrow> Suc (length (remove1 x xs)) = length xs"
  using length_pos_if_in_set [of x xs] by (simp add: length_remove1)

end
