(* ===== verification/SRP_Text.thy ===== *)
theory SRP_Text
  imports SRP_Prelude
begin

text \<open>
  The kernel string library as far as the sysfs and module parameter code uses it:
  \<^verbatim>\<open>sprintf\<close> of decimal and fixed-width hexadecimal numbers and \<^verbatim>\<open>kstrtoint\<close>
  (sign, radix prefix, digits, one optional newline, range check). A C string is the list of
  its characters before the terminating NUL.
\<close>

section \<open>Digits\<close>

definition digit_val :: "char \<Rightarrow> nat option" where
  "digit_val c =
     (let n = of_char c :: nat in
      if 48 \<le> n \<and> n \<le> 57 then Some (n - 48)
      else if 97 \<le> n \<and> n \<le> 102 then Some (n - 87)
      else if 65 \<le> n \<and> n \<le> 70 then Some (n - 55)
      else None)"

definition digit_char :: "nat \<Rightarrow> char" where
  "digit_char d = (if d < 10 then char_of (48 + d) else char_of (87 + d))"

lemma digit_val_char [simp]: "d < 16 \<Longrightarrow> digit_val (digit_char d) = Some d"
  by (auto simp: digit_val_def digit_char_def Let_def)

text \<open>
  \<open>parse_digits b acc cs\<close> is the digit loop of \<^verbatim>\<open>_parse_integer\<close>: the value so far,
  how many digits were consumed and what is left.
\<close>

fun parse_digits :: "nat \<Rightarrow> nat \<Rightarrow> nat \<Rightarrow> string \<Rightarrow> nat \<times> nat \<times> string" where
  "parse_digits b acc k [] = (acc, k, [])"
| "parse_digits b acc k (c # cs) =
     (case digit_val c of
        Some d \<Rightarrow> if d < b then parse_digits b (acc * b + d) (Suc k) cs else (acc, k, c # cs)
      | None \<Rightarrow> (acc, k, c # cs))"

lemma parse_digits_append:
  assumes "list_all (\<lambda>c. \<exists>d. digit_val c = Some d \<and> d < b) xs"
  shows "parse_digits b acc k (xs @ ys) =
    (let (acc', k', _) = parse_digits b acc k xs in parse_digits b acc' k' ys)"
  using assms by (induction xs arbitrary: acc k) auto

section \<open>Printing numbers\<close>

fun dec_of_nat :: "nat \<Rightarrow> string" where
  "dec_of_nat n = (if n < 10 then [digit_char n] else dec_of_nat (n div 10) @ [digit_char (n mod 10)])"

declare dec_of_nat.simps [simp del]

definition dec_of_int :: "int \<Rightarrow> string" where
  "dec_of_int i = (if i < 0 then CHR ''-'' # dec_of_nat (nat (- i)) else dec_of_nat (nat i))"

fun hex_digits :: "nat \<Rightarrow> nat \<Rightarrow> string" where
  "hex_digits 0 n = []"
| "hex_digits (Suc w) n = hex_digits w (n div 16) @ [digit_char (n mod 16)]"

text \<open>\<open>hex_digits w n\<close> is \<^verbatim>\<open>%0<w>x\<close> for a value below \<open>16 ^ w\<close>.\<close>

lemma length_hex_digits [simp]: "length (hex_digits w n) = w"
  by (induction w arbitrary: n) auto

lemma digits_dec_of_nat:
  "list_all (\<lambda>c. \<exists>d. digit_val c = Some d \<and> d < 10) (dec_of_nat n)"
proof (induction n rule: dec_of_nat.induct)
  case (1 n)
  then show ?case by (cases "n < 10") (auto simp: dec_of_nat.simps [of n])
qed

lemma parse_dec_of_nat:
  "parse_digits 10 0 0 (dec_of_nat n) = (n, length (dec_of_nat n), [])"
proof (induction n rule: dec_of_nat.induct)
  case (1 n)
  show ?case
  proof (cases "n < 10")
    case True
    then show ?thesis by (simp add: dec_of_nat.simps [of n])
  next
    case False
    then have ih: "parse_digits 10 0 0 (dec_of_nat (n div 10)) =
        (n div 10, length (dec_of_nat (n div 10)), [])"
      using 1 by simp
    from False show ?thesis
      by (simp add: dec_of_nat.simps [of n] parse_digits_append [OF digits_dec_of_nat] ih)
  qed
qed

lemma dec_of_nat_neq_Nil [simp]: "dec_of_nat n \<noteq> []"
  by (simp add: dec_of_nat.simps [of n])

lemma hd_dec_of_nat:
  "0 < n \<Longrightarrow> \<exists>d. 0 < d \<and> d < 10 \<and> hd (dec_of_nat n) = digit_char d"
proof (induction n rule: dec_of_nat.induct)
  case (1 n)
  show ?case
  proof (cases "n < 10")
    case True
    with 1 show ?thesis by (auto simp: dec_of_nat.simps [of n])
  next
    case False
    then have "0 < n div 10" by simp
    with 1 False obtain d where "0 < d" "d < 10" "hd (dec_of_nat (n div 10)) = digit_char d"
      by auto
    with False show ?thesis by (auto simp: dec_of_nat.simps [of n])
  qed
qed

section \<open>Parsing numbers\<close>

definition is_x :: "char \<Rightarrow> bool" where
  "is_x c \<longleftrightarrow> c = CHR ''x'' \<or> c = CHR ''X''"

text \<open>\<^verbatim>\<open>_parse_integer_fixup_radix\<close> for base 0: the radix and the digits that follow.\<close>

definition fixup_radix :: "string \<Rightarrow> nat \<times> string" where
  "fixup_radix s =
     (if s \<noteq> [] \<and> s ! 0 = CHR ''0'' then
        if 2 < length s \<and> is_x (s ! 1) \<and> digit_val (s ! 2) \<noteq> None
        then (16, drop 2 s) else (8, s)
      else (10, s))"

definition kstrtoull0 :: "string \<Rightarrow> int + nat" where
  "kstrtoull0 s =
     (let (base, ds) = fixup_radix s;
          (v, k, rest) = parse_digits base 0 0 ds;
          rest' = (case rest of c # cs \<Rightarrow> if c = CHR 0x0A then cs else rest | [] \<Rightarrow> [])
      in if 2 ^ 64 \<le> v then Inl (- ERANGE)
         else if k = 0 then Inl (- EINVAL)
         else if rest' \<noteq> [] then Inl (- EINVAL)
         else Inr v)"

definition kstrtoll0 :: "string \<Rightarrow> int + int" where
  "kstrtoll0 s =
     (if s \<noteq> [] \<and> hd s = CHR ''-'' then
        case kstrtoull0 (tl s) of
          Inl e \<Rightarrow> Inl e
        | Inr v \<Rightarrow> if 2 ^ 63 < v then Inl (- ERANGE) else Inr (- int v)
      else
        case kstrtoull0 (if s \<noteq> [] \<and> hd s = CHR ''+'' then tl s else s) of
          Inl e \<Rightarrow> Inl e
        | Inr v \<Rightarrow> if 2 ^ 63 \<le> v then Inl (- ERANGE) else Inr (int v))"

text \<open>\<open>kstrtoint0 s\<close> is \<^verbatim>\<open>kstrtoint(s, 0, &res)\<close>: the error code, or the value stored.\<close>

definition kstrtoint0 :: "string \<Rightarrow> int + int" where
  "kstrtoint0 s =
     (case kstrtoll0 s of
        Inl e \<Rightarrow> Inl e
      | Inr v \<Rightarrow> if int_range v then Inr v else Inl (- ERANGE))"

text \<open>
  Parsing what \<^verbatim>\<open>"%d\n"\<close> printed gives the number back.
\<close>

lemma digit_char_neq:
  assumes "d < 10" and "digit_val c \<noteq> Some d"
  shows "digit_char d \<noteq> c"
  using assms digit_val_char [of d] by auto

lemma digit_val_special [simp]:
  "digit_val (CHR ''0'') = Some 0" "digit_val (CHR ''-'') = None" "digit_val (CHR ''+'') = None"
  "digit_val (CHR 0x0A) = None" "digit_val (CHR ''x'') = None" "digit_val (CHR ''X'') = None"
  by (simp_all add: digit_val_def)

lemma of_char_Char_48: "of_char (CHR ''0'') = (48 :: nat)"
  by simp

lemma dec_of_nat_0: "dec_of_nat 0 = ''0''"
proof -
  have "(char_of (48 :: nat) :: char) = CHR ''0''"
    by (metis char_of_char of_char_Char_48)
  then show ?thesis by (simp add: dec_of_nat.simps [of 0] digit_char_def)
qed

lemma fixup_radix_dec:
  "fixup_radix (dec_of_nat n @ ys) = (if n = 0 then (8, CHR ''0'' # ys) else (10, dec_of_nat n @ ys))"
  if "ys = [] \<or> hd ys = CHR 0x0A"
proof (cases "n = 0")
  case True
  with that show ?thesis
    by (cases ys) (auto simp: fixup_radix_def is_x_def dec_of_nat_0)
next
  case False
  then obtain d where d: "0 < d" "d < 10" "hd (dec_of_nat n) = digit_char d"
    using hd_dec_of_nat by blast
  then have "(dec_of_nat n @ ys) ! 0 \<noteq> CHR ''0''"
    using digit_char_neq [of d "CHR ''0''"] by (simp add: hd_conv_nth nth_append)
  with False show ?thesis by (simp add: fixup_radix_def)
qed

lemma kstrtoull0_dec:
  assumes "n < 2 ^ 64" and "ys = [] \<or> ys = [CHR 0x0A]"
  shows "kstrtoull0 (dec_of_nat n @ ys) = Inr n"
proof (cases "n = 0")
  case True
  with assms(2) show ?thesis
    by (auto simp: kstrtoull0_def dec_of_nat_0 fixup_radix_def is_x_def)
next
  case False
  have "parse_digits 10 0 0 (dec_of_nat n @ ys) = (n, length (dec_of_nat n), ys)"
    using assms(2) by (auto simp: parse_digits_append [OF digits_dec_of_nat] parse_dec_of_nat)
  moreover have "fixup_radix (dec_of_nat n @ ys) = (10, dec_of_nat n @ ys)"
    using assms(2) False by (subst fixup_radix_dec) auto
  ultimately show ?thesis
    using assms by (auto simp: kstrtoull0_def)
qed

lemma hd_dec_of_nat_digit: "digit_val (hd (dec_of_nat n)) \<noteq> None"
  using digits_dec_of_nat [of n] by (cases "dec_of_nat n") auto

lemma kstrtoint0_dec:
  assumes "0 \<le> i" and "int_range i"
  shows "kstrtoint0 (dec_of_int i @ [CHR 0x0A]) = Inr i"
proof -
  have "nat i < 2 ^ 31" using assms by (simp add: int_range_def)
  then have "kstrtoull0 (dec_of_nat (nat i) @ [CHR 0x0A]) = Inr (nat i)"
    by (intro kstrtoull0_dec) auto
  moreover have "hd (dec_of_nat (nat i)) \<noteq> CHR ''-''" "hd (dec_of_nat (nat i)) \<noteq> CHR ''+''"
    using hd_dec_of_nat_digit [of "nat i"] by auto
  ultimately show ?thesis
    using assms \<open>nat i < 2 ^ 31\<close> by (simp add: kstrtoint0_def kstrtoll0_def dec_of_int_def)
qed

end
