(* ===== verification/SRP_Transport.thy ===== *)
theory SRP_Transport
  imports SRP_Text
begin

text \<open>
  The SRP transport class, \<^verbatim>\<open>src/drivers/scsi/scsi_transport_srp.c\<close> with
  \<^verbatim>\<open>src/include/scsi/scsi_transport_srp.h\<close>.

  \<open>srp_rport\<close> is the remote port; its three delayed work items carry whether their
  timer is armed (and for how many jiffies) and whether their handler has been taken off
  the queue and is executing. \<open>'l xport\<close> is a SCSI host as the transport class sees it:
  the port, the states of the SCSI devices below it, the number of threads inside
  \<^verbatim>\<open>scsi_request_fn()\<close> per device, and the state \<open>'l\<close> of the low-level driver behind
  \<^verbatim>\<open>rport->lld_data\<close>. The callbacks of \<^verbatim>\<open>struct srp_function_template\<close> are functions on \<open>'l\<close>.

  The SCSI core is not part of the source; what it does to the device states in
  \<^verbatim>\<open>scsi_target_block()\<close> and \<^verbatim>\<open>scsi_target_unblock()\<close> is the parameter \<open>C\<close>
  (\<open>scsi_core\<close>) and \<^verbatim>\<open>HZ\<close> is the parameter \<open>hz\<close>. A function that takes
  \<^verbatim>\<open>rport->mutex\<close> is one atomic operation.

  The kernel configuration is Linux 3.7 up to 3.18 on a 64-bit machine, that is with
  \<^verbatim>\<open>HAVE_REQUEST_QUEUE_REQUEST_FN_ACTIVE\<close> and without \<^verbatim>\<open>HAVE_USE_BLK_TAGS\<close>.
\<close>

section \<open>Data\<close>

datatype srp_rport_state =
  SRP_RPORT_RUNNING | SRP_RPORT_BLOCKED | SRP_RPORT_FAIL_FAST | SRP_RPORT_LOST

datatype sdev_state =
  SDEV_CREATED | SDEV_RUNNING | SDEV_CANCEL | SDEV_DEL | SDEV_QUIESCE | SDEV_OFFLINE |
  SDEV_TRANSPORT_OFFLINE | SDEV_BLOCK | SDEV_CREATED_BLOCK

text \<open>\<^verbatim>\<open>struct delayed_work\<close>: pending (armed or queued) and executing.\<close>

record delayed_work =
  dw_pending :: "u64 option"
  dw_running :: bool

definition queue_delayed_work :: "u64 \<Rightarrow> delayed_work \<Rightarrow> delayed_work" where
  "queue_delayed_work delay w =
     (case dw_pending w of None \<Rightarrow> w\<lparr>dw_pending := Some delay\<rparr> | Some _ \<Rightarrow> w)"

definition cancel_delayed_work :: "delayed_work \<Rightarrow> delayed_work" where
  "cancel_delayed_work w = w\<lparr>dw_pending := None\<rparr>"

definition INIT_DELAYED_WORK :: delayed_work where
  "INIT_DELAYED_WORK = \<lparr>dw_pending = None, dw_running = False\<rparr>"

record srp_rport_identifiers =
  ids_port_id :: "u8 list"
  ids_roles :: u8

record srp_rport =
  port_id :: "u8 list"
  roles :: u8
  rp_state :: srp_rport_state
  reconnect_delay :: int
  failed_reconnects :: int
  reconnect_work :: delayed_work
  fast_io_fail_tmo :: int
  dev_loss_tmo :: int
  fast_io_fail_work :: delayed_work
  dev_loss_work :: delayed_work

record 'l srp_function_template =
  has_rport_state :: bool
  reset_timer_if_blocked :: bool
  f_reconnect_delay :: "int option"
  f_fast_io_fail_tmo :: "int option"
  f_dev_loss_tmo :: "int option"
  f_reconnect :: "('l \<Rightarrow> int \<times> 'l) option"
  f_terminate_rport_io :: "('l \<Rightarrow> 'l) option"
  f_rport_delete :: "('l \<Rightarrow> 'l) option"

record 'l xport =
  xp_rport :: srp_rport
  xp_sdevs :: "sdev_state list"
  xp_request_fn_active :: "int list"
  xp_lld :: 'l

record scsi_core =
  scsi_target_block :: "sdev_state list \<Rightarrow> sdev_state list"
  scsi_target_unblock :: "sdev_state \<Rightarrow> sdev_state list \<Rightarrow> sdev_state list"

definition SRP_RPORT_ROLE_INITIATOR :: u8 where "SRP_RPORT_ROLE_INITIATOR = 0"
definition SRP_RPORT_ROLE_TARGET :: u8 where "SRP_RPORT_ROLE_TARGET = 1"

abbreviation upd_rport :: "(srp_rport \<Rightarrow> srp_rport) \<Rightarrow> 'l xport \<Rightarrow> 'l xport" where
  "upd_rport f s \<equiv> s\<lparr>xp_rport := f (xp_rport s)\<rparr>"

section \<open>Timeout parameters\<close>

definition SCSI_DEVICE_BLOCK_MAX_TIMEOUT :: int where
  "SCSI_DEVICE_BLOCK_MAX_TIMEOUT = 600"

definition LONG_MAX :: int where
  "LONG_MAX = 2 ^ 63 - 1"

definition srp_tmo_valid :: "int \<Rightarrow> int \<Rightarrow> int \<Rightarrow> int \<Rightarrow> int" where
  "srp_tmo_valid hz rd fi dl =
     (if rd < 0 \<and> fi < 0 \<and> dl < 0 then - EINVAL
      else if rd = 0 then - EINVAL
      else if fi > SCSI_DEVICE_BLOCK_MAX_TIMEOUT then - EINVAL
      else if fi < 0 \<and> dl > SCSI_DEVICE_BLOCK_MAX_TIMEOUT then - EINVAL
      else if dl \<ge> LONG_MAX div hz then - EINVAL
      else if fi \<ge> 0 \<and> dl \<ge> 0 \<and> fi \<ge> dl then - EINVAL
      else 0)"

definition srp_show_tmo :: "int \<Rightarrow> string" where
  "srp_show_tmo tmo =
     (if tmo \<ge> 0 then dec_of_int tmo @ [CHR 0x0A] else ''off'' @ [CHR 0x0A])"

definition srp_parse_tmo :: "string \<Rightarrow> int + int" where
  "srp_parse_tmo buf = (if take 3 buf \<noteq> ''off'' then kstrtoint0 buf else Inr (- 1))"

section \<open>Attributes of a remote port\<close>

definition show_srp_rport_id :: "srp_rport \<Rightarrow> string" where
  "show_srp_rport_id r =
     concat (map (\<lambda>i. hex_digits 2 (unat (port_id r ! i)) @ [CHR '':'']) [0..<15]) @
     hex_digits 2 (unat (port_id r ! 15)) @ [CHR 0x0A]"

definition srp_rport_role_names :: "(u8 \<times> string) list" where
  "srp_rport_role_names =
     [(SRP_RPORT_ROLE_INITIATOR, ''SRP Initiator''), (SRP_RPORT_ROLE_TARGET, ''SRP Target'')]"

definition show_srp_rport_roles :: "srp_rport \<Rightarrow> string" where
  "show_srp_rport_roles r =
     (case map_of srp_rport_role_names (roles r) of Some name \<Rightarrow> name | None \<Rightarrow> ''unknown'')
     @ [CHR 0x0A]"

fun show_srp_rport_state :: "srp_rport_state \<Rightarrow> string" where
  "show_srp_rport_state SRP_RPORT_RUNNING = ''running'' @ [CHR 0x0A]"
| "show_srp_rport_state SRP_RPORT_BLOCKED = ''blocked'' @ [CHR 0x0A]"
| "show_srp_rport_state SRP_RPORT_FAIL_FAST = ''fail-fast'' @ [CHR 0x0A]"
| "show_srp_rport_state SRP_RPORT_LOST = ''lost'' @ [CHR 0x0A]"

definition show_reconnect_delay :: "srp_rport \<Rightarrow> string" where
  "show_reconnect_delay r = srp_show_tmo (reconnect_delay r)"

definition show_failed_reconnects :: "srp_rport \<Rightarrow> string" where
  "show_failed_reconnects r = dec_of_int (failed_reconnects r) @ [CHR 0x0A]"

definition show_srp_rport_fast_io_fail_tmo :: "srp_rport \<Rightarrow> string" where
  "show_srp_rport_fast_io_fail_tmo r = srp_show_tmo (fast_io_fail_tmo r)"

definition show_srp_rport_dev_loss_tmo :: "srp_rport \<Rightarrow> string" where
  "show_srp_rport_dev_loss_tmo r = srp_show_tmo (dev_loss_tmo r)"

text \<open>\<open>int_jiffies\<close> is the \<^verbatim>\<open>unsigned long\<close> an \<^verbatim>\<open>int\<close> product \<^verbatim>\<open>x * HZ\<close> becomes.\<close>

definition int_jiffies :: "int \<Rightarrow> int \<Rightarrow> u64" where
  "int_jiffies hz x = word_of_int (s32 (x * hz))"

definition ulong_jiffies :: "int \<Rightarrow> int \<Rightarrow> u64" where
  "ulong_jiffies hz x = 1 * word_of_int x * word_of_int hz"

definition store_reconnect_delay :: "int \<Rightarrow> string \<Rightarrow> int \<Rightarrow> srp_rport \<Rightarrow> int \<times> srp_rport" where
  "store_reconnect_delay hz buf count r =
     (case srp_parse_tmo buf of
        Inl res \<Rightarrow> (res, r)
      | Inr delay \<Rightarrow>
          let res = srp_tmo_valid hz delay (fast_io_fail_tmo r) (dev_loss_tmo r) in
          if res \<noteq> 0 then (res, r)
          else
            let r1 =
              (if reconnect_delay r \<le> 0 \<and> delay > 0 \<and> rp_state r \<noteq> SRP_RPORT_RUNNING
               then r\<lparr>reconnect_work :=
                       queue_delayed_work (int_jiffies hz delay) (reconnect_work r)\<rparr>
               else if delay \<le> 0
               then r\<lparr>reconnect_work := cancel_delayed_work (reconnect_work r)\<rparr>
               else r)
            in (count, r1\<lparr>reconnect_delay := delay\<rparr>))"

definition store_srp_rport_fast_io_fail_tmo ::
  "int \<Rightarrow> string \<Rightarrow> int \<Rightarrow> srp_rport \<Rightarrow> int \<times> srp_rport" where
  "store_srp_rport_fast_io_fail_tmo hz buf count r =
     (case srp_parse_tmo buf of
        Inl res \<Rightarrow> (res, r)
      | Inr tmo \<Rightarrow>
          let res = srp_tmo_valid hz (reconnect_delay r) tmo (dev_loss_tmo r) in
          if res \<noteq> 0 then (res, r) else (count, r\<lparr>fast_io_fail_tmo := tmo\<rparr>))"

definition store_srp_rport_dev_loss_tmo ::
  "int \<Rightarrow> string \<Rightarrow> int \<Rightarrow> srp_rport \<Rightarrow> int \<times> srp_rport" where
  "store_srp_rport_dev_loss_tmo hz buf count r =
     (case srp_parse_tmo buf of
        Inl res \<Rightarrow> (res, r)
      | Inr tmo \<Rightarrow>
          let res = srp_tmo_valid hz (reconnect_delay r) (fast_io_fail_tmo r) tmo in
          if res \<noteq> 0 then (res, r) else (count, r\<lparr>dev_loss_tmo := tmo\<rparr>))"

definition store_srp_rport_delete ::
  "'l srp_function_template \<Rightarrow> int \<Rightarrow> 'l xport \<Rightarrow> int \<times> 'l xport" where
  "store_srp_rport_delete F count s =
     (case f_rport_delete F of
        Some del \<Rightarrow> (count, s\<lparr>xp_lld := del (xp_lld s)\<rparr>)
      | None \<Rightarrow> (- ENOSYS, s))"

section \<open>State changes\<close>

definition srp_rport_set_state :: "srp_rport_state \<Rightarrow> srp_rport \<Rightarrow> int \<times> srp_rport" where
  "srp_rport_set_state new_state r =
     (let old_state = rp_state r;
          invalid =
            (case new_state of
               SRP_RPORT_RUNNING \<Rightarrow> old_state = SRP_RPORT_LOST
             | SRP_RPORT_BLOCKED \<Rightarrow> old_state \<noteq> SRP_RPORT_RUNNING
             | SRP_RPORT_FAIL_FAST \<Rightarrow> old_state = SRP_RPORT_LOST
             | SRP_RPORT_LOST \<Rightarrow> False)
      in if invalid then (- EINVAL, r) else (0, r\<lparr>rp_state := new_state\<rparr>))"

definition scsi_request_fn_active :: "'l xport \<Rightarrow> int" where
  "scsi_request_fn_active s = sum_list (xp_request_fn_active s)"

text \<open>
  \<^verbatim>\<open>srp_wait_for_queuecommand()\<close> polls until \<^verbatim>\<open>scsi_request_fn_active()\<close> is zero and
  changes nothing itself: the state in which it returns is the one the other threads have
  left, with every per-device counter at zero.
\<close>

definition srp_wait_for_queuecommand :: "'l xport \<Rightarrow> 'l xport" where
  "srp_wait_for_queuecommand s =
     s\<lparr>xp_request_fn_active := map (\<lambda>_. 0) (xp_request_fn_active s)\<rparr>"

definition rport_fail_io_fast ::
  "scsi_core \<Rightarrow> 'l srp_function_template \<Rightarrow> 'l xport \<Rightarrow> 'l xport" where
  "rport_fail_io_fast C F s =
     (let (res, r) = srp_rport_set_state SRP_RPORT_FAIL_FAST (xp_rport s) in
      if res \<noteq> 0 then s
      else
        let s1 = s\<lparr>xp_rport := r,
                   xp_sdevs := scsi_target_unblock C SDEV_TRANSPORT_OFFLINE (xp_sdevs s)\<rparr>
        in case f_terminate_rport_io F of
             Some terminate \<Rightarrow>
               let s2 = srp_wait_for_queuecommand s1 in s2\<lparr>xp_lld := terminate (xp_lld s2)\<rparr>
           | None \<Rightarrow> s1)"

definition rport_fast_io_fail_timedout ::
  "scsi_core \<Rightarrow> 'l srp_function_template \<Rightarrow> 'l xport \<Rightarrow> 'l xport" where
  "rport_fast_io_fail_timedout C F s =
     (if rp_state (xp_rport s) = SRP_RPORT_BLOCKED then rport_fail_io_fast C F s else s)"

definition rport_dev_loss_timedout ::
  "scsi_core \<Rightarrow> 'l srp_function_template \<Rightarrow> 'l xport \<Rightarrow> 'l xport" where
  "rport_dev_loss_timedout C F s =
     (let (res, r) = srp_rport_set_state SRP_RPORT_LOST (xp_rport s);
          s1 = s\<lparr>xp_rport := r,
                 xp_sdevs := scsi_target_unblock C SDEV_TRANSPORT_OFFLINE (xp_sdevs s)\<rparr>
      in case f_rport_delete F of
           Some del \<Rightarrow> s1\<lparr>xp_lld := del (xp_lld s1)\<rparr>
         | None \<Rightarrow> s1)"

definition srp_start_tl_fail_timers_locked :: "int \<Rightarrow> scsi_core \<Rightarrow> 'l xport \<Rightarrow> 'l xport" where
  "srp_start_tl_fail_timers_locked hz C s =
     (let r = xp_rport s;
          delay = reconnect_delay r; fi = fast_io_fail_tmo r; dl = dev_loss_tmo r
      in if rp_state r = SRP_RPORT_LOST then s
         else
           let r1 = (if delay > 0
                     then r\<lparr>reconnect_work :=
                             queue_delayed_work (ulong_jiffies hz delay) (reconnect_work r)\<rparr>
                     else r);
               (res, r2) = srp_rport_set_state SRP_RPORT_BLOCKED r1
           in if (fi \<ge> 0 \<or> dl \<ge> 0) \<and> res = 0 then
                let r3 = (if fi \<ge> 0
                          then r2\<lparr>fast_io_fail_work :=
                                   queue_delayed_work (ulong_jiffies hz fi) (fast_io_fail_work r2)\<rparr>
                          else r2);
                    r4 = (if dl \<ge> 0
                          then r3\<lparr>dev_loss_work :=
                                   queue_delayed_work (ulong_jiffies hz dl) (dev_loss_work r3)\<rparr>
                          else r3)
                in s\<lparr>xp_rport := r4, xp_sdevs := scsi_target_block C (xp_sdevs s)\<rparr>
              else s\<lparr>xp_rport := r1\<rparr>)"

definition srp_start_tl_fail_timers :: "int \<Rightarrow> scsi_core \<Rightarrow> 'l xport \<Rightarrow> 'l xport" where
  "srp_start_tl_fail_timers hz C s = srp_start_tl_fail_timers_locked hz C s"

section \<open>Reconnecting\<close>

text \<open>The state in which the \<^verbatim>\<open>reconnect()\<close> callback is called: devices blocked, no thread queueing.\<close>

definition srp_reconnect_quiesce :: "scsi_core \<Rightarrow> 'l xport \<Rightarrow> 'l xport" where
  "srp_reconnect_quiesce C s =
     srp_wait_for_queuecommand (s\<lparr>xp_sdevs := scsi_target_block C (xp_sdevs s)\<rparr>)"

text \<open>
  A NULL \<^verbatim>\<open>reconnect\<close> or \<^verbatim>\<open>rport_delete\<close> pointer is never called by a driver that registered
  the callbacks; the branch for \<open>None\<close> only makes the definitions total.
\<close>

definition srp_reconnect_call ::
  "'l srp_function_template \<Rightarrow> 'l xport \<Rightarrow> int \<times> 'l xport" where
  "srp_reconnect_call F s =
     (if rp_state (xp_rport s) \<noteq> SRP_RPORT_LOST then
        case f_reconnect F of
          Some reconnect \<Rightarrow> (let (res, l) = reconnect (xp_lld s) in (res, s\<lparr>xp_lld := l\<rparr>))
        | None \<Rightarrow> (- ENOSYS, s)
      else (- ENODEV, s))"

definition srp_reconnect_succeeded :: "scsi_core \<Rightarrow> 'l xport \<Rightarrow> 'l xport" where
  "srp_reconnect_succeeded C s =
     (let r = xp_rport s;
          r1 = r\<lparr>fast_io_fail_work := cancel_delayed_work (fast_io_fail_work r),
                 dev_loss_work := cancel_delayed_work (dev_loss_work r),
                 failed_reconnects := 0\<rparr>;
          (_, r2) = srp_rport_set_state SRP_RPORT_RUNNING r1;
          d1 = scsi_target_unblock C SDEV_RUNNING (xp_sdevs s);
          d2 = map (\<lambda>d. if d = SDEV_OFFLINE then SDEV_RUNNING else d) d1
      in s\<lparr>xp_rport := r2, xp_sdevs := d2\<rparr>)"

definition srp_reconnect_rport ::
  "int \<Rightarrow> scsi_core \<Rightarrow> 'l srp_function_template \<Rightarrow> int \<Rightarrow> 'l xport \<Rightarrow> int \<times> 'l xport" where
  "srp_reconnect_rport hz C F lock_res s =
     (if lock_res \<noteq> 0 then (lock_res, s)
      else
        let (res, s1) = srp_reconnect_call F (srp_reconnect_quiesce C s) in
        if res = 0 then (res, srp_reconnect_succeeded C s1)
        else if rp_state (xp_rport s1) = SRP_RPORT_RUNNING then
          let s2 = rport_fail_io_fast C F s1;
              s3 = s2\<lparr>xp_sdevs := scsi_target_unblock C SDEV_TRANSPORT_OFFLINE (xp_sdevs s2)\<rparr>
          in (res, srp_start_tl_fail_timers_locked hz C s3)
        else if rp_state (xp_rport s1) \<noteq> SRP_RPORT_BLOCKED then
          (res, s1\<lparr>xp_sdevs := scsi_target_unblock C SDEV_TRANSPORT_OFFLINE (xp_sdevs s1)\<rparr>)
        else (res, s1))"

definition srp_reconnect_backoff :: "int \<Rightarrow> int \<Rightarrow> int" where
  "srp_reconnect_backoff rd failed = s32 (rd * min 100 (max 1 (s32 (failed - 10))))"

definition srp_reconnect_work ::
  "int \<Rightarrow> scsi_core \<Rightarrow> 'l srp_function_template \<Rightarrow> int \<Rightarrow> 'l xport \<Rightarrow> 'l xport" where
  "srp_reconnect_work hz C F lock_res s =
     (let (res, s1) = srp_reconnect_rport hz C F lock_res s in
      if res \<noteq> 0 then
        let r = (xp_rport s1)\<lparr>failed_reconnects := s32 (failed_reconnects (xp_rport s1) + 1)\<rparr>;
            delay = srp_reconnect_backoff (reconnect_delay r) (failed_reconnects r);
            r1 = (if delay > 0
                  then r\<lparr>reconnect_work :=
                          queue_delayed_work (int_jiffies hz delay) (reconnect_work r)\<rparr>
                  else r)
        in s1\<lparr>xp_rport := r1\<rparr>
      else s1)"

section \<open>I/O timeouts and readiness\<close>

datatype blk_eh_timer_return = BLK_EH_NOT_HANDLED | BLK_EH_RESET_TIMER

definition scsi_device_blocked :: "sdev_state \<Rightarrow> bool" where
  "scsi_device_blocked d \<longleftrightarrow> d = SDEV_BLOCK \<or> d = SDEV_CREATED_BLOCK"

definition srp_timed_out ::
  "'l srp_function_template \<Rightarrow> srp_rport \<Rightarrow> sdev_state \<Rightarrow> blk_eh_timer_return" where
  "srp_timed_out F r sdev =
     (if fast_io_fail_tmo r < 0 \<and> dev_loss_tmo r < 0 \<and>
         reset_timer_if_blocked F \<and> scsi_device_blocked sdev
      then BLK_EH_RESET_TIMER else BLK_EH_NOT_HANDLED)"

definition DID_OK :: int where "DID_OK = 0"
definition DID_NO_CONNECT :: int where "DID_NO_CONNECT = 1"
definition DID_ABORT :: int where "DID_ABORT = 5"
definition DID_ERROR :: int where "DID_ERROR = 7"
definition DID_RESET :: int where "DID_RESET = 8"
definition DID_TRANSPORT_FAILFAST :: int where "DID_TRANSPORT_FAILFAST = 15"

fun srp_chkready :: "srp_rport_state \<Rightarrow> int" where
  "srp_chkready SRP_RPORT_RUNNING = 0"
| "srp_chkready SRP_RPORT_BLOCKED = 0"
| "srp_chkready SRP_RPORT_FAIL_FAST = DID_TRANSPORT_FAILFAST * 2 ^ 16"
| "srp_chkready SRP_RPORT_LOST = DID_NO_CONNECT * 2 ^ 16"

section \<open>Creation and removal\<close>

text \<open>\<open>alloc_ok\<close> is whether \<^verbatim>\<open>kzalloc()\<close> succeeds, \<open>add_res\<close> what \<^verbatim>\<open>device_add()\<close> returns.\<close>

definition srp_rport_init :: "'l srp_function_template \<Rightarrow> srp_rport_identifiers \<Rightarrow> srp_rport" where
  "srp_rport_init F ids =
     \<lparr>port_id = ids_port_id ids, roles = ids_roles ids,
      rp_state = SRP_RPORT_RUNNING,
      reconnect_delay =
        (case f_reconnect F of
           Some _ \<Rightarrow> (case f_reconnect_delay F of Some d \<Rightarrow> d | None \<Rightarrow> 10)
         | None \<Rightarrow> 0),
      failed_reconnects = 0,
      reconnect_work = INIT_DELAYED_WORK,
      fast_io_fail_tmo = (case f_fast_io_fail_tmo F of Some t \<Rightarrow> t | None \<Rightarrow> 15),
      dev_loss_tmo = (case f_dev_loss_tmo F of Some t \<Rightarrow> t | None \<Rightarrow> 600),
      fast_io_fail_work = INIT_DELAYED_WORK,
      dev_loss_work = INIT_DELAYED_WORK\<rparr>"

definition srp_host_setup :: int where
  "srp_host_setup = 0"

definition srp_rport_add ::
  "'l srp_function_template \<Rightarrow> srp_rport_identifiers \<Rightarrow> bool \<Rightarrow> int \<Rightarrow> int \<Rightarrow> int \<Rightarrow>
   int \<times> (int + (srp_rport \<times> string))" where
  "srp_rport_add F ids alloc_ok add_res host_no next_port_id =
     (if \<not> alloc_ok then (next_port_id, Inl (- ENOMEM))
      else
        let r = srp_rport_init F ids;
            id = s32 (next_port_id + 1);
            name = ''port-'' @ dec_of_int host_no @ '':'' @ dec_of_int id
        in if add_res \<noteq> 0 then (id, Inl add_res) else (id, Inr (r, name)))"

text \<open>
  \<^verbatim>\<open>srp_stop_rport_timers()\<close> in two parts: what it does under the mutex, and the three
  \<^verbatim>\<open>cancel_delayed_work_sync()\<close> calls, which return once no handler is executing.
\<close>

definition srp_stop_rport_timers_lost ::
  "scsi_core \<Rightarrow> 'l srp_function_template \<Rightarrow> 'l xport \<Rightarrow> 'l xport" where
  "srp_stop_rport_timers_lost C F s =
     (let s1 = (if rp_state (xp_rport s) = SRP_RPORT_BLOCKED then rport_fail_io_fast C F s else s)
      in s1\<lparr>xp_rport := snd (srp_rport_set_state SRP_RPORT_LOST (xp_rport s1))\<rparr>)"

definition cancel_delayed_work_sync :: "delayed_work \<Rightarrow> delayed_work" where
  "cancel_delayed_work_sync w = w\<lparr>dw_pending := None, dw_running := False\<rparr>"

definition srp_stop_rport_timers_sync :: "'l xport \<Rightarrow> 'l xport" where
  "srp_stop_rport_timers_sync s =
     upd_rport (\<lambda>r. r\<lparr>reconnect_work := cancel_delayed_work_sync (reconnect_work r),
                     fast_io_fail_work := cancel_delayed_work_sync (fast_io_fail_work r),
                     dev_loss_work := cancel_delayed_work_sync (dev_loss_work r)\<rparr>) s"

definition srp_stop_rport_timers ::
  "scsi_core \<Rightarrow> 'l srp_function_template \<Rightarrow> 'l xport \<Rightarrow> 'l xport" where
  "srp_stop_rport_timers C F s = srp_stop_rport_timers_sync (srp_stop_rport_timers_lost C F s)"

section \<open>The transport template\<close>

datatype rport_attr =
  attr_port_id | attr_roles | attr_state | attr_fast_io_fail_tmo | attr_dev_loss_tmo |
  attr_reconnect_delay | attr_failed_reconnects | attr_delete

definition SRP_RPORT_ATTRS :: nat where "SRP_RPORT_ATTRS = 8"

text \<open>\<open>rport_attrs ft\<close> is the NULL-terminated array filled in by \<^verbatim>\<open>srp_attach_transport()\<close>.\<close>

definition srp_attach_transport :: "'l srp_function_template \<Rightarrow> rport_attr option list" where
  "srp_attach_transport ft =
     map Some ([attr_port_id, attr_roles] @
       (if has_rport_state ft then [attr_state, attr_fast_io_fail_tmo, attr_dev_loss_tmo] else []) @
       (if f_reconnect ft \<noteq> None then [attr_reconnect_delay, attr_failed_reconnects] else []) @
       (if f_rport_delete ft \<noteq> None then [attr_delete] else [])) @ [None]"

datatype transport_class = srp_host_class | srp_rport_class

text \<open>\<open>res\<close> is what \<^verbatim>\<open>transport_class_register()\<close> returns for a class.\<close>

definition srp_transport_init ::
  "(transport_class \<Rightarrow> int) \<Rightarrow> transport_class list \<Rightarrow> int \<times> transport_class list" where
  "srp_transport_init res reg =
     (if res srp_host_class \<noteq> 0 then (res srp_host_class, reg)
      else
        let reg1 = srp_host_class # reg in
        if res srp_rport_class \<noteq> 0
        then (res srp_rport_class, removeAll srp_host_class reg1)
        else (0, srp_rport_class # reg1))"

definition srp_transport_exit :: "transport_class list \<Rightarrow> transport_class list" where
  "srp_transport_exit reg = removeAll srp_rport_class (removeAll srp_host_class reg)"

section \<open>The transport class as a step relation\<close>

definition start_work :: "delayed_work \<Rightarrow> delayed_work" where
  "start_work w = w\<lparr>dw_pending := None, dw_running := True\<rparr>"

definition finish_work :: "delayed_work \<Rightarrow> delayed_work" where
  "finish_work w = w\<lparr>dw_running := False\<rparr>"

definition work_active :: "delayed_work \<Rightarrow> bool" where
  "work_active w \<longleftrightarrow> dw_pending w \<noteq> None \<or> dw_running w"

text \<open>
  One step is: the low-level driver reports a transport layer error; a timer expires or the
  handler it started runs to completion; the SCSI error handler resets the host; a sysfs
  attribute is written; the port is being stopped (\<open>xport_op\<close>); or the rest of the system
  changes the device states, the activity counters or the low-level driver. \<open>lr\<close> is the result of
  \<^verbatim>\<open>mutex_lock_interruptible()\<close>.
\<close>

inductive xport_op ::
  "int \<Rightarrow> scsi_core \<Rightarrow> 'l srp_function_template \<Rightarrow> 'l xport \<Rightarrow> 'l xport \<Rightarrow> bool"
  for hz :: int and C :: scsi_core and F :: "'l srp_function_template"
where
  tl_error: "xport_op hz C F s (srp_start_tl_fail_timers hz C s)"
| reconnect_expires:
    "\<lbrakk>dw_pending (reconnect_work (xp_rport s)) \<noteq> None; \<not> dw_running (reconnect_work (xp_rport s))\<rbrakk>
     \<Longrightarrow> xport_op hz C F s
           (upd_rport (\<lambda>r. r\<lparr>reconnect_work := start_work (reconnect_work r)\<rparr>) s)"
| reconnect_runs:
    "dw_running (reconnect_work (xp_rport s)) \<Longrightarrow>
     xport_op hz C F s
       (upd_rport (\<lambda>r. r\<lparr>reconnect_work := finish_work (reconnect_work r)\<rparr>)
          (srp_reconnect_work hz C F lr s))"
| fast_io_fail_expires:
    "\<lbrakk>dw_pending (fast_io_fail_work (xp_rport s)) \<noteq> None;
      \<not> dw_running (fast_io_fail_work (xp_rport s))\<rbrakk>
     \<Longrightarrow> xport_op hz C F s
           (upd_rport (\<lambda>r. r\<lparr>fast_io_fail_work := start_work (fast_io_fail_work r)\<rparr>) s)"
| fast_io_fail_runs:
    "dw_running (fast_io_fail_work (xp_rport s)) \<Longrightarrow>
     xport_op hz C F s
       (upd_rport (\<lambda>r. r\<lparr>fast_io_fail_work := finish_work (fast_io_fail_work r)\<rparr>)
          (rport_fast_io_fail_timedout C F s))"
| dev_loss_expires:
    "\<lbrakk>dw_pending (dev_loss_work (xp_rport s)) \<noteq> None; \<not> dw_running (dev_loss_work (xp_rport s))\<rbrakk>
     \<Longrightarrow> xport_op hz C F s
           (upd_rport (\<lambda>r. r\<lparr>dev_loss_work := start_work (dev_loss_work r)\<rparr>) s)"
| dev_loss_runs:
    "dw_running (dev_loss_work (xp_rport s)) \<Longrightarrow>
     xport_op hz C F s
       (upd_rport (\<lambda>r. r\<lparr>dev_loss_work := finish_work (dev_loss_work r)\<rparr>)
          (rport_dev_loss_timedout C F s))"
| reset_host: "xport_op hz C F s (snd (srp_reconnect_rport hz C F lr s))"
| write_reconnect_delay:
    "xport_op hz C F s (upd_rport (\<lambda>r. snd (store_reconnect_delay hz buf n r)) s)"
| write_fast_io_fail_tmo:
    "xport_op hz C F s (upd_rport (\<lambda>r. snd (store_srp_rport_fast_io_fail_tmo hz buf n r)) s)"
| write_dev_loss_tmo:
    "xport_op hz C F s (upd_rport (\<lambda>r. snd (store_srp_rport_dev_loss_tmo hz buf n r)) s)"
| write_delete: "xport_op hz C F s (snd (store_srp_rport_delete F n s))"
| stop_lost: "xport_op hz C F s (srp_stop_rport_timers_lost C F s)"
| stop_sync:
    "\<lbrakk>rp_state (xp_rport s) = SRP_RPORT_LOST;
      \<not> dw_running (reconnect_work (xp_rport s)); \<not> dw_running (fast_io_fail_work (xp_rport s));
      \<not> dw_running (dev_loss_work (xp_rport s))\<rbrakk>
     \<Longrightarrow> xport_op hz C F s (srp_stop_rport_timers_sync s)"

inductive xport_step ::
  "int \<Rightarrow> scsi_core \<Rightarrow> 'l srp_function_template \<Rightarrow> 'l xport \<Rightarrow> 'l xport \<Rightarrow> bool"
  for hz :: int and C :: scsi_core and F :: "'l srp_function_template"
where
  operation: "xport_op hz C F s t \<Longrightarrow> xport_step hz C F s t"
| environment:
    "xport_step hz C F s (s\<lparr>xp_sdevs := d, xp_request_fn_active := a, xp_lld := l\<rparr>)"

text \<open>A port starts as \<^verbatim>\<open>srp_rport_add()\<close> leaves it, with timeouts that have been validated.\<close>

inductive xport_reachable ::
  "int \<Rightarrow> scsi_core \<Rightarrow> 'l srp_function_template \<Rightarrow> 'l xport \<Rightarrow> bool"
  for hz :: int and C :: scsi_core and F :: "'l srp_function_template"
where
  added:
    "\<lbrakk>xp_rport s = srp_rport_init F ids;
      srp_tmo_valid hz (reconnect_delay (xp_rport s)) (fast_io_fail_tmo (xp_rport s))
        (dev_loss_tmo (xp_rport s)) = 0\<rbrakk>
     \<Longrightarrow> xport_reachable hz C F s"
| step: "\<lbrakk>xport_reachable hz C F s; xport_step hz C F s t\<rbrakk> \<Longrightarrow> xport_reachable hz C F t"

section \<open>Effect of each operation on the remote port\<close>

lemma set_state_simps [simp]:
  "srp_rport_set_state SRP_RPORT_LOST r = (0, r\<lparr>rp_state := SRP_RPORT_LOST\<rparr>)"
  "rp_state r \<noteq> SRP_RPORT_LOST \<Longrightarrow>
     srp_rport_set_state SRP_RPORT_FAIL_FAST r = (0, r\<lparr>rp_state := SRP_RPORT_FAIL_FAST\<rparr>)"
  "rp_state r \<noteq> SRP_RPORT_LOST \<Longrightarrow>
     srp_rport_set_state SRP_RPORT_RUNNING r = (0, r\<lparr>rp_state := SRP_RPORT_RUNNING\<rparr>)"
  "rp_state r = SRP_RPORT_RUNNING \<Longrightarrow>
     srp_rport_set_state SRP_RPORT_BLOCKED r = (0, r\<lparr>rp_state := SRP_RPORT_BLOCKED\<rparr>)"
  "rp_state r = SRP_RPORT_LOST \<Longrightarrow> srp_rport_set_state SRP_RPORT_FAIL_FAST r = (- EINVAL, r)"
  "rp_state r = SRP_RPORT_LOST \<Longrightarrow> srp_rport_set_state SRP_RPORT_RUNNING r = (- EINVAL, r)"
  "rp_state r \<noteq> SRP_RPORT_RUNNING \<Longrightarrow> srp_rport_set_state SRP_RPORT_BLOCKED r = (- EINVAL, r)"
  by (simp_all add: srp_rport_set_state_def)

lemma rport_wait [simp]: "xp_rport (srp_wait_for_queuecommand s) = xp_rport s"
  by (simp add: srp_wait_for_queuecommand_def)

lemma rport_quiesce [simp]: "xp_rport (srp_reconnect_quiesce C s) = xp_rport s"
  by (simp add: srp_reconnect_quiesce_def)

lemma rport_reconnect_call [simp]: "xp_rport (snd (srp_reconnect_call F s)) = xp_rport s"
  by (auto simp: srp_reconnect_call_def split: option.splits prod.splits)

lemma reconnect_call_lost:
  "rp_state (xp_rport s) = SRP_RPORT_LOST \<Longrightarrow> srp_reconnect_call F s = (- ENODEV, s)"
  by (simp add: srp_reconnect_call_def)

lemma rport_fail_io_fast_rport:
  "xp_rport (rport_fail_io_fast C F s) =
     (if rp_state (xp_rport s) = SRP_RPORT_LOST then xp_rport s
      else (xp_rport s)\<lparr>rp_state := SRP_RPORT_FAIL_FAST\<rparr>)"
  by (auto simp: rport_fail_io_fast_def Let_def split: option.splits)

lemma rport_fast_io_fail_timedout_rport:
  "xp_rport (rport_fast_io_fail_timedout C F s) =
     (if rp_state (xp_rport s) = SRP_RPORT_BLOCKED
      then (xp_rport s)\<lparr>rp_state := SRP_RPORT_FAIL_FAST\<rparr> else xp_rport s)"
  by (simp add: rport_fast_io_fail_timedout_def rport_fail_io_fast_rport)

lemma rport_dev_loss_timedout_rport:
  "xp_rport (rport_dev_loss_timedout C F s) = (xp_rport s)\<lparr>rp_state := SRP_RPORT_LOST\<rparr>"
  by (simp add: rport_dev_loss_timedout_def Let_def split: option.splits)

lemma rport_stop_lost:
  "xp_rport (srp_stop_rport_timers_lost C F s) = (xp_rport s)\<lparr>rp_state := SRP_RPORT_LOST\<rparr>"
  by (simp add: srp_stop_rport_timers_lost_def Let_def rport_fail_io_fast_rport)

lemma rport_reconnect_succeeded:
  "rp_state (xp_rport s) \<noteq> SRP_RPORT_LOST \<Longrightarrow>
   xp_rport (srp_reconnect_succeeded C s) =
     (xp_rport s)\<lparr>fast_io_fail_work := cancel_delayed_work (fast_io_fail_work (xp_rport s)),
        dev_loss_work := cancel_delayed_work (dev_loss_work (xp_rport s)),
        failed_reconnects := 0, rp_state := SRP_RPORT_RUNNING\<rparr>"
  by (simp add: srp_reconnect_succeeded_def Let_def split_beta)

lemma start_timers_state:
  "rp_state (xp_rport (srp_start_tl_fail_timers_locked hz C s)) =
     (if rp_state (xp_rport s) = SRP_RPORT_RUNNING \<and>
         (fast_io_fail_tmo (xp_rport s) \<ge> 0 \<or> dev_loss_tmo (xp_rport s) \<ge> 0)
      then SRP_RPORT_BLOCKED else rp_state (xp_rport s))"
  by (cases "rp_state (xp_rport s)")
     (simp_all add: srp_start_tl_fail_timers_locked_def Let_def split_beta)

lemma start_timers_tmo [simp]:
  "reconnect_delay (xp_rport (srp_start_tl_fail_timers_locked hz C s)) = reconnect_delay (xp_rport s)"
  "fast_io_fail_tmo (xp_rport (srp_start_tl_fail_timers_locked hz C s)) = fast_io_fail_tmo (xp_rport s)"
  "dev_loss_tmo (xp_rport (srp_start_tl_fail_timers_locked hz C s)) = dev_loss_tmo (xp_rport s)"
  "failed_reconnects (xp_rport (srp_start_tl_fail_timers_locked hz C s)) = failed_reconnects (xp_rport s)"
  by (cases "rp_state (xp_rport s)";
      simp add: srp_start_tl_fail_timers_locked_def Let_def split_beta)+

lemma work_active_queue [simp]: "work_active (queue_delayed_work d w)"
  by (simp add: work_active_def queue_delayed_work_def split: option.splits)

lemma start_timers_not_running:
  "rp_state (xp_rport s) \<noteq> SRP_RPORT_RUNNING \<Longrightarrow>
   xp_rport (srp_start_tl_fail_timers_locked hz C s) =
     (if rp_state (xp_rport s) = SRP_RPORT_LOST \<or> reconnect_delay (xp_rport s) \<le> 0 then xp_rport s
      else (xp_rport s)\<lparr>reconnect_work :=
             queue_delayed_work (ulong_jiffies hz (reconnect_delay (xp_rport s)))
               (reconnect_work (xp_rport s))\<rparr>)"
  by (simp add: srp_start_tl_fail_timers_locked_def Let_def split_beta)

lemma start_timers_active:
  "rp_state (xp_rport s) = SRP_RPORT_RUNNING \<Longrightarrow> 0 \<le> fast_io_fail_tmo (xp_rport s) \<Longrightarrow>
     work_active (fast_io_fail_work (xp_rport (srp_start_tl_fail_timers_locked hz C s)))"
  "rp_state (xp_rport s) = SRP_RPORT_RUNNING \<Longrightarrow> 0 \<le> dev_loss_tmo (xp_rport s) \<Longrightarrow>
     work_active (dev_loss_work (xp_rport (srp_start_tl_fail_timers_locked hz C s)))"
  by (simp_all add: srp_start_tl_fail_timers_locked_def Let_def split_beta)

text \<open>The five ways through \<^verbatim>\<open>srp_reconnect_rport()\<close>.\<close>

lemma reconnect_rport_cases:
  obtains
    (interrupted) "lr \<noteq> 0" "srp_reconnect_rport hz C F lr s = (lr, s)"
  | (succeeded) s1 where "lr = 0" "rp_state (xp_rport s) \<noteq> SRP_RPORT_LOST"
      "srp_reconnect_call F (srp_reconnect_quiesce C s) = (0, s1)" "xp_rport s1 = xp_rport s"
      "srp_reconnect_rport hz C F lr s = (0, srp_reconnect_succeeded C s1)"
  | (failed_running) res s1 where "lr = 0" "res \<noteq> 0" "rp_state (xp_rport s) = SRP_RPORT_RUNNING"
      "srp_reconnect_call F (srp_reconnect_quiesce C s) = (res, s1)" "xp_rport s1 = xp_rport s"
      "srp_reconnect_rport hz C F lr s =
         (res, srp_start_tl_fail_timers_locked hz C
                 ((rport_fail_io_fast C F s1)\<lparr>xp_sdevs := scsi_target_unblock C
                    SDEV_TRANSPORT_OFFLINE (xp_sdevs (rport_fail_io_fast C F s1))\<rparr>))"
  | (failed_blocked) res s1 where "lr = 0" "res \<noteq> 0" "rp_state (xp_rport s) = SRP_RPORT_BLOCKED"
      "srp_reconnect_call F (srp_reconnect_quiesce C s) = (res, s1)" "xp_rport s1 = xp_rport s"
      "srp_reconnect_rport hz C F lr s = (res, s1)"
  | (failed_offline) res s1 where "lr = 0" "res \<noteq> 0"
      "rp_state (xp_rport s) = SRP_RPORT_FAIL_FAST \<or> rp_state (xp_rport s) = SRP_RPORT_LOST"
      "srp_reconnect_call F (srp_reconnect_quiesce C s) = (res, s1)" "xp_rport s1 = xp_rport s"
      "srp_reconnect_rport hz C F lr s =
         (res, s1\<lparr>xp_sdevs := scsi_target_unblock C SDEV_TRANSPORT_OFFLINE (xp_sdevs s1)\<rparr>)"
proof (cases "lr = 0")
  case False
  then show thesis by (intro interrupted) (simp_all add: srp_reconnect_rport_def)
next
  case True
  obtain res s1 where call: "srp_reconnect_call F (srp_reconnect_quiesce C s) = (res, s1)"
    by fastforce
  have rp: "xp_rport s1 = xp_rport s"
    using rport_reconnect_call [of F "srp_reconnect_quiesce C s"] call by simp
  have lost: "rp_state (xp_rport s) = SRP_RPORT_LOST \<Longrightarrow> res \<noteq> 0"
    using call by (simp add: reconnect_call_lost)
  note defs = srp_reconnect_rport_def Let_def
  show thesis
  proof (cases "res = 0")
    case res: True
    with lost have "rp_state (xp_rport s) \<noteq> SRP_RPORT_LOST" by blast
    with True res call rp show thesis by (intro succeeded [of s1]) (simp_all add: defs)
  next
    case res: False
    show thesis
    proof (cases "rp_state (xp_rport s)")
      case SRP_RPORT_RUNNING
      with True res call rp show thesis by (intro failed_running [of res s1]) (simp_all add: defs)
    next
      case SRP_RPORT_BLOCKED
      with True res call rp show thesis by (intro failed_blocked [of res s1]) (simp_all add: defs)
    next
      case SRP_RPORT_FAIL_FAST
      with True res call rp show thesis by (intro failed_offline [of res s1]) (simp_all add: defs)
    next
      case SRP_RPORT_LOST
      with True res call rp show thesis by (intro failed_offline [of res s1]) (simp_all add: defs)
    qed
  qed
qed

text \<open>What \<^verbatim>\<open>srp_reconnect_rport()\<close> can do to the port, whatever the driver does.\<close>

definition reconnect_outcome :: "int \<Rightarrow> srp_rport \<Rightarrow> srp_rport \<Rightarrow> bool" where
  "reconnect_outcome hz r r' \<longleftrightarrow>
     r' = r \<or>
     (rp_state r \<noteq> SRP_RPORT_LOST \<and>
      r' = r\<lparr>fast_io_fail_work := cancel_delayed_work (fast_io_fail_work r),
             dev_loss_work := cancel_delayed_work (dev_loss_work r),
             failed_reconnects := 0, rp_state := SRP_RPORT_RUNNING\<rparr>) \<or>
     (rp_state r = SRP_RPORT_RUNNING \<and>
      (r' = r\<lparr>rp_state := SRP_RPORT_FAIL_FAST\<rparr> \<or>
       r' = r\<lparr>rp_state := SRP_RPORT_FAIL_FAST,
              reconnect_work :=
                queue_delayed_work (ulong_jiffies hz (reconnect_delay r)) (reconnect_work r)\<rparr>))"

lemma reconnect_rport_outcome:
  "reconnect_outcome hz (xp_rport s) (xp_rport (snd (srp_reconnect_rport hz C F lr s)))"
  by (rule reconnect_rport_cases [of lr hz C F s])
     (auto simp: reconnect_outcome_def rport_reconnect_succeeded start_timers_not_running
        rport_fail_io_fast_rport)

lemma reconnect_work_fields [simp]:
  "rp_state (xp_rport (srp_reconnect_work hz C F lr s)) =
     rp_state (xp_rport (snd (srp_reconnect_rport hz C F lr s)))"
  "reconnect_delay (xp_rport (srp_reconnect_work hz C F lr s)) =
     reconnect_delay (xp_rport (snd (srp_reconnect_rport hz C F lr s)))"
  "fast_io_fail_tmo (xp_rport (srp_reconnect_work hz C F lr s)) =
     fast_io_fail_tmo (xp_rport (snd (srp_reconnect_rport hz C F lr s)))"
  "dev_loss_tmo (xp_rport (srp_reconnect_work hz C F lr s)) =
     dev_loss_tmo (xp_rport (snd (srp_reconnect_rport hz C F lr s)))"
  "fast_io_fail_work (xp_rport (srp_reconnect_work hz C F lr s)) =
     fast_io_fail_work (xp_rport (snd (srp_reconnect_rport hz C F lr s)))"
  "dev_loss_work (xp_rport (srp_reconnect_work hz C F lr s)) =
     dev_loss_work (xp_rport (snd (srp_reconnect_rport hz C F lr s)))"
  by (simp_all add: srp_reconnect_work_def split_beta Let_def)

lemma reconnect_outcome_fields:
  assumes "reconnect_outcome hz r r'"
  shows "reconnect_delay r' = reconnect_delay r" "fast_io_fail_tmo r' = fast_io_fail_tmo r"
    "dev_loss_tmo r' = dev_loss_tmo r"
    "rp_state r' = SRP_RPORT_BLOCKED \<Longrightarrow> r' = r"
    "rp_state r = SRP_RPORT_LOST \<Longrightarrow> r' = r"
  using assms by (auto simp: reconnect_outcome_def)

section \<open>Invariants of the transport class\<close>

text \<open>
  \<open>rport_inv\<close>: the three timeouts form a valid combination, and a blocked port always has
  a fast I/O fail or device loss handler pending or executing, so it cannot stay blocked.
\<close>

definition tmo_ok :: "int \<Rightarrow> srp_rport \<Rightarrow> bool" where
  "tmo_ok hz r \<longleftrightarrow> srp_tmo_valid hz (reconnect_delay r) (fast_io_fail_tmo r) (dev_loss_tmo r) = 0"

definition recovery_scheduled :: "srp_rport \<Rightarrow> bool" where
  "recovery_scheduled r \<longleftrightarrow> work_active (fast_io_fail_work r) \<or> work_active (dev_loss_work r)"

definition rport_inv :: "int \<Rightarrow> srp_rport \<Rightarrow> bool" where
  "rport_inv hz r \<longleftrightarrow> tmo_ok hz r \<and> (rp_state r = SRP_RPORT_BLOCKED \<longrightarrow> recovery_scheduled r)"

lemmas rport_inv_defs = rport_inv_def tmo_ok_def recovery_scheduled_def

lemma work_active_start_finish [simp]:
  "work_active (start_work w)"
  "work_active (finish_work w) \<longleftrightarrow> dw_pending w \<noteq> None"
  by (simp_all add: work_active_def start_work_def finish_work_def)

lemma rport_inv_start_timers:
  "rport_inv hz (xp_rport s) \<Longrightarrow> rport_inv hz (xp_rport (srp_start_tl_fail_timers_locked hz C s))"
proof (cases "rp_state (xp_rport s) = SRP_RPORT_RUNNING")
  case True
  assume "rport_inv hz (xp_rport s)"
  with True show ?thesis
    using start_timers_active [of s hz C] by (auto simp: rport_inv_defs start_timers_state)
next
  case False
  assume "rport_inv hz (xp_rport s)"
  with False show ?thesis by (simp add: start_timers_not_running rport_inv_defs)
qed

lemma rport_inv_outcome:
  "reconnect_outcome hz r r' \<Longrightarrow> rport_inv hz r \<Longrightarrow> rport_inv hz r'"
  by (auto simp: rport_inv_defs reconnect_outcome_def)

lemma rport_inv_reconnect_rport:
  "rport_inv hz (xp_rport s) \<Longrightarrow> rport_inv hz (xp_rport (snd (srp_reconnect_rport hz C F lr s)))"
  by (rule rport_inv_outcome [OF reconnect_rport_outcome])

lemma rport_inv_reconnect_work:
  "rport_inv hz (xp_rport s) \<Longrightarrow> rport_inv hz (xp_rport (srp_reconnect_work hz C F lr s))"
  using rport_inv_reconnect_rport [of hz s C F lr] by (simp add: rport_inv_defs)

lemma rport_inv_store:
  "rport_inv hz r \<Longrightarrow> rport_inv hz (snd (store_reconnect_delay hz buf n r))"
  "rport_inv hz r \<Longrightarrow> rport_inv hz (snd (store_srp_rport_fast_io_fail_tmo hz buf n r))"
  "rport_inv hz r \<Longrightarrow> rport_inv hz (snd (store_srp_rport_dev_loss_tmo hz buf n r))"
  by (auto simp: rport_inv_defs store_reconnect_delay_def store_srp_rport_fast_io_fail_tmo_def
      store_srp_rport_dev_loss_tmo_def Let_def split: sum.splits)

lemma rport_inv_op:
  "xport_op hz C F s t \<Longrightarrow> rport_inv hz (xp_rport s) \<Longrightarrow> rport_inv hz (xp_rport t)"
proof (induction rule: xport_op.induct)
  case (tl_error s)
  then show ?case by (simp add: srp_start_tl_fail_timers_def rport_inv_start_timers)
next
  case (reconnect_runs s lr)
  then show ?case using rport_inv_reconnect_work [of hz s C F lr] by (simp add: rport_inv_defs)
next
  case (fast_io_fail_runs s)
  then show ?case by (auto simp: rport_inv_defs rport_fast_io_fail_timedout_rport)
next
  case (dev_loss_runs s)
  then show ?case by (simp add: rport_inv_defs rport_dev_loss_timedout_rport)
next
  case (reset_host s lr)
  then show ?case by (rule rport_inv_reconnect_rport)
next
  case (write_delete s n)
  then show ?case by (simp add: store_srp_rport_delete_def split: option.splits)
next
  case (stop_lost s)
  then show ?case by (simp add: rport_inv_defs rport_stop_lost)
next
  case (stop_sync s)
  then show ?case by (simp add: rport_inv_defs srp_stop_rport_timers_sync_def)
next
  case (write_reconnect_delay s buf n)
  then show ?case by (simp add: rport_inv_store)
next
  case (write_fast_io_fail_tmo s buf n)
  then show ?case by (simp add: rport_inv_store)
next
  case (write_dev_loss_tmo s buf n)
  then show ?case by (simp add: rport_inv_store)
qed (simp_all add: rport_inv_defs)

lemma rport_inv_step:
  "xport_step hz C F s t \<Longrightarrow> rport_inv hz (xp_rport s) \<Longrightarrow> rport_inv hz (xp_rport t)"
  by (erule xport_step.cases) (simp_all add: rport_inv_op)

lemma rport_inv_reachable: "xport_reachable hz C F s \<Longrightarrow> rport_inv hz (xp_rport s)"
proof (induction rule: xport_reachable.induct)
  case (added s ids)
  then show ?case by (simp add: rport_inv_defs srp_rport_init_def)
next
  case (step s t)
  then show ?case by (blast intro: rport_inv_step)
qed

section \<open>The contract with a low-level driver\<close>

text \<open>
  What the transport class relies on: \<^verbatim>\<open>terminate_rport_io()\<close> leaves no command
  outstanding, and \<^verbatim>\<open>reconnect()\<close> returns 0 only with the connection established and
  the commands of the previous connection finished.
\<close>

locale srp_lld =
  fixes F :: "'l srp_function_template"
    and lld_inv :: "'l \<Rightarrow> bool"
    and lld_idle :: "'l \<Rightarrow> bool"
    and lld_connected :: "'l \<Rightarrow> bool"
  assumes has_terminate: "f_terminate_rport_io F \<noteq> None"
    and terminate_idle:
      "\<lbrakk>f_terminate_rport_io F = Some t; lld_inv l\<rbrakk> \<Longrightarrow> lld_inv (t l) \<and> lld_idle (t l)"
    and reconnect_keeps: "\<lbrakk>f_reconnect F = Some rc; lld_inv l\<rbrakk> \<Longrightarrow> lld_inv (snd (rc l))"
    and reconnect_connects:
      "\<lbrakk>f_reconnect F = Some rc; lld_inv l; fst (rc l) = 0\<rbrakk>
       \<Longrightarrow> lld_connected (snd (rc l)) \<and> lld_idle (snd (rc l))"
    and delete_keeps: "\<lbrakk>f_rport_delete F = Some del; lld_inv l\<rbrakk> \<Longrightarrow> lld_inv (del l)"
begin

lemma fail_fast_idle:
  assumes "lld_inv (xp_lld s)" and "rp_state (xp_rport s) \<noteq> SRP_RPORT_LOST"
  shows "lld_inv (xp_lld (rport_fail_io_fast C F s)) \<and> lld_idle (xp_lld (rport_fail_io_fast C F s))"
  using assms has_terminate terminate_idle
  by (auto simp: rport_fail_io_fast_def Let_def srp_wait_for_queuecommand_def)

lemma fail_io_fast_keeps:
  "lld_inv (xp_lld s) \<Longrightarrow> lld_inv (xp_lld (rport_fail_io_fast C F s))"
  using fail_fast_idle [of s C]
  by (cases "rp_state (xp_rport s) = SRP_RPORT_LOST") (auto simp: rport_fail_io_fast_def Let_def)

lemma reconnect_call_lld:
  assumes "srp_reconnect_call F s = (res, s1)" and "lld_inv (xp_lld s)"
  shows "lld_inv (xp_lld s1) \<and>
    (res = 0 \<longrightarrow> lld_connected (xp_lld s1) \<and> lld_idle (xp_lld s1))"
proof (cases "rp_state (xp_rport s) = SRP_RPORT_LOST \<or> f_reconnect F = None")
  case True
  with assms show ?thesis by (auto simp: srp_reconnect_call_def split: if_splits)
next
  case False
  then obtain rc where rc: "f_reconnect F = Some rc" by auto
  with False assms(1) have "res = fst (rc (xp_lld s))" "xp_lld s1 = snd (rc (xp_lld s))"
    by (auto simp: srp_reconnect_call_def split: prod.splits)
  with reconnect_keeps [OF rc assms(2)] reconnect_connects [OF rc assms(2)] show ?thesis by auto
qed

lemma lld_start_timers [simp]: "xp_lld (srp_start_tl_fail_timers_locked hz C s) = xp_lld s"
  by (simp add: srp_start_tl_fail_timers_locked_def Let_def split_beta)

lemma reconnect_rport_lld:
  assumes inv: "lld_inv (xp_lld s)"
  shows "lld_inv (xp_lld (snd (srp_reconnect_rport hz C F lr s)))"
    and "fst (srp_reconnect_rport hz C F lr s) = 0 \<Longrightarrow>
      lld_connected (xp_lld (snd (srp_reconnect_rport hz C F lr s))) \<and>
      lld_idle (xp_lld (snd (srp_reconnect_rport hz C F lr s)))"
    and "lr = 0 \<Longrightarrow> fst (srp_reconnect_rport hz C F lr s) \<noteq> 0 \<Longrightarrow>
      rp_state (xp_rport s) = SRP_RPORT_RUNNING \<Longrightarrow>
      lld_idle (xp_lld (snd (srp_reconnect_rport hz C F lr s)))"
proof -
  have q: "xp_lld (srp_reconnect_quiesce C s) = xp_lld s"
    by (simp add: srp_reconnect_quiesce_def srp_wait_for_queuecommand_def)
  have succ: "xp_lld (srp_reconnect_succeeded C u) = xp_lld u" for u :: "'l xport"
    by (simp add: srp_reconnect_succeeded_def Let_def split_beta)
  note call = reconnect_call_lld [where s = "srp_reconnect_quiesce C s", unfolded q, OF _ inv]
  show "lld_inv (xp_lld (snd (srp_reconnect_rport hz C F lr s)))"
    by (rule reconnect_rport_cases [of lr hz C F s])
       (auto simp: inv succ fail_io_fast_keeps dest: call)
  show "fst (srp_reconnect_rport hz C F lr s) = 0 \<Longrightarrow>
      lld_connected (xp_lld (snd (srp_reconnect_rport hz C F lr s))) \<and>
      lld_idle (xp_lld (snd (srp_reconnect_rport hz C F lr s)))"
    by (rule reconnect_rport_cases [of lr hz C F s]) (auto simp: succ dest: call)
  show "lr = 0 \<Longrightarrow> fst (srp_reconnect_rport hz C F lr s) \<noteq> 0 \<Longrightarrow>
      rp_state (xp_rport s) = SRP_RPORT_RUNNING \<Longrightarrow>
      lld_idle (xp_lld (snd (srp_reconnect_rport hz C F lr s)))"
    by (rule reconnect_rport_cases [of lr hz C F s]) (auto dest!: call simp: fail_fast_idle)
qed

lemma dev_loss_keeps:
  "lld_inv (xp_lld s) \<Longrightarrow> lld_inv (xp_lld (rport_dev_loss_timedout C F s))"
  using delete_keeps by (auto simp: rport_dev_loss_timedout_def Let_def split: option.split)

lemma op_keeps:
  "xport_op hz C F s t \<Longrightarrow> lld_inv (xp_lld s) \<Longrightarrow> lld_inv (xp_lld t)"
proof (induction rule: xport_op.induct)
  case (reconnect_runs s lr)
  then show ?case using reconnect_rport_lld(1) [of s hz C lr]
    by (simp add: srp_reconnect_work_def Let_def split_beta)
next
  case (reset_host s lr)
  then show ?case using reconnect_rport_lld(1) by simp
next
  case (write_delete s n)
  then show ?case using delete_keeps by (auto simp: store_srp_rport_delete_def split: option.split)
next
  case (stop_lost s)
  then show ?case by (simp add: srp_stop_rport_timers_lost_def Let_def fail_io_fast_keeps)
qed (simp_all add: srp_start_tl_fail_timers_def rport_fast_io_fail_timedout_def
    fail_io_fast_keeps dev_loss_keeps srp_stop_rport_timers_sync_def)

end

section \<open>Hypotheses about the SCSI core, and an instance\<close>

text \<open>
  \<open>scsi_unblock_ok C\<close> is the documented behaviour of \<^verbatim>\<open>scsi_target_unblock()\<close>: no device
  is left in one of the two blocked states.
\<close>

definition scsi_unblock_ok :: "scsi_core \<Rightarrow> bool" where
  "scsi_unblock_ok C \<longleftrightarrow>
     (\<forall>st ds d. st \<in> {SDEV_RUNNING, SDEV_TRANSPORT_OFFLINE} \<longrightarrow>
        d \<in> set (scsi_target_unblock C st ds) \<longrightarrow> \<not> scsi_device_blocked d)"

text \<open>The instance used by the examples: a core and a driver whose state is a result code.\<close>

definition example_core :: scsi_core where
  "example_core =
     \<lparr>scsi_target_block = map (\<lambda>d. if d = SDEV_CREATED then SDEV_CREATED_BLOCK
                                   else if d = SDEV_RUNNING then SDEV_BLOCK else d),
      scsi_target_unblock = (\<lambda>st. map (\<lambda>d. if d = SDEV_BLOCK \<or> d = SDEV_TRANSPORT_OFFLINE then st
                                              else if d = SDEV_CREATED_BLOCK then SDEV_CREATED
                                              else d))\<rparr>"

definition example_template :: "int srp_function_template" where
  "example_template =
     \<lparr>has_rport_state = True, reset_timer_if_blocked = True,
      f_reconnect_delay = Some 20, f_fast_io_fail_tmo = Some 15, f_dev_loss_tmo = Some 600,
      f_reconnect = Some (\<lambda>l. (l, l)), f_terminate_rport_io = Some (\<lambda>l. l),
      f_rport_delete = Some (\<lambda>l. l)\<rparr>"

definition example_port :: "int \<Rightarrow> int xport" where
  "example_port l =
     \<lparr>xp_rport = srp_rport_init example_template \<lparr>ids_port_id = replicate 16 0, ids_roles = 1\<rparr>,
      xp_sdevs = [SDEV_RUNNING, SDEV_OFFLINE], xp_request_fn_active = [1, 0], xp_lld = l\<rparr>"

lemma scsi_unblock_ok_example: "scsi_unblock_ok example_core"
  by (auto simp: scsi_unblock_ok_def example_core_def scsi_device_blocked_def)

lemmas example_defs = example_port_def example_template_def example_core_def srp_rport_init_def
  INIT_DELAYED_WORK_def

lemma example_port_reachable: "xport_reachable 250 example_core example_template (example_port l)"
  by (rule xport_reachable.added [where ids = "\<lparr>ids_port_id = replicate 16 0, ids_roles = 1\<rparr>"])
     (auto simp: example_defs srp_tmo_valid_def SCSI_DEVICE_BLOCK_MAX_TIMEOUT_def LONG_MAX_def)

lemma example_blocked:
  "rp_state (xp_rport (srp_start_tl_fail_timers 250 example_core (example_port l))) =
     SRP_RPORT_BLOCKED"
  by (simp add: srp_start_tl_fail_timers_def start_timers_state) (simp add: example_defs)

section \<open>Properties\<close>



text \<open>
  The documented state diagram of the initiator,
  \<^verbatim>\<open>src/Documentation/infiniband/ib_srp/srp-initiator-state-diagram.dot\<close>.
\<close>

fun documented_edge :: "srp_rport_state \<Rightarrow> srp_rport_state \<Rightarrow> bool" where
  "documented_edge SRP_RPORT_RUNNING SRP_RPORT_BLOCKED = True"
| "documented_edge SRP_RPORT_BLOCKED SRP_RPORT_FAIL_FAST = True"
| "documented_edge SRP_RPORT_BLOCKED SRP_RPORT_LOST = True"
| "documented_edge SRP_RPORT_FAIL_FAST SRP_RPORT_LOST = True"
| "documented_edge SRP_RPORT_BLOCKED SRP_RPORT_RUNNING = True"
| "documented_edge SRP_RPORT_FAIL_FAST SRP_RPORT_RUNNING = True"
| "documented_edge SRP_RPORT_RUNNING SRP_RPORT_FAIL_FAST = True"
| "documented_edge _ _ = False"

lemma store_keeps_state:
  "rp_state (snd (store_reconnect_delay hz buf n r)) = rp_state r"
  "rp_state (snd (store_srp_rport_fast_io_fail_tmo hz buf n r)) = rp_state r"
  "rp_state (snd (store_srp_rport_dev_loss_tmo hz buf n r)) = rp_state r"
  by (simp_all add: store_reconnect_delay_def store_srp_rport_fast_io_fail_tmo_def
      store_srp_rport_dev_loss_tmo_def Let_def split: sum.splits)

definition allowed_edge :: "srp_rport_state \<Rightarrow> srp_rport_state \<Rightarrow> bool" where
  "allowed_edge a b \<longleftrightarrow>
     b = a \<or> documented_edge a b \<or> (a = SRP_RPORT_RUNNING \<and> b = SRP_RPORT_LOST)"

lemma allowed_edge_outcome:
  "reconnect_outcome hz r r' \<Longrightarrow> allowed_edge (rp_state r) (rp_state r')"
  by (cases "rp_state r") (auto simp: reconnect_outcome_def allowed_edge_def)

lemma allowed_edge_to_lost [simp]: "allowed_edge a SRP_RPORT_LOST"
  by (cases a) (auto simp: allowed_edge_def)

lemma allowed_edge_refl [simp]: "allowed_edge a a"
  by (simp add: allowed_edge_def)

lemma allowed_edge_op:
  "xport_op hz C F s t \<Longrightarrow> allowed_edge (rp_state (xp_rport s)) (rp_state (xp_rport t))"
proof (induction rule: xport_op.induct)
  case (tl_error s)
  then show ?case by (simp add: srp_start_tl_fail_timers_def start_timers_state allowed_edge_def)
next
  case (reconnect_runs s lr)
  then show ?case
    using allowed_edge_outcome [OF reconnect_rport_outcome [of hz s C F lr]] by simp
next
  case (fast_io_fail_runs s)
  then show ?case by (auto simp: rport_fast_io_fail_timedout_rport allowed_edge_def)
next
  case (reset_host s lr)
  then show ?case by (rule allowed_edge_outcome [OF reconnect_rport_outcome])
qed (simp_all add: store_keeps_state rport_dev_loss_timedout_rport rport_stop_lost
    store_srp_rport_delete_def srp_stop_rport_timers_sync_def split: option.splits)

text \<open>C23. The port state machine refines the documented state diagram: one step of the
  transport class keeps the port's state, follows an edge of the diagram, or goes from running
  directly to lost (which the diagram does not show); the lost state is never left.\<close>

theorem port_follows_state_diagram:
  assumes "xport_step hz C F s t"
  shows "allowed_edge (rp_state (xp_rport s)) (rp_state (xp_rport t)) \<and>
    (rp_state (xp_rport s) = SRP_RPORT_LOST \<longrightarrow> rp_state (xp_rport t) = SRP_RPORT_LOST)"
proof -
  have "allowed_edge (rp_state (xp_rport s)) (rp_state (xp_rport t))"
    using assms by (rule xport_step.cases) (simp_all add: allowed_edge_op)
  then show ?thesis by (auto simp: allowed_edge_def elim: documented_edge.elims)
qed

theorem port_follows_state_diagram_witness:
  "allowed_edge SRP_RPORT_RUNNING SRP_RPORT_BLOCKED \<and>
   xport_step 250 example_core example_template (example_port 0)
     (srp_start_tl_fail_timers 250 example_core (example_port 0))"
proof -
  have st: "xport_step 250 example_core example_template (example_port 0)
     (srp_start_tl_fail_timers 250 example_core (example_port 0))"
    by (rule xport_step.operation [OF xport_op.tl_error])
  have "rp_state (xp_rport (example_port 0)) = SRP_RPORT_RUNNING" by (simp add: example_defs)
  then show ?thesis using st port_follows_state_diagram [OF st] by (simp add: example_blocked)
qed





text \<open>C36. The device loss handler does not look at the port state: if it is already executing
  when a reconnect succeeds, cancelling its timer does not stop it, and the port that has just
  been reconnected is marked lost and handed to \<^verbatim>\<open>rport_delete()\<close>.\<close>

theorem dev_loss_after_reconnect:
  assumes "dw_running (dev_loss_work (xp_rport s))"
    and "srp_reconnect_rport hz C F 0 s = (0, t)"
    and "f_rport_delete F = Some del"
  shows "rp_state (xp_rport t) = SRP_RPORT_RUNNING \<and> dw_running (dev_loss_work (xp_rport t)) \<and>
    rp_state (xp_rport (rport_dev_loss_timedout C F t)) = SRP_RPORT_LOST \<and>
    xp_lld (rport_dev_loss_timedout C F t) = del (xp_lld t)"
  by (rule reconnect_rport_cases [of 0 hz C F s])
     (use assms in \<open>auto simp: rport_reconnect_succeeded rport_dev_loss_timedout_rport
        cancel_delayed_work_def rport_dev_loss_timedout_def\<close>)

theorem dev_loss_after_reconnect_witness:
  "\<exists>s t. dw_running (dev_loss_work (xp_rport s)) \<and>
     srp_reconnect_rport 250 example_core example_template 0 s = (0, t) \<and>
     rp_state (xp_rport t) = SRP_RPORT_RUNNING \<and>
     rp_state (xp_rport (rport_dev_loss_timedout example_core example_template t)) = SRP_RPORT_LOST"
proof -
  let ?s = "upd_rport (\<lambda>r. r\<lparr>rp_state := SRP_RPORT_BLOCKED,
      dev_loss_work := start_work (dev_loss_work r)\<rparr>) (example_port 0)"
  have run: "dw_running (dev_loss_work (xp_rport ?s))"
    by (simp add: start_work_def)
  have "fst (srp_reconnect_rport 250 example_core example_template 0 ?s) = 0"
    by (simp add: srp_reconnect_rport_def srp_reconnect_call_def Let_def)
       (simp add: example_defs srp_reconnect_quiesce_def srp_wait_for_queuecommand_def)
  then obtain t where t: "srp_reconnect_rport 250 example_core example_template 0 ?s = (0, t)"
    by (metis prod.collapse)
  have d: "f_rport_delete example_template = Some (\<lambda>l. l)"
    by (simp add: example_template_def)
  show ?thesis using run t dev_loss_after_reconnect [OF run t d] by blast
qed

lemma uint_ulong_jiffies:
  assumes "0 \<le> x" "0 \<le> hz" "x * hz < 2 ^ 64"
  shows "uint (ulong_jiffies hz x) = x * hz"
proof -
  have "ulong_jiffies hz x = word_of_int (x * hz)" by (simp add: ulong_jiffies_def)
  with assms show ?thesis by (simp add: uint_word_of_int del: of_int_mult)
qed






lemma take3_dec: "take 3 (dec_of_nat n @ ys) \<noteq> ''off''"
proof
  assume "take 3 (dec_of_nat n @ ys) = ''off''"
  then have "hd (dec_of_nat n) = CHR ''o''"
    by (cases "dec_of_nat n") auto
  then show False using hd_dec_of_nat_digit [of n] by (simp add: digit_val_def)
qed

text \<open>C30. What the timeout attributes show can be written back: parsing the printed value
  gives the same timeout, and any disabled (negative) timeout reads back as \<open>-1\<close>.\<close>

theorem tmo_show_parse_roundtrip:
  assumes "int_range t"
  shows "srp_parse_tmo (srp_show_tmo t) = Inr (if 0 \<le> t then t else - 1)"
proof (cases "0 \<le> t")
  case True
  then have "take 3 (srp_show_tmo t) \<noteq> ''off''"
    unfolding srp_show_tmo_def dec_of_int_def by (simp add: take3_dec del: take_append)
  with True assms show ?thesis by (simp add: srp_parse_tmo_def srp_show_tmo_def kstrtoint0_dec)
next
  case False
  then show ?thesis by (simp add: srp_parse_tmo_def srp_show_tmo_def)
qed

theorem tmo_show_parse_roundtrip_witness:
  "srp_parse_tmo (srp_show_tmo 600) = Inr 600 \<and> srp_parse_tmo (srp_show_tmo (- 7)) = Inr (- 1)"
  using tmo_show_parse_roundtrip [of 600] tmo_show_parse_roundtrip [of "- 7"]
  by (simp add: int_range_def)

text \<open>C39. The attribute array of the transport template never overflows: with the terminating
  NULL it has at most \<^verbatim>\<open>SRP_RPORT_ATTRS\<close> + 1 entries, so \<^verbatim>\<open>BUG_ON(count > ARRAY_SIZE(..))\<close> cannot
  fire, and each attribute occurs once.\<close>

theorem rport_attrs_fit:
  "length (srp_attach_transport ft) \<le> SRP_RPORT_ATTRS + 1 \<and>
   last (srp_attach_transport ft) = None \<and> distinct (srp_attach_transport ft)"
  by (auto simp: srp_attach_transport_def SRP_RPORT_ATTRS_def)

lemma srp_transport_init_unwinds:
  "srp_host_class \<notin> set reg \<Longrightarrow> fst (srp_transport_init res reg) \<noteq> 0 \<Longrightarrow>
   snd (srp_transport_init res reg) = reg"
  by (auto simp: srp_transport_init_def Let_def split: if_splits)

lemma srp_transport_exit_init:
  "set reg \<inter> {srp_host_class, srp_rport_class} = {} \<Longrightarrow> fst (srp_transport_init res reg) = 0 \<Longrightarrow>
   srp_transport_exit (snd (srp_transport_init res reg)) = reg"
  by (auto simp: srp_transport_init_def srp_transport_exit_def Let_def split: if_splits)

end
