(* ===== verification/SRP_Protocol.thy ===== *)
theory SRP_Protocol
  imports SRP_Prelude
begin

text \<open>
  The SRP wire protocol as the initiator sees it: the constants and message structures of
  \<^verbatim>\<open>src/include/scsi/srp.h\<close> and the constants and tag helpers of
  \<^verbatim>\<open>src/drivers/infiniband/ulp/srp/ib_srp.h\<close>.

  A message structure is a record whose members have the C types (\<open>be32\<close> for
  \<^verbatim>\<open>__be32\<close>, and so on). Reserved members are left out: the initiator clears them with
  \<^verbatim>\<open>memset()\<close> before it sends a message and never reads them. \<open>enc_\<close> functions give the bytes of
  a structure in memory, \<open>dec_\<close> functions read a structure from a buffer; the members that
  are not declared big-endian (the 64-bit tags) are in the byte order of the CPU, which is
  little-endian here.
\<close>

section \<open>Constants\<close>

definition SRP_LOGIN_REQ :: u8 where "SRP_LOGIN_REQ = 0x00"
definition SRP_TSK_MGMT :: u8 where "SRP_TSK_MGMT = 0x01"
definition SRP_CMD :: u8 where "SRP_CMD = 0x02"
definition SRP_I_LOGOUT :: u8 where "SRP_I_LOGOUT = 0x03"
definition SRP_LOGIN_RSP :: u8 where "SRP_LOGIN_RSP = 0xc0"
definition SRP_RSP :: u8 where "SRP_RSP = 0xc1"
definition SRP_LOGIN_REJ :: u8 where "SRP_LOGIN_REJ = 0xc2"
definition SRP_T_LOGOUT :: u8 where "SRP_T_LOGOUT = 0x80"
definition SRP_CRED_REQ :: u8 where "SRP_CRED_REQ = 0x81"
definition SRP_AER_REQ :: u8 where "SRP_AER_REQ = 0x82"
definition SRP_CRED_RSP :: u8 where "SRP_CRED_RSP = 0x41"
definition SRP_AER_RSP :: u8 where "SRP_AER_RSP = 0x42"

lemmas srp_opcode_defs = SRP_LOGIN_REQ_def SRP_TSK_MGMT_def SRP_CMD_def SRP_I_LOGOUT_def
  SRP_LOGIN_RSP_def SRP_RSP_def SRP_LOGIN_REJ_def SRP_T_LOGOUT_def SRP_CRED_REQ_def
  SRP_AER_REQ_def SRP_CRED_RSP_def SRP_AER_RSP_def

definition SRP_BUF_FORMAT_DIRECT :: u16 where "SRP_BUF_FORMAT_DIRECT = push_bit 1 1"
definition SRP_BUF_FORMAT_INDIRECT :: u16 where "SRP_BUF_FORMAT_INDIRECT = push_bit 2 1"
definition SRP_BUF_FORMAT_IMM :: u16 where "SRP_BUF_FORMAT_IMM = push_bit 3 1"

definition SRP_NO_DATA_DESC :: u8 where "SRP_NO_DATA_DESC = 0"
definition SRP_DATA_DESC_DIRECT :: u8 where "SRP_DATA_DESC_DIRECT = 1"
definition SRP_DATA_DESC_INDIRECT :: u8 where "SRP_DATA_DESC_INDIRECT = 2"
definition SRP_DATA_DESC_IMM :: u8 where "SRP_DATA_DESC_IMM = 3"

lemmas srp_data_desc_defs = SRP_NO_DATA_DESC_def SRP_DATA_DESC_DIRECT_def
  SRP_DATA_DESC_INDIRECT_def SRP_DATA_DESC_IMM_def

definition SRP_TSK_ABORT_TASK :: u8 where "SRP_TSK_ABORT_TASK = 0x01"
definition SRP_TSK_LUN_RESET :: u8 where "SRP_TSK_LUN_RESET = 0x08"

definition SRP_LOGIN_REJ_UNABLE_ESTABLISH_CHANNEL :: u32 where
  "SRP_LOGIN_REJ_UNABLE_ESTABLISH_CHANNEL = 0x00010000"
definition SRP_LOGIN_REJ_REQ_IT_IU_LENGTH_TOO_LARGE :: u32 where
  "SRP_LOGIN_REJ_REQ_IT_IU_LENGTH_TOO_LARGE = 0x00010002"

definition SRP_REV10_IB_IO_CLASS :: u16 where "SRP_REV10_IB_IO_CLASS = 0xff00"
definition SRP_REV16A_IB_IO_CLASS :: u16 where "SRP_REV16A_IB_IO_CLASS = 0x0100"

definition SRP_MULTICHAN_SINGLE :: u8 where "SRP_MULTICHAN_SINGLE = 0"
definition SRP_MULTICHAN_MULTI :: u8 where "SRP_MULTICHAN_MULTI = 1"

definition SRP_RSP_FLAG_RSPVALID :: u8 where "SRP_RSP_FLAG_RSPVALID = push_bit 0 1"
definition SRP_RSP_FLAG_SNSVALID :: u8 where "SRP_RSP_FLAG_SNSVALID = push_bit 1 1"
definition SRP_RSP_FLAG_DOOVER :: u8 where "SRP_RSP_FLAG_DOOVER = push_bit 2 1"
definition SRP_RSP_FLAG_DOUNDER :: u8 where "SRP_RSP_FLAG_DOUNDER = push_bit 3 1"
definition SRP_RSP_FLAG_DIOVER :: u8 where "SRP_RSP_FLAG_DIOVER = push_bit 4 1"
definition SRP_RSP_FLAG_DIUNDER :: u8 where "SRP_RSP_FLAG_DIUNDER = push_bit 5 1"

lemmas srp_rsp_flag_defs = SRP_RSP_FLAG_RSPVALID_def SRP_RSP_FLAG_SNSVALID_def
  SRP_RSP_FLAG_DOOVER_def SRP_RSP_FLAG_DOUNDER_def SRP_RSP_FLAG_DIOVER_def
  SRP_RSP_FLAG_DIUNDER_def

definition SRP_PATH_REC_TIMEOUT_MS :: nat where "SRP_PATH_REC_TIMEOUT_MS = 1000"
definition SRP_ABORT_TIMEOUT_MS :: nat where "SRP_ABORT_TIMEOUT_MS = 5000"
definition SRP_PORT_REDIRECT :: int where "SRP_PORT_REDIRECT = 1"
definition SRP_DLID_REDIRECT :: int where "SRP_DLID_REDIRECT = 2"
definition SRP_STALE_CONN :: int where "SRP_STALE_CONN = 3"

lemmas srp_status_defs = SRP_PORT_REDIRECT_def SRP_DLID_REDIRECT_def SRP_STALE_CONN_def

definition SRP_DEF_SG_TABLESIZE :: int where "SRP_DEF_SG_TABLESIZE = 12"
definition SRP_DEFAULT_QUEUE_SIZE :: int where "SRP_DEFAULT_QUEUE_SIZE = 64"
definition SRP_RSP_SQ_SIZE :: int where "SRP_RSP_SQ_SIZE = 1"
definition SRP_TSK_MGMT_SQ_SIZE :: int where "SRP_TSK_MGMT_SQ_SIZE = 1"
definition SRP_DEFAULT_CMD_SQ_SIZE :: int where
  "SRP_DEFAULT_CMD_SQ_SIZE = SRP_DEFAULT_QUEUE_SIZE - SRP_RSP_SQ_SIZE - SRP_TSK_MGMT_SQ_SIZE"

lemmas srp_queue_size_defs = SRP_DEFAULT_QUEUE_SIZE_def SRP_RSP_SQ_SIZE_def
  SRP_TSK_MGMT_SQ_SIZE_def SRP_DEFAULT_CMD_SQ_SIZE_def

definition SRP_TAG_NO_REQ :: u32 where "SRP_TAG_NO_REQ = 0xffffffff"
definition SRP_TAG_TSK_MGMT :: u32 where "SRP_TAG_TSK_MGMT = push_bit 31 1"
definition SRP_MAX_PAGES_PER_MR :: int where "SRP_MAX_PAGES_PER_MR = 512"
definition LOCAL_INV_WR_ID_MASK :: u64 where "LOCAL_INV_WR_ID_MASK = 1"
definition FAST_REG_WR_ID_MASK :: u64 where "FAST_REG_WR_ID_MASK = 2"
definition SRP_LAST_WR_ID :: u64 where "SRP_LAST_WR_ID = 0xfffffffc"
definition SRP_MAX_IMM_SGE :: nat where "SRP_MAX_IMM_SGE = 2"
definition SRP_IMM_DATA_OUT_OFFSET :: nat where "SRP_IMM_DATA_OUT_OFFSET = 80"

datatype srp_target_state = SRP_TARGET_SCANNING | SRP_TARGET_LIVE | SRP_TARGET_REMOVED

datatype srp_iu_type = SRP_IU_CMD | SRP_IU_TSK_MGMT | SRP_IU_RSP

section \<open>Tags\<close>

definition build_srp_tag :: "u16 \<Rightarrow> u16 \<Rightarrow> u32" where
  "build_srp_tag ch req_idx = push_bit 16 (ucast ch) OR ucast req_idx"

definition srp_tag_ch :: "u32 \<Rightarrow> u16" where
  "srp_tag_ch tag = ucast (drop_bit 16 tag)"

definition srp_tag_idx :: "u32 \<Rightarrow> u16" where
  "srp_tag_idx tag = ucast (tag AND (push_bit 16 1 - 1))"

lemma srp_tag_mask: "(push_bit 16 1 - 1 :: u32) = mask 16"
  by (simp add: mask_eq_exp_minus_1 push_bit_eq_mult)

lemma srp_tag_ch_build [simp]: "srp_tag_ch (build_srp_tag c i) = c"
  by (rule bit_word_eqI)
     (auto simp: srp_tag_ch_def build_srp_tag_def bit_simps dest: bit_imp_le_length)

lemma srp_tag_idx_build [simp]: "srp_tag_idx (build_srp_tag c i) = i"
  unfolding srp_tag_idx_def srp_tag_mask
  by (rule bit_word_eqI) (auto simp: build_srp_tag_def bit_simps)

lemma build_srp_tag_inj: "build_srp_tag c i = build_srp_tag d j \<longleftrightarrow> c = d \<and> i = j"
  by (metis srp_tag_ch_build srp_tag_idx_build)

lemma bit_srp_tag_tsk_mgmt [simp]: "bit SRP_TAG_TSK_MGMT n \<longleftrightarrow> n = 31"
  unfolding SRP_TAG_TSK_MGMT_def bit_push_bit_iff by (auto simp del: push_bit_numeral)

text \<open>The test of bit 31 in \<^verbatim>\<open>srp_process_rsp()\<close>, on the 64-bit tag of the response.\<close>

lemma tag_and_tsk_mgmt:
  fixes t :: u64
  shows "t AND ucast SRP_TAG_TSK_MGMT \<noteq> 0 \<longleftrightarrow> bit t 31"
proof -
  have "bit (t AND ucast SRP_TAG_TSK_MGMT) n \<longleftrightarrow> n = 31 \<and> bit t 31" for n
    by (auto simp: bit_simps)
  then show ?thesis by (metis bit_0_eq bit_eq_iff bot_apply bot_bool_def)
qed

lemma bit31_command_tag:
  "bit (ucast (build_srp_tag c i) :: u64) 31 \<longleftrightarrow> bit c 15"
  by (auto simp: build_srp_tag_def bit_simps dest: bit_imp_le_length)

lemma bit15_small: "uint c < 2 ^ 15 \<Longrightarrow> \<not> bit (c :: u16) 15"
proof -
  assume "uint c < 2 ^ 15"
  then have "take_bit 15 (uint c) = uint c" by (simp add: take_bit_int_eq_self_iff)
  then have "\<not> bit (uint c) 15" by (metis bit_take_bit_iff less_irrefl)
  then show ?thesis by (simp add: bit_uint_iff)
qed

section \<open>Structures in memory\<close>

text \<open>\<open>field off n b\<close> are the \<open>n\<close> bytes at offset \<open>off\<close> of a buffer; \<open>zeros n\<close> is what
  \<^verbatim>\<open>memset()\<close> leaves in a reserved member.\<close>

definition field :: "nat \<Rightarrow> nat \<Rightarrow> u8 list \<Rightarrow> u8 list" where
  "field off n b = take n (drop off b)"

definition zeros :: "nat \<Rightarrow> u8 list" where
  "zeros n = replicate n 0"

definition write_bytes :: "nat \<Rightarrow> u8 list \<Rightarrow> u8 list \<Rightarrow> u8 list" where
  "write_bytes off bs b = take off b @ bs @ drop (off + length bs) b"

definition native64 :: "u64 \<Rightarrow> u8 list" where
  "native64 x = rev (cpu_to_be64 x)"

definition native64_to_cpu :: "u8 list \<Rightarrow> u64" where
  "native64_to_cpu b = be64_to_cpu (rev b)"

lemma length_native64 [simp, wire_len]: "length (native64 x) = 8"
  by (simp add: native64_def)

lemma native64_roundtrip [simp, wire_simps]: "native64_to_cpu (native64 x) = x"
  by (simp add: native64_def native64_to_cpu_def)

lemma length_zeros [simp, wire_len]: "length (zeros n) = n"
  by (simp add: zeros_def)

lemma field_skip [wire_simps]:
  "length xs \<le> off \<Longrightarrow> field off n (xs @ ys) = field (off - length xs) n ys"
  by (simp add: field_def)

lemma field_here [wire_simps]: "length xs = n \<Longrightarrow> field 0 n (xs @ ys) = xs"
  by (simp add: field_def)

lemma field_last [wire_simps]: "length xs = n \<Longrightarrow> field 0 n xs = xs"
  by (simp add: field_def)

lemma field_one [wire_simps]: "field 0 (Suc 0) (x # ys) = [x]"
  by (simp add: field_def)

lemma field_cons [wire_simps]: "0 < off \<Longrightarrow> field off n (x # ys) = field (off - 1) n ys"
  by (cases off) (simp_all add: field_def)

lemma length_write_bytes [simp]:
  "off + length bs \<le> length b \<Longrightarrow> length (write_bytes off bs b) = length b"
  by (simp add: write_bytes_def)

record srp_direct_buf =
  db_va :: be64
  db_key :: be32
  db_len :: be32

definition enc_direct_buf :: "srp_direct_buf \<Rightarrow> u8 list" where
  "enc_direct_buf d = db_va d @ db_key d @ db_len d"

definition dec_direct_buf :: "u8 list \<Rightarrow> srp_direct_buf" where
  "dec_direct_buf b = \<lparr>db_va = field 0 8 b, db_key = field 8 4 b, db_len = field 12 4 b\<rparr>"

definition wf_direct_buf :: "srp_direct_buf \<Rightarrow> bool" where
  "wf_direct_buf d \<longleftrightarrow> length (db_va d) = 8 \<and> length (db_key d) = 4 \<and> length (db_len d) = 4"

lemma length_enc_direct_buf: "wf_direct_buf d \<Longrightarrow> length (enc_direct_buf d) = 16"
  by (simp add: wf_direct_buf_def enc_direct_buf_def)

lemma dec_enc_direct_buf: "wf_direct_buf d \<Longrightarrow> dec_direct_buf (enc_direct_buf d @ r) = d"
  by (simp add: wf_direct_buf_def enc_direct_buf_def dec_direct_buf_def wire_simps)

text \<open>\<^verbatim>\<open>struct srp_indirect_buf\<close>: the descriptor of the table followed by the total length and a
  part of the table.\<close>

record srp_indirect_buf =
  ib_table_desc :: srp_direct_buf
  ib_len :: be32
  ib_desc_list :: "srp_direct_buf list"

definition enc_indirect_buf :: "srp_indirect_buf \<Rightarrow> u8 list" where
  "enc_indirect_buf i =
     enc_direct_buf (ib_table_desc i) @ ib_len i @ concat (map enc_direct_buf (ib_desc_list i))"

fun dec_direct_bufs :: "nat \<Rightarrow> u8 list \<Rightarrow> srp_direct_buf list" where
  "dec_direct_bufs 0 b = []"
| "dec_direct_bufs (Suc n) b = dec_direct_buf b # dec_direct_bufs n (drop 16 b)"

definition dec_indirect_buf :: "nat \<Rightarrow> u8 list \<Rightarrow> srp_indirect_buf" where
  "dec_indirect_buf n b = \<lparr>ib_table_desc = dec_direct_buf b, ib_len = field 16 4 b,
     ib_desc_list = dec_direct_bufs n (drop 20 b)\<rparr>"

definition wf_indirect_buf :: "srp_indirect_buf \<Rightarrow> bool" where
  "wf_indirect_buf i \<longleftrightarrow> wf_direct_buf (ib_table_desc i) \<and> length (ib_len i) = 4 \<and>
     list_all wf_direct_buf (ib_desc_list i)"

lemma length_enc_direct_bufs:
  "list_all wf_direct_buf ds \<Longrightarrow> length (concat (map enc_direct_buf ds)) = 16 * length ds"
  by (induction ds) (simp_all add: length_enc_direct_buf)

lemma length_enc_indirect_buf:
  "wf_indirect_buf i \<Longrightarrow> length (enc_indirect_buf i) = 20 + 16 * length (ib_desc_list i)"
  by (simp add: wf_indirect_buf_def enc_indirect_buf_def length_enc_direct_buf
      length_enc_direct_bufs del: length_concat)

lemma dec_enc_direct_bufs:
  "list_all wf_direct_buf ds \<Longrightarrow>
   dec_direct_bufs (length ds) (concat (map enc_direct_buf ds) @ r) = ds"
  by (induction ds) (simp_all add: dec_enc_direct_buf length_enc_direct_buf)

lemma dec_enc_indirect_buf:
  assumes "wf_indirect_buf i"
  shows "dec_indirect_buf (length (ib_desc_list i)) (enc_indirect_buf i @ r) = i"
proof -
  have l: "length (enc_direct_buf (ib_table_desc i)) = 16" "length (ib_len i) = 4"
    using assms by (simp_all add: wf_indirect_buf_def length_enc_direct_buf)
  show ?thesis using assms l
    by (simp add: wf_indirect_buf_def enc_indirect_buf_def dec_indirect_buf_def
        dec_enc_direct_buf dec_enc_direct_bufs wire_simps)
qed

record srp_imm_buf =
  imm_len :: be32
  imm_offset :: be32

definition enc_imm_buf :: "srp_imm_buf \<Rightarrow> u8 list" where
  "enc_imm_buf i = imm_len i @ imm_offset i"

section \<open>Login\<close>

record srp_login_req =
  lreq_opcode :: u8
  lreq_tag :: u64
  lreq_req_it_iu_len :: be32
  lreq_req_buf_fmt :: be16
  lreq_req_flags :: u8
  lreq_initiator_port_id :: "u8 list"
  lreq_target_port_id :: "u8 list"

definition enc_login_req :: "srp_login_req \<Rightarrow> u8 list" where
  "enc_login_req r = [lreq_opcode r] @ zeros 7 @ native64 (lreq_tag r) @ lreq_req_it_iu_len r @
     zeros 4 @ lreq_req_buf_fmt r @ [lreq_req_flags r] @ zeros 5 @
     lreq_initiator_port_id r @ lreq_target_port_id r"

definition dec_login_req :: "u8 list \<Rightarrow> srp_login_req" where
  "dec_login_req b = \<lparr>lreq_opcode = b ! 0, lreq_tag = native64_to_cpu (field 8 8 b),
     lreq_req_it_iu_len = field 16 4 b, lreq_req_buf_fmt = field 24 2 b, lreq_req_flags = b ! 26,
     lreq_initiator_port_id = field 32 16 b, lreq_target_port_id = field 48 16 b\<rparr>"

record srp_login_req_rdma =
  rreq_tag :: u64
  rreq_req_buf_fmt :: be16
  rreq_req_flags :: u8
  rreq_opcode :: u8
  rreq_req_it_iu_len :: be32
  rreq_initiator_port_id :: "u8 list"
  rreq_target_port_id :: "u8 list"

definition enc_login_req_rdma :: "srp_login_req_rdma \<Rightarrow> u8 list" where
  "enc_login_req_rdma r = native64 (rreq_tag r) @ rreq_req_buf_fmt r @
     [rreq_req_flags r, rreq_opcode r] @ rreq_req_it_iu_len r @
     rreq_initiator_port_id r @ rreq_target_port_id r"

definition wf_login_req :: "srp_login_req \<Rightarrow> bool" where
  "wf_login_req r \<longleftrightarrow> length (lreq_req_it_iu_len r) = 4 \<and> length (lreq_req_buf_fmt r) = 2 \<and>
     length (lreq_initiator_port_id r) = 16 \<and> length (lreq_target_port_id r) = 16"

lemma length_enc_login_req: "wf_login_req r \<Longrightarrow> length (enc_login_req r) = 64"
  by (simp add: wf_login_req_def enc_login_req_def)

lemma zeros_Suc [simp]: "zeros (Suc n) = 0 # zeros n" "zeros 0 = []"
  by (simp_all add: zeros_def)

lemma nth_skip [wire_simps]: "length xs \<le> off \<Longrightarrow> (xs @ ys) ! off = ys ! (off - length xs)"
  by (simp add: nth_append)

lemma dec_enc_login_req: "wf_login_req r \<Longrightarrow> dec_login_req (enc_login_req r) = r"
  by (simp add: wf_login_req_def enc_login_req_def dec_login_req_def wire_simps nth_Cons')

record srp_login_rsp =
  lrsp_opcode :: u8
  lrsp_req_lim_delta :: be32
  lrsp_tag :: u64
  lrsp_max_it_iu_len :: be32
  lrsp_max_ti_iu_len :: be32
  lrsp_buf_fmt :: be16
  lrsp_rsp_flags :: u8

definition dec_login_rsp :: "u8 list \<Rightarrow> srp_login_rsp" where
  "dec_login_rsp b = \<lparr>lrsp_opcode = b ! 0, lrsp_req_lim_delta = field 4 4 b,
     lrsp_tag = native64_to_cpu (field 8 8 b), lrsp_max_it_iu_len = field 16 4 b,
     lrsp_max_ti_iu_len = field 20 4 b, lrsp_buf_fmt = field 24 2 b, lrsp_rsp_flags = b ! 26\<rparr>"

record srp_login_rej =
  lrej_opcode :: u8
  lrej_reason :: be32
  lrej_tag :: u64
  lrej_buf_fmt :: be16

definition dec_login_rej :: "u8 list \<Rightarrow> srp_login_rej" where
  "dec_login_rej b = \<lparr>lrej_opcode = b ! 0, lrej_reason = field 4 4 b,
     lrej_tag = native64_to_cpu (field 8 8 b), lrej_buf_fmt = field 24 2 b\<rparr>"

section \<open>Commands, task management and responses\<close>

record srp_tsk_mgmt =
  tm_opcode :: u8
  tm_tag :: u64
  tm_lun :: "u8 list"
  tm_tsk_mgmt_func :: u8
  tm_task_tag :: u64

definition enc_tsk_mgmt :: "srp_tsk_mgmt \<Rightarrow> u8 list" where
  "enc_tsk_mgmt t = [tm_opcode t] @ zeros 7 @ native64 (tm_tag t) @ zeros 4 @ tm_lun t @
     zeros 2 @ [tm_tsk_mgmt_func t] @ zeros 1 @ native64 (tm_task_tag t) @ zeros 8"

record srp_cmd =
  cmd_opcode :: u8
  cmd_buf_fmt :: u8
  cmd_data_out_desc_cnt :: u8
  cmd_data_in_desc_cnt :: u8
  cmd_tag :: u64
  cmd_lun :: "u8 list"
  cmd_cdb :: "u8 list"

definition enc_srp_cmd :: "srp_cmd \<Rightarrow> u8 list" where
  "enc_srp_cmd c = [cmd_opcode c] @ zeros 4 @
     [cmd_buf_fmt c, cmd_data_out_desc_cnt c, cmd_data_in_desc_cnt c] @
     native64 (cmd_tag c) @ zeros 4 @ cmd_lun c @ zeros 4 @ cmd_cdb c"

definition dec_srp_cmd :: "u8 list \<Rightarrow> srp_cmd" where
  "dec_srp_cmd b = \<lparr>cmd_opcode = b ! 0, cmd_buf_fmt = b ! 5, cmd_data_out_desc_cnt = b ! 6,
     cmd_data_in_desc_cnt = b ! 7, cmd_tag = native64_to_cpu (field 8 8 b), cmd_lun = field 20 8 b,
     cmd_cdb = field 32 16 b\<rparr>"

definition wf_srp_cmd :: "srp_cmd \<Rightarrow> bool" where
  "wf_srp_cmd c \<longleftrightarrow> length (cmd_lun c) = 8 \<and> length (cmd_cdb c) = 16"

lemma length_enc_srp_cmd: "wf_srp_cmd c \<Longrightarrow> length (enc_srp_cmd c) = 48"
  by (simp add: wf_srp_cmd_def enc_srp_cmd_def)

lemma dec_enc_srp_cmd: "wf_srp_cmd c \<Longrightarrow> dec_srp_cmd (enc_srp_cmd c @ r) = c"
  by (simp add: wf_srp_cmd_def enc_srp_cmd_def dec_srp_cmd_def wire_simps nth_Cons' numeral_eq_Suc)

text \<open>\<^verbatim>\<open>struct srp_rsp\<close>, with the flexible array \<^verbatim>\<open>data[]\<close> as the rest of the buffer.\<close>

record srp_rsp =
  rsp_opcode :: u8
  rsp_req_lim_delta :: be32
  rsp_tag :: u64
  rsp_flags :: u8
  rsp_status :: u8
  rsp_data_out_res_cnt :: be32
  rsp_data_in_res_cnt :: be32
  rsp_sense_data_len :: be32
  rsp_resp_data_len :: be32
  rsp_data :: "u8 list"

definition dec_srp_rsp :: "u8 list \<Rightarrow> srp_rsp" where
  "dec_srp_rsp b = \<lparr>rsp_opcode = b ! 0, rsp_req_lim_delta = field 4 4 b,
     rsp_tag = native64_to_cpu (field 8 8 b), rsp_flags = b ! 18, rsp_status = b ! 19,
     rsp_data_out_res_cnt = field 20 4 b, rsp_data_in_res_cnt = field 24 4 b,
     rsp_sense_data_len = field 28 4 b, rsp_resp_data_len = field 32 4 b, rsp_data = drop 36 b\<rparr>"

definition enc_srp_rsp :: "srp_rsp \<Rightarrow> u8 list" where
  "enc_srp_rsp r = [rsp_opcode r] @ zeros 3 @ rsp_req_lim_delta r @ native64 (rsp_tag r) @ zeros 2 @
     [rsp_flags r, rsp_status r] @ rsp_data_out_res_cnt r @ rsp_data_in_res_cnt r @
     rsp_sense_data_len r @ rsp_resp_data_len r @ rsp_data r"

definition wf_srp_rsp :: "srp_rsp \<Rightarrow> bool" where
  "wf_srp_rsp r \<longleftrightarrow> length (rsp_req_lim_delta r) = 4 \<and> length (rsp_data_out_res_cnt r) = 4 \<and>
     length (rsp_data_in_res_cnt r) = 4 \<and> length (rsp_sense_data_len r) = 4 \<and>
     length (rsp_resp_data_len r) = 4"

lemma dec_enc_srp_rsp: "wf_srp_rsp r \<Longrightarrow> dec_srp_rsp (enc_srp_rsp r) = r"
  by (simp add: wf_srp_rsp_def enc_srp_rsp_def dec_srp_rsp_def wire_simps nth_Cons' numeral_eq_Suc)

record srp_cred_req =
  creq_req_lim_delta :: be32
  creq_tag :: u64

definition dec_cred_req :: "u8 list \<Rightarrow> srp_cred_req" where
  "dec_cred_req b = \<lparr>creq_req_lim_delta = field 4 4 b, creq_tag = native64_to_cpu (field 8 8 b)\<rparr>"

record srp_cred_rsp =
  crsp_opcode :: u8
  crsp_tag :: u64

text \<open>\<^verbatim>\<open>struct srp_cred_rsp\<close> and \<^verbatim>\<open>struct srp_aer_rsp\<close> have the same layout.\<close>

definition enc_cred_rsp :: "srp_cred_rsp \<Rightarrow> u8 list" where
  "enc_cred_rsp r = [crsp_opcode r] @ zeros 7 @ native64 (crsp_tag r)"

record srp_aer_req =
  areq_req_lim_delta :: be32
  areq_tag :: u64
  areq_lun :: "u8 list"

definition dec_aer_req :: "u8 list \<Rightarrow> srp_aer_req" where
  "dec_aer_req b = \<lparr>areq_req_lim_delta = field 4 4 b, areq_tag = native64_to_cpu (field 8 8 b),
     areq_lun = field 20 8 b\<rparr>"

end
