(* ===== verification/SRP_Verbs.thy ===== *)
theory SRP_Verbs
  imports SRP_Protocol "HOL-Library.Multiset"
begin

text \<open>
  The boundary between the driver and the code it calls: the RDMA core, the HCA driver and the
  kernel's allocators. That code is a parameter. A record \<open>'e verbs\<close> holds one function for
  each call, acting on an environment state of an arbitrary type \<open>'e\<close>; what a call returns
  may depend on everything that happened before.

  Around that parameter the model keeps a log of the calls the driver made and what they returned
  (\<open>hw_log\<close>). Two views of the log are used in the properties: \<open>live\<close>, the multiset of
  resources that have been allocated and not yet released, and \<open>mr_table\<close>, the address
  translation of the HCA, which is built up by the registrations and invalidations
  the driver has posted successfully.
\<close>

section \<open>Data exchanged with the HCA\<close>

record dma_sg =
  sg_addr :: u64
  sg_len :: u32

record ib_sge =
  sge_addr :: u64
  sge_length :: u32
  sge_lkey :: u32

datatype send_wr =
    WR_SEND u64 "ib_sge list"
  | WR_LOCAL_INV u64 u32
  | WR_FAST_REG_MR u64 u64 "u64 list" nat u32 u32

record ib_mr =
  mr_handle :: nat
  mr_lkey :: u32
  mr_rkey :: u32

record ib_pool_fmr =
  fmr_handle :: nat
  fmr_rkey :: u32

datatype dma_dir = DMA_BIDIRECTIONAL | DMA_TO_DEVICE | DMA_FROM_DEVICE | DMA_NONE

text \<open>A work completion; \<open>wc_data\<close> is what the HCA has written into the receive buffer.\<close>

record ib_wc =
  wc_wr_id :: u64
  wc_success :: bool
  wc_data :: "u8 list"

text \<open>The members of \<^verbatim>\<open>struct ib_sa_path_rec\<close> that the driver reads or writes.\<close>

record ib_sa_path_rec =
  path_sgid :: "u8 list"
  path_dgid :: "u8 list"
  path_pkey :: be16
  path_service_id :: be64
  path_dlid :: be16
  path_numb_path :: u8

text \<open>The connection parameters that are common to \<^verbatim>\<open>struct ib_cm_req_param\<close> and \<^verbatim>\<open>struct rdma_conn_param\<close>.\<close>

record conn_param =
  cp_flow_control :: u8
  cp_retry_count :: u8
  cp_responder_resources :: u8
  cp_rnr_retry_count :: u8

datatype ib_qp_state = IB_QPS_INIT | IB_QPS_RTR | IB_QPS_RTS | IB_QPS_ERR

section \<open>Calls from the RDMA core into the driver\<close>

text \<open>The events the driver distinguishes; a rejection carries its reason, the additional rejection
  information and the private data, a reply its private data.\<close>

datatype ib_cm_event =
    IB_CM_REQ_ERROR
  | IB_CM_REP_RECEIVED "u8 list"
  | IB_CM_REJ_RECEIVED nat "u8 list" "u8 list"
  | IB_CM_DREQ_RECEIVED
  | IB_CM_TIMEWAIT_EXIT
  | IB_CM_MRA_RECEIVED
  | IB_CM_DREQ_ERROR
  | IB_CM_DREP_RECEIVED
  | IB_CM_other_event nat

datatype rdma_cm_event =
    RDMA_CM_EVENT_ADDR_RESOLVED
  | RDMA_CM_EVENT_ADDR_ERROR
  | RDMA_CM_EVENT_ROUTE_RESOLVED
  | RDMA_CM_EVENT_ROUTE_ERROR
  | RDMA_CM_EVENT_UNREACHABLE
  | RDMA_CM_EVENT_CONNECT_ERROR
  | RDMA_CM_EVENT_ESTABLISHED "u8 list"
  | RDMA_CM_EVENT_REJECTED int "u8 list"
  | RDMA_CM_EVENT_DISCONNECTED
  | RDMA_CM_EVENT_TIMEWAIT_EXIT
  | RDMA_CM_other_event nat

datatype upcall =
    Path_Rec_Completion int ib_sa_path_rec
  | Ib_Cm_Event ib_cm_event
  | Rdma_Cm_Event rdma_cm_event
  | Recv_Completion "ib_wc list"

section \<open>Calls from the driver into the RDMA core\<close>

text \<open>Calls that return a status, and calls that create an object. \<open>Ib_send_cm_req\<close> has the identifier, the
  path, the service identifier, the connection parameters, \<^verbatim>\<open>max_cm_retries\<close>, the local and remote
  response timeouts and the private data; the random starting packet sequence number is
  left out.\<close>

datatype verb_call =
    Ib_find_cached_pkey u16
  | Ib_modify_qp nat ib_qp_state
  | Ib_sa_path_rec_get ib_sa_path_rec
  | Ib_send_cm_req nat ib_sa_path_rec be64 conn_param u8 u8 u8 "u8 list"
  | Ib_send_cm_rtu nat
  | Ib_send_cm_dreq nat
  | Ib_send_cm_drep nat
  | Set_remote_cm_qpn nat u32
  | Rdma_resolve_addr nat "u8 list"
  | Rdma_resolve_route nat
  | Rdma_connect nat conn_param "u8 list"
  | Rdma_disconnect nat
  | Ib_req_notify_cq nat

datatype create_call =
    Ib_create_cq int int
  | Ib_create_qp nat nat int int
  | Rdma_create_qp nat nat nat int int
  | Ib_create_fmr_pool int int int nat
  | Ib_create_cm_id nat
  | Rdma_create_id nat

datatype resource =
    R_mem nat | R_dma u64 | R_dma_sg nat | R_mr nat | R_frpl nat | R_fmr_pool nat | R_cq nat | R_qp nat
  | R_cm_id nat

fun created :: "create_call \<Rightarrow> nat \<Rightarrow> resource" where
  "created (Ib_create_cq c v) n = R_cq n"
| "created (Ib_create_qp s r a b) n = R_qp n"
| "created (Rdma_create_qp i s r a b) n = R_qp n"
| "created (Ib_create_fmr_pool a b c d) n = R_fmr_pool n"
| "created (Ib_create_cm_id c) n = R_cm_id n"
| "created (Rdma_create_id c) n = R_cm_id n"

datatype hw_event =
    Call verb_call int
  | Post_Send send_wr int
  | Post_Recv u64 int
  | Fmr_Map u32 "u64 list"
  | Fmr_Unmap u32
  | Alloc resource
  | Free resource

section \<open>The environment\<close>

text \<open>An allocation returns \<open>Inl\<close> of the (negative) error or \<open>Inr\<close> of a handle.
  \<open>v_poll_send_cq\<close> gives the completions that repeated calls of \<^verbatim>\<open>ib_poll_cq()\<close> return until the queue is
  empty, and \<open>v_wait\<close> the calls into the driver, with the index of the channel
  concerned, that happen while a thread sleeps on a completion of a channel.\<close>

text \<open>\<open>v_sizeof\<close> is the layout the compiler chooses for the structures that are allocated: it depends on the kernel
  configuration (spin locks, completions, cache lines), so it is part of the environment.\<close>

datatype ctype =
    T_srp_iu | T_srp_request | T_srp_fr_pool | T_srp_fr_desc | T_srp_rdma_ch | T_srp_conn_req
  | T_ib_qp_attr | T_ib_qp_init_attr

record 'e verbs =
  v_sizeof :: "ctype \<Rightarrow> nat"
  v_kzalloc :: "nat \<Rightarrow> 'e \<Rightarrow> nat option \<times> 'e"
  v_dma_map_single :: "nat \<Rightarrow> nat \<Rightarrow> dma_dir \<Rightarrow> 'e \<Rightarrow> u64 option \<times> 'e"
  v_dma_map_sg :: "dma_sg list \<Rightarrow> dma_dir \<Rightarrow> 'e \<Rightarrow> dma_sg list \<times> 'e"
  v_alloc_fast_reg_mr :: "nat \<Rightarrow> 'e \<Rightarrow> (int + ib_mr) \<times> 'e"
  v_alloc_fast_reg_page_list :: "nat \<Rightarrow> 'e \<Rightarrow> (int + nat) \<times> 'e"
  v_fmr_pool_map_phys :: "nat \<Rightarrow> u64 list \<Rightarrow> 'e \<Rightarrow> (int + ib_pool_fmr) \<times> 'e"
  v_post_send :: "nat \<Rightarrow> send_wr \<Rightarrow> 'e \<Rightarrow> int \<times> 'e"
  v_post_recv :: "nat \<Rightarrow> u64 \<Rightarrow> ib_sge \<Rightarrow> 'e \<Rightarrow> int \<times> 'e"
  v_call :: "verb_call \<Rightarrow> 'e \<Rightarrow> int \<times> 'e"
  v_create :: "create_call \<Rightarrow> 'e \<Rightarrow> (int + nat) \<times> 'e"
  v_cm_init_qp_attr :: "nat \<Rightarrow> ib_qp_state \<Rightarrow> 'e \<Rightarrow> (int \<times> u8 \<times> u8) \<times> 'e"
  v_query_port :: "'e \<Rightarrow> (int \<times> u8) \<times> 'e"
  v_poll_send_cq :: "nat \<Rightarrow> 'e \<Rightarrow> ib_wc list \<times> 'e"
  v_wait :: "nat \<Rightarrow> 'e \<Rightarrow> (nat \<times> upcall) list \<times> 'e"

record 'e hw =
  hw_env :: 'e
  hw_log :: "hw_event list"

definition logged :: "hw_event \<Rightarrow> 'e \<Rightarrow> 'e hw \<Rightarrow> 'e hw" where
  "logged ev e h = h\<lparr>hw_env := e, hw_log := hw_log h @ [ev]\<rparr>"

definition kfree :: "nat \<Rightarrow> 'e hw \<Rightarrow> 'e hw" where
  "kfree p h = h\<lparr>hw_log := hw_log h @ [Free (R_mem p)]\<rparr>"

definition release :: "resource \<Rightarrow> 'e hw \<Rightarrow> 'e hw" where
  "release r h = h\<lparr>hw_log := hw_log h @ [Free r]\<rparr>"

definition kzalloc :: "'e verbs \<Rightarrow> nat \<Rightarrow> 'e hw \<Rightarrow> nat option \<times> 'e hw" where
  "kzalloc V n h = (case v_kzalloc V n (hw_env h) of
     (None, e) \<Rightarrow> (None, h\<lparr>hw_env := e\<rparr>)
   | (Some p, e) \<Rightarrow> (Some p, logged (Alloc (R_mem p)) e h))"

definition ib_alloc_fast_reg_mr :: "'e verbs \<Rightarrow> nat \<Rightarrow> 'e hw \<Rightarrow> (int + ib_mr) \<times> 'e hw" where
  "ib_alloc_fast_reg_mr V n h = (case v_alloc_fast_reg_mr V n (hw_env h) of
     (Inl r, e) \<Rightarrow> (Inl r, h\<lparr>hw_env := e\<rparr>)
   | (Inr mr, e) \<Rightarrow> (Inr mr, logged (Alloc (R_mr (mr_handle mr))) e h))"

definition ib_alloc_fast_reg_page_list :: "'e verbs \<Rightarrow> nat \<Rightarrow> 'e hw \<Rightarrow> (int + nat) \<times> 'e hw" where
  "ib_alloc_fast_reg_page_list V n h = (case v_alloc_fast_reg_page_list V n (hw_env h) of
     (Inl r, e) \<Rightarrow> (Inl r, h\<lparr>hw_env := e\<rparr>)
   | (Inr l, e) \<Rightarrow> (Inr l, logged (Alloc (R_frpl l)) e h))"

definition ib_fmr_pool_map_phys ::
    "'e verbs \<Rightarrow> nat \<Rightarrow> u64 list \<Rightarrow> 'e hw \<Rightarrow> (int + ib_pool_fmr) \<times> 'e hw" where
  "ib_fmr_pool_map_phys V pool pages h = (case v_fmr_pool_map_phys V pool pages (hw_env h) of
     (Inl r, e) \<Rightarrow> (Inl r, h\<lparr>hw_env := e\<rparr>)
   | (Inr fmr, e) \<Rightarrow> (Inr fmr, logged (Fmr_Map (fmr_rkey fmr) pages) e h))"

definition ib_fmr_pool_unmap :: "ib_pool_fmr \<Rightarrow> 'e hw \<Rightarrow> 'e hw" where
  "ib_fmr_pool_unmap fmr h = h\<lparr>hw_log := hw_log h @ [Fmr_Unmap (fmr_rkey fmr)]\<rparr>"

definition ib_post_send :: "'e verbs \<Rightarrow> nat \<Rightarrow> send_wr \<Rightarrow> 'e hw \<Rightarrow> int \<times> 'e hw" where
  "ib_post_send V qp wr h = (case v_post_send V qp wr (hw_env h) of
     (r, e) \<Rightarrow> (r, logged (Post_Send wr r) e h))"

definition ib_post_recv :: "'e verbs \<Rightarrow> nat \<Rightarrow> u64 \<Rightarrow> ib_sge \<Rightarrow> 'e hw \<Rightarrow> int \<times> 'e hw" where
  "ib_post_recv V qp wr_id sge h = (case v_post_recv V qp wr_id sge (hw_env h) of
     (r, e) \<Rightarrow> (r, logged (Post_Recv wr_id r) e h))"

text \<open>\<^verbatim>\<open>ib_dma_map_sg()\<close> returns the entries after mapping, none of them if it fails; the mapping
  belongs to the command \<open>cmd\<close> until it is undone.\<close>

definition ib_dma_map_sg ::
    "'e verbs \<Rightarrow> nat \<Rightarrow> dma_sg list \<Rightarrow> dma_dir \<Rightarrow> 'e hw \<Rightarrow> dma_sg list \<times> 'e hw" where
  "ib_dma_map_sg V cmd sgs dir h = (case v_dma_map_sg V sgs dir (hw_env h) of
     (scat, e) \<Rightarrow> (scat, if scat = [] then h\<lparr>hw_env := e\<rparr> else logged (Alloc (R_dma_sg cmd)) e h))"

definition ib_dma_unmap_sg :: "nat \<Rightarrow> 'e hw \<Rightarrow> 'e hw" where
  "ib_dma_unmap_sg cmd h = release (R_dma_sg cmd) h"

definition ib_dma_map_single ::
    "'e verbs \<Rightarrow> nat \<Rightarrow> nat \<Rightarrow> dma_dir \<Rightarrow> 'e hw \<Rightarrow> u64 option \<times> 'e hw" where
  "ib_dma_map_single V p n dir h = (case v_dma_map_single V p n dir (hw_env h) of
     (None, e) \<Rightarrow> (None, h\<lparr>hw_env := e\<rparr>)
   | (Some a, e) \<Rightarrow> (Some a, logged (Alloc (R_dma a)) e h))"

text \<open>The other calls into the RDMA core.\<close>

definition verb :: "'e verbs \<Rightarrow> verb_call \<Rightarrow> 'e hw \<Rightarrow> int \<times> 'e hw" where
  "verb V c h = (case v_call V c (hw_env h) of (r, e) \<Rightarrow> (r, logged (Call c r) e h))"

definition create :: "'e verbs \<Rightarrow> create_call \<Rightarrow> 'e hw \<Rightarrow> (int + nat) \<times> 'e hw" where
  "create V c h = (case v_create V c (hw_env h) of
     (Inl r, e) \<Rightarrow> (Inl r, h\<lparr>hw_env := e\<rparr>)
   | (Inr n, e) \<Rightarrow> (Inr n, logged (Alloc (created c n)) e h))"

definition ib_cm_init_qp_attr ::
    "'e verbs \<Rightarrow> nat \<Rightarrow> ib_qp_state \<Rightarrow> 'e hw \<Rightarrow> (int \<times> u8 \<times> u8) \<times> 'e hw" where
  "ib_cm_init_qp_attr V cm_id st h = (case v_cm_init_qp_attr V cm_id st (hw_env h) of
     (a, e) \<Rightarrow> (a, h\<lparr>hw_env := e\<rparr>))"

definition ib_query_port :: "'e verbs \<Rightarrow> 'e hw \<Rightarrow> (int \<times> u8) \<times> 'e hw" where
  "ib_query_port V h = (case v_query_port V (hw_env h) of (a, e) \<Rightarrow> (a, h\<lparr>hw_env := e\<rparr>))"

definition poll_send_cq :: "'e verbs \<Rightarrow> nat \<Rightarrow> 'e hw \<Rightarrow> ib_wc list \<times> 'e hw" where
  "poll_send_cq V cq h = (case v_poll_send_cq V cq (hw_env h) of (wcs, e) \<Rightarrow> (wcs, h\<lparr>hw_env := e\<rparr>))"

definition sleep :: "'e verbs \<Rightarrow> nat \<Rightarrow> 'e hw \<Rightarrow> (nat \<times> upcall) list \<times> 'e hw" where
  "sleep V c h = (case v_wait V c (hw_env h) of (us, e) \<Rightarrow> (us, h\<lparr>hw_env := e\<rparr>))"

section \<open>Resources that are alive\<close>

fun live_event :: "hw_event \<Rightarrow> resource multiset \<Rightarrow> resource multiset" where
  "live_event (Alloc r) m = add_mset r m"
| "live_event (Free r) m = m - {#r#}"
| "live_event _ m = m"

definition live :: "hw_event list \<Rightarrow> resource multiset" where
  "live log = fold live_event log {#}"

lemma live_Nil [simp]: "live [] = {#}"
  by (simp add: live_def)

lemma live_snoc [simp]: "live (log @ [ev]) = live_event ev (live log)"
  by (simp add: live_def)

abbreviation hw_live :: "'e hw \<Rightarrow> resource multiset" where
  "hw_live h \<equiv> live (hw_log h)"

lemma hw_live_logged [simp]: "hw_live (logged ev e h) = live_event ev (hw_live h)"
  by (simp add: logged_def)

lemma hw_live_release [simp]: "hw_live (release r h) = hw_live h - {#r#}"
  by (simp add: release_def)

lemma hw_live_kfree [simp]: "hw_live (kfree p h) = hw_live h - {#R_mem p#}"
  by (simp add: kfree_def)

section \<open>Address translation by the HCA\<close>

text \<open>
  The translation of a remote key: the I/O virtual address of the first byte and the pages of the
  region. A region that \<^verbatim>\<open>ib_fmr_pool_map_phys()\<close> has set up starts at the
  address zero, which is the \<^verbatim>\<open>io_addr\<close> the driver passes. A work request that could not be
  posted has no effect.
\<close>

type_synonym mr_table = "u32 \<rightharpoonup> u64 \<times> u64 list"

fun mr_event :: "hw_event \<Rightarrow> mr_table \<Rightarrow> mr_table" where
  "mr_event (Post_Send (WR_FAST_REG_MR w iova pages sh len key) r) T =
     (if r = 0 then T(key \<mapsto> (iova, pages)) else T)"
| "mr_event (Post_Send (WR_LOCAL_INV w key) r) T = (if r = 0 then T(key := None) else T)"
| "mr_event (Post_Send (WR_SEND w sges) r) T = T"
| "mr_event (Fmr_Map key pages) T = T(key \<mapsto> (0, pages))"
| "mr_event (Fmr_Unmap key) T = T(key := None)"
| "mr_event (Post_Recv w r) T = T"
| "mr_event (Call c r) T = T"
| "mr_event (Alloc r) T = T"
| "mr_event (Free r) T = T"

definition mr_table :: "hw_event list \<Rightarrow> mr_table" where
  "mr_table log = fold mr_event log Map.empty"

lemma mr_table_Nil [simp]: "mr_table [] = Map.empty"
  by (simp add: mr_table_def)

lemma mr_table_snoc [simp]: "mr_table (log @ [ev]) = mr_event ev (mr_table log)"
  by (simp add: mr_table_def)

abbreviation hw_table :: "'e hw \<Rightarrow> mr_table" where
  "hw_table h \<equiv> mr_table (hw_log h)"

lemma hw_table_logged [simp]: "hw_table (logged ev e h) = mr_event ev (hw_table h)"
  by (simp add: logged_def)

section \<open>A concrete environment\<close>

text \<open>
  For the witnesses: an environment that numbers the objects it creates and refuses every call
  once \<open>lim\<close> calls have been made. Keys of memory regions are multiples of 256.
\<close>

definition example_verbs :: "nat \<Rightarrow> nat verbs" where
  "example_verbs lim = \<lparr>
     v_sizeof = (\<lambda>_. 8), v_kzalloc = (\<lambda>n e. (if e < lim then Some e else None, Suc e)),
     v_dma_map_single = (\<lambda>p n d e. (if e < lim then Some (of_nat (4096 * e)) else None, Suc e)),
     v_dma_map_sg = (\<lambda>sgs d e. (if e < lim then sgs else [], Suc e)),
     v_alloc_fast_reg_mr = (\<lambda>n e. (if e < lim
        then Inr \<lparr>mr_handle = e, mr_lkey = of_nat (256 * e), mr_rkey = of_nat (256 * e)\<rparr>
        else Inl (- ENOMEM), Suc e)),
     v_alloc_fast_reg_page_list = (\<lambda>n e. (if e < lim then Inr e else Inl (- ENOMEM), Suc e)),
     v_fmr_pool_map_phys = (\<lambda>pool pages e. (if e < lim
        then Inr \<lparr>fmr_handle = e, fmr_rkey = of_nat (256 * e)\<rparr> else Inl (- ENOMEM), Suc e)),
     v_post_send = (\<lambda>qp wr e. (if e < lim then 0 else - ENOMEM, Suc e)),
     v_post_recv = (\<lambda>qp w sge e. (if e < lim then 0 else - ENOMEM, Suc e)),
     v_call = (\<lambda>c e. (if e < lim then 0 else - ENOMEM, Suc e)),
     v_create = (\<lambda>c e. (if e < lim then Inr e else Inl (- ENOMEM), Suc e)),
     v_cm_init_qp_attr = (\<lambda>i st e. ((if e < lim then 0 else - EINVAL, 18, 7), Suc e)),
     v_query_port = (\<lambda>e. ((0, 18), Suc e)),
     v_poll_send_cq = (\<lambda>cq e. ([], e)),
     v_wait = (\<lambda>c e. ([], e))\<rparr>"

end
