(* ===== verification/SRP_Fr_Pool.thy ===== *)
theory SRP_Fr_Pool
  imports SRP_Verbs
begin

text \<open>
  The pool of fast registration descriptors (\<^verbatim>\<open>struct srp_fr_pool\<close>, functions
  \<^verbatim>\<open>srp_create_fr_pool()\<close> to \<^verbatim>\<open>srp_fr_pool_put()\<close> of
  \<^verbatim>\<open>src/drivers/infiniband/ulp/srp/ib_srp.c\<close>) and the contract \<open>free_pool\<close> that it shares with the
  other free lists of the driver: an element is handed out to one user at a time.

  A pointer to a descriptor is its index in the array \<^verbatim>\<open>desc[]\<close> of the pool.
\<close>

section \<open>The contract of a free list\<close>

locale free_pool =
  fixes free :: "'s \<Rightarrow> 'a list"
    and get :: "'s \<Rightarrow> 'a option \<times> 's"
    and put :: "'a \<Rightarrow> 's \<Rightarrow> 's"
  assumes get_empty: "free s = [] \<Longrightarrow> get s = (None, s)"
    and get_nonempty: "free s \<noteq> [] \<Longrightarrow>
          \<exists>x s'. get s = (Some x, s') \<and> mset (free s) = add_mset x (mset (free s'))"
    and put_free: "mset (free (put x s)) = add_mset x (mset (free s))"
begin

text \<open>The users of the pool: \<open>m\<close> are the elements that have been handed out and not yet been
  returned.\<close>

inductive pool_step :: "'s \<times> 'a multiset \<Rightarrow> 's \<times> 'a multiset \<Rightarrow> bool" where
  taken: "get s = (Some x, s') \<Longrightarrow> pool_step (s, m) (s', add_mset x m)"
| given: "x \<in># m \<Longrightarrow> pool_step (s, m) (put x s, m - {#x#})"

lemma get_Some: "get s = (Some x, s') \<Longrightarrow> mset (free s) = add_mset x (mset (free s'))"
  using get_empty get_nonempty by (cases "free s = []") fastforce+

lemma get_None: "get s = (None, s') \<longleftrightarrow> free s = [] \<and> s' = s"
  using get_empty get_nonempty by (cases "free s = []") fastforce+

lemma step_conserves:
  "pool_step c c' \<Longrightarrow> mset (free (fst c')) + snd c' = mset (free (fst c)) + snd c"
proof (induction rule: pool_step.induct)
  case (taken s x s' m)
  then show ?case by (simp add: get_Some)
next
  case (given x m s)
  then show ?case by (simp add: put_free)
qed

lemma steps_conserve:
  "pool_step\<^sup>*\<^sup>* c c' \<Longrightarrow> mset (free (fst c')) + snd c' = mset (free (fst c)) + snd c"
  by (induction rule: rtranclp_induct) (auto dest: step_conserves)

lemma exclusive:
  assumes "pool_step\<^sup>*\<^sup>* (s0, {#}) (s, m)" and "distinct (free s0)"
    and "get s = (Some x, s')"
  shows "x \<in> set (free s0) \<and> x \<notin># m"
proof -
  have eq: "mset (free s) + m = mset (free s0)"
    using steps_conserve [OF assms(1)] by simp
  have "count (mset (free s0)) x \<le> 1"
    using assms(2) by (simp add: distinct_count_atmost_1 count_mset)
  moreover have "count (mset (free s)) x \<ge> 1"
    using get_Some [OF assms(3)] by (simp only: count_add_mset) simp
  ultimately have "count m x = 0"
    unfolding eq [symmetric] count_union by linarith
  moreover have "x \<in># mset (free s0)"
    unfolding eq [symmetric] using get_Some [OF assms(3)] by simp
  ultimately show ?thesis by (simp add: not_in_iff)
qed

lemma exhausted:
  assumes "pool_step\<^sup>*\<^sup>* (s0, {#}) (s, m)" and "get s = (None, s')"
  shows "m = mset (free s0)"
  using steps_conserve [OF assms(1)] assms(2) by (simp add: get_None)

end

section \<open>The pool of fast registration descriptors\<close>

record srp_fr_desc =
  fr_mr :: "ib_mr option"
  fr_frpl :: "nat option"
  fr_page_list :: "u64 list"

record srp_fr_pool =
  frp_mem :: nat
  frp_size :: int
  frp_max_page_list_len :: int
  frp_free_list :: "nat list"
  frp_desc :: "srp_fr_desc list"

definition zeroed_fr_desc :: srp_fr_desc where
  "zeroed_fr_desc = \<lparr>fr_mr = None, fr_frpl = None, fr_page_list = []\<rparr>"

definition srp_destroy_fr_desc :: "srp_fr_desc \<Rightarrow> 'e hw \<Rightarrow> 'e hw" where
  "srp_destroy_fr_desc d h =
     (let h1 = (case fr_frpl d of None \<Rightarrow> h | Some l \<Rightarrow> release (R_frpl l) h)
      in case fr_mr d of None \<Rightarrow> h1 | Some mr \<Rightarrow> release (R_mr (mr_handle mr)) h1)"

definition srp_destroy_fr_pool :: "srp_fr_pool option \<Rightarrow> 'e hw \<Rightarrow> 'e hw" where
  "srp_destroy_fr_pool pool h = (case pool of None \<Rightarrow> h
     | Some p \<Rightarrow> kfree (frp_mem p) (fold srp_destroy_fr_desc (frp_desc p) h))"

text \<open>The loop of \<^verbatim>\<open>srp_create_fr_pool()\<close>. \<open>Inl\<close> is the jump to \<^verbatim>\<open>destroy_pool\<close> with the error and
  the pool as it is at that moment.\<close>

fun srp_fill_fr_pool ::
    "'e verbs \<Rightarrow> nat list \<Rightarrow> srp_fr_pool \<Rightarrow> 'e hw \<Rightarrow> ((int \<times> srp_fr_pool) + srp_fr_pool) \<times> 'e hw" where
  "srp_fill_fr_pool V [] pool h = (Inr pool, h)"
| "srp_fill_fr_pool V (i # js) pool h =
     (case ib_alloc_fast_reg_mr V (nat (frp_max_page_list_len pool)) h of
        (Inl ret, h1) \<Rightarrow> (Inl (ret, pool), h1)
      | (Inr mr, h1) \<Rightarrow>
          (let d = (frp_desc pool ! i)\<lparr>fr_mr := Some mr\<rparr>;
               pool1 = pool\<lparr>frp_desc := (frp_desc pool)[i := d]\<rparr>
           in case ib_alloc_fast_reg_page_list V (nat (frp_max_page_list_len pool)) h1 of
                (Inl ret, h2) \<Rightarrow> (Inl (ret, pool1), h2)
              | (Inr frpl, h2) \<Rightarrow>
                  srp_fill_fr_pool V js
                    (pool1\<lparr>frp_desc := (frp_desc pool1)[i := d\<lparr>fr_frpl := Some frpl\<rparr>],
                           frp_free_list := frp_free_list pool1 @ [i]\<rparr>) h2))"

definition srp_create_fr_pool ::
    "'e verbs \<Rightarrow> int \<Rightarrow> int \<Rightarrow> 'e hw \<Rightarrow> (int + srp_fr_pool) \<times> 'e hw" where
  "srp_create_fr_pool V pool_size max_page_list_len h =
     (if pool_size \<le> 0 then (Inl (- EINVAL), h)
      else case kzalloc V (v_sizeof V T_srp_fr_pool + nat pool_size * v_sizeof V T_srp_fr_desc) h of
        (None, h1) \<Rightarrow> (Inl (- ENOMEM), h1)
      | (Some p, h1) \<Rightarrow>
          (let pool = \<lparr>frp_mem = p, frp_size = pool_size,
                       frp_max_page_list_len = max_page_list_len, frp_free_list = [],
                       frp_desc = replicate (nat pool_size) zeroed_fr_desc\<rparr>
           in case srp_fill_fr_pool V [0..<nat pool_size] pool h1 of
                (Inl (ret, pool'), h2) \<Rightarrow> (Inl ret, srp_destroy_fr_pool (Some pool') h2)
              | (Inr pool', h2) \<Rightarrow> (Inr pool', h2)))"

definition srp_fr_pool_get :: "srp_fr_pool \<Rightarrow> nat option \<times> srp_fr_pool" where
  "srp_fr_pool_get pool = (case frp_free_list pool of
     [] \<Rightarrow> (None, pool)
   | d # ds \<Rightarrow> (Some d, pool\<lparr>frp_free_list := ds\<rparr>))"

definition srp_fr_pool_add :: "nat \<Rightarrow> srp_fr_pool \<Rightarrow> srp_fr_pool" where
  "srp_fr_pool_add d pool = pool\<lparr>frp_free_list := d # frp_free_list pool\<rparr>"

definition srp_fr_pool_put :: "srp_fr_pool \<Rightarrow> nat list \<Rightarrow> nat \<Rightarrow> srp_fr_pool" where
  "srp_fr_pool_put pool desc n = fold srp_fr_pool_add (take n desc) pool"

interpretation frp: free_pool frp_free_list srp_fr_pool_get srp_fr_pool_add
  by unfold_locales (auto simp: srp_fr_pool_get_def srp_fr_pool_add_def split: list.splits)

section \<open>Resources held by a pool\<close>

definition fr_desc_res :: "srp_fr_desc \<Rightarrow> resource multiset" where
  "fr_desc_res d =
     (case fr_frpl d of None \<Rightarrow> {#} | Some l \<Rightarrow> {#R_frpl l#}) +
     (case fr_mr d of None \<Rightarrow> {#} | Some mr \<Rightarrow> {#R_mr (mr_handle mr)#})"

definition fr_pool_res :: "srp_fr_pool \<Rightarrow> resource multiset" where
  "fr_pool_res p = {#R_mem (frp_mem p)#} + sum_list (map fr_desc_res (frp_desc p))"

lemma live_destroy_fr_desc: "hw_live (srp_destroy_fr_desc d h) = hw_live h - fr_desc_res d"
  by (simp add: srp_destroy_fr_desc_def fr_desc_res_def Let_def split: option.splits)

lemma live_destroy_fr_descs:
  "hw_live (fold srp_destroy_fr_desc ds h) = hw_live h - sum_list (map fr_desc_res ds)"
  by (induction ds arbitrary: h) (simp_all add: live_destroy_fr_desc)

lemma live_destroy_fr_pool: "hw_live (srp_destroy_fr_pool (Some p) h) = hw_live h - fr_pool_res p"
  by (simp add: srp_destroy_fr_pool_def live_destroy_fr_descs fr_pool_res_def diff_union_swap2
      diff_diff_add_mset add.commute)

lemma sum_list_update_mset:
  "i < length xs \<Longrightarrow>
   sum_list (map f (xs[i := x])) + f (xs ! i) = sum_list (map f xs) + (f x :: 'a multiset)"
proof (induction xs arbitrary: i)
  case (Cons a xs)
  then show ?case by (cases i) (auto simp: ac_simps)
qed simp

lemma fr_pool_res_update:
  assumes "i < length (frp_desc p)" and "fr_desc_res d = fr_desc_res (frp_desc p ! i) + r"
  shows "fr_pool_res (p\<lparr>frp_desc := (frp_desc p)[i := d]\<rparr>) = fr_pool_res p + r"
  using sum_list_update_mset [OF assms(1), of fr_desc_res d] assms(2)
  by (simp add: fr_pool_res_def ac_simps)

lemma fr_pool_res_free_list [simp]: "fr_pool_res (p\<lparr>frp_free_list := l\<rparr>) = fr_pool_res p"
  by (simp add: fr_pool_res_def)

lemma zeroed_desc_res [simp]: "fr_desc_res zeroed_fr_desc = {#}"
  by (simp add: zeroed_fr_desc_def fr_desc_res_def)

lemma sum_list_replicate_empty [simp]: "sum_list (replicate n {#}) = {#}"
  by (induction n) simp_all

definition pool_of_fill :: "(int \<times> srp_fr_pool) + srp_fr_pool \<Rightarrow> srp_fr_pool" where
  "pool_of_fill r = (case r of Inl (_, p) \<Rightarrow> p | Inr p \<Rightarrow> p)"

text \<open>One iteration that allocates both objects of the descriptor.\<close>

definition fr_pool_filled :: "nat \<Rightarrow> ib_mr \<Rightarrow> nat \<Rightarrow> srp_fr_pool \<Rightarrow> srp_fr_pool" where
  "fr_pool_filled i mr frpl pool = pool\<lparr>
     frp_desc := (frp_desc pool)[i := (frp_desc pool ! i)\<lparr>fr_mr := Some mr, fr_frpl := Some frpl\<rparr>],
     frp_free_list := frp_free_list pool @ [i]\<rparr>"

lemma fr_pool_res_filled:
  assumes "i < length (frp_desc pool)" and "frp_desc pool ! i = zeroed_fr_desc"
  shows "fr_pool_res (fr_pool_filled i mr l pool) =
         fr_pool_res pool + {#R_mr (mr_handle mr), R_frpl l#}"
proof -
  let ?d = "zeroed_fr_desc\<lparr>fr_mr := Some mr, fr_frpl := Some l\<rparr>"
  have "fr_pool_res (pool\<lparr>frp_desc := (frp_desc pool)[i := ?d]\<rparr>) =
      fr_pool_res pool + {#R_mr (mr_handle mr), R_frpl l#}"
    using assms by (intro fr_pool_res_update) (simp_all add: fr_desc_res_def zeroed_fr_desc_def)
  then show ?thesis by (simp add: fr_pool_filled_def assms(2) fr_pool_res_def)
qed

lemma fill_step:
  assumes i: "i < length (frp_desc pool)" "frp_desc pool ! i = zeroed_fr_desc"
  obtains (failed) ret pool' h' r where
      "srp_fill_fr_pool V (i # js) pool h = (Inl (ret, pool'), h')"
      "fr_pool_res pool' = fr_pool_res pool + r" "hw_live h' = hw_live h + r"
    | (filled) mr l h' where
      "srp_fill_fr_pool V (i # js) pool h = srp_fill_fr_pool V js (fr_pool_filled i mr l pool) h'"
      "hw_live h' = hw_live h + {#R_mr (mr_handle mr), R_frpl l#}"
proof -
  let ?n = "nat (frp_max_page_list_len pool)"
  consider (no_mr) ret e where "v_alloc_fast_reg_mr V ?n (hw_env h) = (Inl ret, e)"
    | (mr) m e where "v_alloc_fast_reg_mr V ?n (hw_env h) = (Inr m, e)"
    by (metis obj_sumE surj_pair)
  then show thesis
  proof cases
    case no_mr
    then show thesis by (intro failed [of ret pool "h\<lparr>hw_env := e\<rparr>" "{#}"]) (simp_all add: ib_alloc_fast_reg_mr_def)
  next
    case mr
    let ?h1 = "logged (Alloc (R_mr (mr_handle m))) e h"
    let ?p1 = "pool\<lparr>frp_desc := (frp_desc pool)[i := zeroed_fr_desc\<lparr>fr_mr := Some m\<rparr>]\<rparr>"
    have a: "ib_alloc_fast_reg_mr V ?n h = (Inr m, ?h1)"
      using mr by (simp add: ib_alloc_fast_reg_mr_def)
    consider (no_pl) ret e' where "v_alloc_fast_reg_page_list V ?n (hw_env ?h1) = (Inl ret, e')"
      | (pl) l e' where "v_alloc_fast_reg_page_list V ?n (hw_env ?h1) = (Inr l, e')"
      by (metis obj_sumE surj_pair)
    then show thesis
    proof cases
      case no_pl
      have "fr_pool_res ?p1 = fr_pool_res pool + {#R_mr (mr_handle m)#}"
        using i by (intro fr_pool_res_update) (simp_all add: fr_desc_res_def zeroed_fr_desc_def)
      with no_pl show thesis
        by (intro failed [of ret ?p1 "?h1\<lparr>hw_env := e'\<rparr>"])
           (simp_all add: a i Let_def ib_alloc_fast_reg_page_list_def logged_def)
    next
      case pl
      then show thesis
        by (intro filled [of m l "logged (Alloc (R_frpl l)) e' ?h1"])
           (simp_all add: a i Let_def ib_alloc_fast_reg_page_list_def fr_pool_filled_def)
    qed
  qed
qed

definition unfilled :: "nat list \<Rightarrow> srp_fr_pool \<Rightarrow> bool" where
  "unfilled js pool \<longleftrightarrow>
     (\<forall>i \<in> set js. i < length (frp_desc pool) \<and> frp_desc pool ! i = zeroed_fr_desc)"

lemma unfilled_Cons:
  "distinct (i # js) \<Longrightarrow> unfilled (i # js) pool \<Longrightarrow> unfilled js (fr_pool_filled i mr l pool)"
  by (auto simp: unfilled_def fr_pool_filled_def nth_list_update)

lemma fill_live:
  assumes "distinct js" and "unfilled js pool" and "hw_live h = L + fr_pool_res pool"
    and "srp_fill_fr_pool V js pool h = (r, h')"
  shows "hw_live h' = L + fr_pool_res (pool_of_fill r)"
  using assms
proof (induction js arbitrary: pool h)
  case Nil
  then show ?case by (auto simp: pool_of_fill_def)
next
  case (Cons i js)
  then have i: "i < length (frp_desc pool)" "frp_desc pool ! i = zeroed_fr_desc"
    by (simp_all add: unfilled_def)
  from i show ?case
  proof (cases rule: fill_step [where V = V and js = js and h = h])
    case failed
    with Cons.prems show ?thesis by (auto simp: pool_of_fill_def)
  next
    case (filled mr l h1)
    show ?thesis
    proof (rule Cons.IH)
      show "unfilled js (fr_pool_filled i mr l pool)"
        using Cons.prems unfilled_Cons by blast
      show "hw_live h1 = L + fr_pool_res (fr_pool_filled i mr l pool)"
        using filled(2) Cons.prems(3) by (simp add: fr_pool_res_filled [OF i])
    qed (use Cons.prems filled in simp_all)
  qed
qed

lemma fill_succeeded:
  assumes "distinct js" and "unfilled js pool" and "srp_fill_fr_pool V js pool h = (Inr pool', h')"
  shows "frp_free_list pool' = frp_free_list pool @ js \<and> frp_mem pool' = frp_mem pool \<and>
    frp_size pool' = frp_size pool \<and> length (frp_desc pool') = length (frp_desc pool) \<and>
    (\<forall>i < length (frp_desc pool). if i \<in> set js
       then fr_mr (frp_desc pool' ! i) \<noteq> None \<and> fr_frpl (frp_desc pool' ! i) \<noteq> None
       else frp_desc pool' ! i = frp_desc pool ! i)"
  using assms
proof (induction js arbitrary: pool h)
  case (Cons i js)
  then have i: "i < length (frp_desc pool)" "frp_desc pool ! i = zeroed_fr_desc"
    by (simp_all add: unfilled_def)
  from i show ?case
  proof (cases rule: fill_step [where V = V and js = js and h = h])
    case (filled mr l h1)
    have "unfilled js (fr_pool_filled i mr l pool)"
      using Cons.prems unfilled_Cons by blast
    note ih = Cons.IH [OF _ this, of h1]
    show ?thesis using ih Cons.prems i filled(1)
      by (auto simp: fr_pool_filled_def nth_list_update split: if_splits)
  qed (use Cons.prems in simp)
qed simp

section \<open>Properties\<close>

lemma create_fr_pool_result:
  assumes "srp_create_fr_pool V n mx h = (res, h')"
  shows "case res of
     Inl ret \<Rightarrow> hw_live h' = hw_live h
   | Inr pool \<Rightarrow> 0 < n \<and> frp_free_list pool = [0..<nat n] \<and> length (frp_desc pool) = nat n \<and>
       list_all (\<lambda>d. fr_mr d \<noteq> None \<and> fr_frpl d \<noteq> None) (frp_desc pool) \<and>
       hw_live (srp_destroy_fr_pool (Some pool) h') = hw_live h"
proof (cases "n \<le> 0 \<or> fst (kzalloc V (v_sizeof V T_srp_fr_pool + nat n * v_sizeof V T_srp_fr_desc) h) = None")
  case True
  with assms show ?thesis
    by (auto simp: srp_create_fr_pool_def kzalloc_def split: if_splits prod.splits option.splits)
next
  case False
  then obtain p e where k: "v_kzalloc V (v_sizeof V T_srp_fr_pool + nat n * v_sizeof V T_srp_fr_desc) (hw_env h) = (Some p, e)"
    by (auto simp: kzalloc_def split: prod.splits option.splits)
  let ?h1 = "logged (Alloc (R_mem p)) e h"
  let ?pool = "\<lparr>frp_mem = p, frp_size = n, frp_max_page_list_len = mx, frp_free_list = [],
                frp_desc = replicate (nat n) zeroed_fr_desc\<rparr>"
  have u: "unfilled [0..<nat n] ?pool" by (simp add: unfilled_def)
  have l: "hw_live ?h1 = hw_live h + fr_pool_res ?pool"
    by (simp add: fr_pool_res_def)
  obtain r h2 where f: "srp_fill_fr_pool V [0..<nat n] ?pool ?h1 = (r, h2)"
    by (meson surj_pair)
  have l2: "hw_live h2 = hw_live h + fr_pool_res (pool_of_fill r)"
    by (rule fill_live [OF _ u l f]) simp
  have create: "srp_create_fr_pool V n mx h = (case r of
      Inl (ret, pool') \<Rightarrow> (Inl ret, srp_destroy_fr_pool (Some pool') h2) | Inr pool' \<Rightarrow> (Inr pool', h2))"
    using False k f by (simp add: srp_create_fr_pool_def kzalloc_def Let_def split: sum.splits)
  show ?thesis
  proof (cases r)
    case (Inl rp)
    with create assms l2 show ?thesis
      by (cases rp) (auto simp: live_destroy_fr_pool pool_of_fill_def)
  next
    case (Inr pool')
    with create assms have res: "res = Inr pool'" "h' = h2" by auto
    have s: "frp_free_list pool' = [0..<nat n] \<and> length (frp_desc pool') = nat n \<and>
        (\<forall>i < nat n. fr_mr (frp_desc pool' ! i) \<noteq> None \<and> fr_frpl (frp_desc pool' ! i) \<noteq> None)"
      using fill_succeeded [OF _ u, of V ?h1 pool' h2] f Inr by simp
    then have "list_all (\<lambda>d. fr_mr d \<noteq> None \<and> fr_frpl d \<noteq> None) (frp_desc pool')"
      by (auto simp: list_all_length)
    with s False res l2 Inr show ?thesis
      by (simp add: live_destroy_fr_pool pool_of_fill_def)
  qed
qed

text \<open>C21. Creating a fast registration pool either yields a pool of the requested size in which
  every descriptor owns a memory region and a page list and is free, or releases everything that had
  been allocated on the way: the live resources are then exactly those from before the call. Destroying
  a pool that was created releases exactly the resources of that pool.\<close>

theorem fr_pool_create_all_or_nothing:
  assumes "srp_create_fr_pool V n mx h = (res, h')"
  shows "case res of
     Inl ret \<Rightarrow> hw_live h' = hw_live h
   | Inr pool \<Rightarrow> 0 < n \<and> frp_free_list pool = [0..<nat n] \<and> length (frp_desc pool) = nat n \<and>
       list_all (\<lambda>d. fr_mr d \<noteq> None \<and> fr_frpl d \<noteq> None) (frp_desc pool) \<and>
       hw_live (srp_destroy_fr_pool (Some pool) h') = hw_live h"
  by (rule create_fr_pool_result [OF assms])

theorem fr_pool_create_all_or_nothing_witness:
  "(\<exists>pool h'. srp_create_fr_pool (example_verbs 9) 2 4 \<lparr>hw_env = 1, hw_log = []\<rparr> = (Inr pool, h') \<and>
      frp_free_list pool = [0, 1] \<and> hw_live (srp_destroy_fr_pool (Some pool) h') = {#}) \<and>
   (\<exists>h'. srp_create_fr_pool (example_verbs 4) 2 4 \<lparr>hw_env = 1, hw_log = []\<rparr> = (Inl (- ENOMEM), h') \<and>
      hw_live h' = {#})"
proof -
  let ?h = "\<lparr>hw_env = 1 :: nat, hw_log = []\<rparr>"
  have up: "[0..<2] = [0, 1 :: nat]" by (simp add: upt_rec)
  have "\<exists>pool h'. srp_create_fr_pool (example_verbs 9) 2 4 ?h = (Inr pool, h')"
    by (simp add: srp_create_fr_pool_def kzalloc_def example_verbs_def Let_def up logged_def
        ib_alloc_fast_reg_mr_def ib_alloc_fast_reg_page_list_def)
  then obtain pool h' where ok: "srp_create_fr_pool (example_verbs 9) 2 4 ?h = (Inr pool, h')"
    by blast
  have "\<exists>h'. srp_create_fr_pool (example_verbs 4) 2 4 ?h = (Inl (- ENOMEM), h')"
    by (simp add: srp_create_fr_pool_def kzalloc_def example_verbs_def Let_def up logged_def
        ib_alloc_fast_reg_mr_def ib_alloc_fast_reg_page_list_def)
  then obtain h'' where fail: "srp_create_fr_pool (example_verbs 4) 2 4 ?h = (Inl (- ENOMEM), h'')"
    by blast
  show ?thesis
    using fr_pool_create_all_or_nothing [OF ok] fr_pool_create_all_or_nothing [OF fail] ok fail up
    by auto
qed



end
