(* ===== verification/SRP_Mapping.thy ===== *)
theory SRP_Mapping
  imports SRP_Fr_Pool
begin

text \<open>
  Mapping the scatter/gather list of a command for remote access: \<^verbatim>\<open>srp_map_desc()\<close> to
  \<^verbatim>\<open>srp_map_data()\<close> and \<^verbatim>\<open>srp_unmap_data()\<close> of \<^verbatim>\<open>src/drivers/infiniband/ulp/srp/ib_srp.c\<close>, with
  \<^verbatim>\<open>ib_inc_rkey()\<close> of \<^verbatim>\<open>src/include/linux/backport.h\<close> and \<^verbatim>\<open>ib_update_fast_reg_key()\<close> of
  \<^verbatim>\<open>src/include/rdma/ib_verbs.h\<close>.

  The functions write descriptors, memory descriptors and page addresses through pointers that walk
  along arrays of the request. The model keeps the written part of each array as a list; \<open>None\<close> as
  a result stands for a NULL pointer that is followed or a loop that does not end.
\<close>

section \<open>State\<close>

record srp_device =
  dev_mr :: "nat option"
  dev_mr_page_mask :: u64
  dev_mr_page_size :: int
  dev_mr_max_size :: int
  dev_max_pages_per_mr :: int
  dev_has_fmr :: bool
  dev_has_fr :: bool
  dev_use_fast_reg :: bool

datatype mem_desc = FR_desc nat | FMR_desc ib_pool_fmr

record srp_map_state =
  ms_mdescs :: "mem_desc list"
  ms_desc :: "srp_direct_buf list"
  ms_pages :: "u64 list"
  ms_base_dma_addr :: u64
  ms_dma_len :: u32
  ms_total_len :: u32
  ms_nmdesc :: nat
  ms_ndesc :: nat
  ms_unmapped_sg :: "dma_sg option"
  ms_unmapped_index :: nat
  ms_unmapped_addr :: u64

definition zeroed_map_state :: srp_map_state where
  "zeroed_map_state = \<lparr>ms_mdescs = [], ms_desc = [], ms_pages = [], ms_base_dma_addr = 0,
     ms_dma_len = 0, ms_total_len = 0, ms_nmdesc = 0, ms_ndesc = 0, ms_unmapped_sg = None,
     ms_unmapped_index = 0, ms_unmapped_addr = 0\<rparr>"

text \<open>What the functions read of the device, the target port, the channel and the module
  parameters, and what they change: the mapping state, the descriptor pool of the channel and the
  world behind the verbs.\<close>

record map_cfg =
  mp_dev :: srp_device
  mp_rkey :: u32
  mp_register_always :: bool
  mp_qp :: nat
  mp_fmr_pool :: "nat option"
  mp_lkey :: u32
  mp_cmd_sg_cnt :: u32
  mp_allow_ext_sg :: bool
  mp_enable_imm_data :: bool
  mp_buf_fmt :: u16
  mp_max_it_iu_len :: u32

record 'e map_ctx =
  mc_state :: srp_map_state
  mc_fr_pool :: "srp_fr_pool option"
  mc_hw :: "'e hw"

abbreviation npages :: "'e map_ctx \<Rightarrow> nat" where
  "npages c \<equiv> length (ms_pages (mc_state c))"

definition upd_state :: "(srp_map_state \<Rightarrow> srp_map_state) \<Rightarrow> 'e map_ctx \<Rightarrow> 'e map_ctx" where
  "upd_state f c = c\<lparr>mc_state := f (mc_state c)\<rparr>"

lemma upd_state_simps [simp]:
  "mc_state (upd_state f c) = f (mc_state c)"
  "mc_fr_pool (upd_state f c) = mc_fr_pool c"
  "mc_hw (upd_state f c) = mc_hw c"
  by (simp_all add: upd_state_def)

section \<open>Keys\<close>

definition ib_inc_rkey :: "u32 \<Rightarrow> u32" where
  "ib_inc_rkey rkey = (let mask = 0x000000ff in ((rkey + 1) AND mask) OR (rkey AND NOT mask))"

definition ib_update_fast_reg_key :: "ib_mr \<Rightarrow> u8 \<Rightarrow> ib_mr" where
  "ib_update_fast_reg_key mr newkey = mr\<lparr>
     mr_lkey := (mr_lkey mr AND 0xffffff00) OR ucast newkey,
     mr_rkey := (mr_rkey mr AND 0xffffff00) OR ucast newkey\<rparr>"

fun ilog2 :: "nat \<Rightarrow> nat" where
  "ilog2 n = (if n < 2 then 0 else Suc (ilog2 (n div 2)))"

declare ilog2.simps [simp del]

section \<open>Descriptors\<close>

definition srp_map_desc :: "u64 \<Rightarrow> u32 \<Rightarrow> u32 \<Rightarrow> srp_map_state \<Rightarrow> srp_map_state" where
  "srp_map_desc dma_addr dma_len rkey s = s\<lparr>
     ms_desc := ms_desc s @ [\<lparr>db_va = cpu_to_be64 dma_addr, db_key = cpu_to_be32 rkey,
                              db_len = cpu_to_be32 dma_len\<rparr>],
     ms_total_len := ms_total_len s + dma_len,
     ms_ndesc := ms_ndesc s + 1\<rparr>"

definition srp_map_finish_fmr ::
    "'e verbs \<Rightarrow> map_cfg \<Rightarrow> 'e map_ctx \<Rightarrow> (int \<times> 'e map_ctx) option" where
  "srp_map_finish_fmr V cfg c = (case mp_fmr_pool cfg of
     None \<Rightarrow> None
   | Some pool \<Rightarrow> Some
       (case ib_fmr_pool_map_phys V pool (ms_pages (mc_state c)) (mc_hw c) of
          (Inl err, h) \<Rightarrow> (err, c\<lparr>mc_hw := h\<rparr>)
        | (Inr fmr, h) \<Rightarrow>
            (0, upd_state (\<lambda>s. srp_map_desc 0 (ms_dma_len s) (fmr_rkey fmr)
                   (s\<lparr>ms_mdescs := ms_mdescs s @ [FMR_desc fmr], ms_nmdesc := ms_nmdesc s + 1\<rparr>))
                (c\<lparr>mc_hw := h\<rparr>))))"

definition srp_map_finish_fr ::
    "'e verbs \<Rightarrow> map_cfg \<Rightarrow> 'e map_ctx \<Rightarrow> (int \<times> 'e map_ctx) option" where
  "srp_map_finish_fr V cfg c = (case mc_fr_pool c of
     None \<Rightarrow> None
   | Some pool \<Rightarrow>
     (case srp_fr_pool_get pool of
        (None, pool1) \<Rightarrow> Some (- ENOMEM, c\<lparr>mc_fr_pool := Some pool1\<rparr>)
      | (Some d, pool1) \<Rightarrow>
        (case fr_mr (frp_desc pool1 ! d) of
           None \<Rightarrow> None
         | Some mr \<Rightarrow>
           (let rkey = ib_inc_rkey (mr_rkey mr);
                mr1 = ib_update_fast_reg_key mr (ucast rkey);
                s = mc_state c;
                desc = (frp_desc pool1 ! d)\<lparr>fr_mr := Some mr1, fr_page_list := ms_pages s\<rparr>;
                pool2 = pool1\<lparr>frp_desc := (frp_desc pool1)[d := desc]\<rparr>;
                wr = WR_FAST_REG_MR FAST_REG_WR_ID_MASK (ms_base_dma_addr s) (ms_pages s)
                       (ilog2 (nat (dev_mr_page_size (mp_dev cfg)))) (ms_dma_len s) (mr_lkey mr1);
                s1 = srp_map_desc (ms_base_dma_addr s) (ms_dma_len s) (mr_rkey mr1)
                       (s\<lparr>ms_mdescs := ms_mdescs s @ [FR_desc d], ms_nmdesc := ms_nmdesc s + 1\<rparr>)
            in case ib_post_send V (mp_qp cfg) wr (mc_hw c) of
                 (ret, h) \<Rightarrow> Some (ret, \<lparr>mc_state = s1, mc_fr_pool = Some pool2, mc_hw = h\<rparr>)))))"

definition srp_map_finish_mr ::
    "'e verbs \<Rightarrow> map_cfg \<Rightarrow> 'e map_ctx \<Rightarrow> (int \<times> 'e map_ctx) option" where
  "srp_map_finish_mr V cfg c =
     (if dev_use_fast_reg (mp_dev cfg) then srp_map_finish_fr V cfg c
      else srp_map_finish_fmr V cfg c)"

definition srp_finish_mapping ::
    "'e verbs \<Rightarrow> map_cfg \<Rightarrow> 'e map_ctx \<Rightarrow> (int \<times> 'e map_ctx) option" where
  "srp_finish_mapping V cfg c =
     (let s = mc_state c in
      if npages c = 0 then Some (0, c)
      else map_option
        (\<lambda>(ret, c1). if ret = 0
           then (0, upd_state (\<lambda>s. s\<lparr>ms_pages := [], ms_dma_len := 0\<rparr>) c1) else (ret, c1))
        (if npages c = 1 \<and> \<not> mp_register_always cfg
         then Some (0, upd_state (srp_map_desc (ms_base_dma_addr s) (ms_dma_len s) (mp_rkey cfg)) c)
         else srp_map_finish_mr V cfg c))"

definition srp_map_update_start ::
    "dma_sg option \<Rightarrow> nat \<Rightarrow> u64 \<Rightarrow> srp_map_state \<Rightarrow> srp_map_state" where
  "srp_map_update_start sg sg_index dma_addr s = s\<lparr>
     ms_unmapped_sg := sg, ms_unmapped_index := sg_index, ms_unmapped_addr := dma_addr\<rparr>"

section \<open>Scatter/gather lists\<close>

definition page_offset :: "map_cfg \<Rightarrow> u64 \<Rightarrow> u32" where
  "page_offset cfg a = ucast (a AND NOT (dev_mr_page_mask (mp_dev cfg)))"

text \<open>One page of the \<^verbatim>\<open>while\<close> loop of \<^verbatim>\<open>srp_map_sg_entry()\<close> after the check for a full list.\<close>

definition srp_map_page :: "map_cfg \<Rightarrow> u64 \<Rightarrow> u32 \<Rightarrow> srp_map_state \<Rightarrow> srp_map_state" where
  "srp_map_page cfg dma_addr len s = s\<lparr>
     ms_base_dma_addr := (if ms_pages s = [] then dma_addr else ms_base_dma_addr s),
     ms_pages := ms_pages s @ [dma_addr AND dev_mr_page_mask (mp_dev cfg)],
     ms_dma_len := ms_dma_len s + len\<rparr>"

partial_function (option) srp_map_pages ::
    "'e verbs \<Rightarrow> map_cfg \<Rightarrow> dma_sg \<Rightarrow> nat \<Rightarrow> u64 \<Rightarrow> u32 \<Rightarrow> u32 \<Rightarrow> 'e map_ctx \<Rightarrow>
     ((int + u32) \<times> 'e map_ctx) option" where
  "srp_map_pages V cfg sg sg_index dma_addr dma_len len c =
     (if dma_len = 0 then Some (Inr len, c)
      else let dev = mp_dev cfg; offset = page_offset cfg dma_addr in
        Option.bind
          (if of_nat (npages c) = (word_of_int (dev_max_pages_per_mr dev) :: u32) \<or> offset \<noteq> 0
           then map_option
             (\<lambda>(ret, c1). (ret, if ret \<noteq> 0 then c1
                else upd_state (srp_map_update_start (Some sg) sg_index dma_addr) c1))
             (srp_finish_mapping V cfg c)
           else Some (0, c))
          (\<lambda>(ret, c1).
             if ret \<noteq> 0 then Some (Inl ret, c1)
             else let len1 = min dma_len (word_of_int (dev_mr_page_size dev) - offset) in
               srp_map_pages V cfg sg sg_index (dma_addr + ucast len1) (dma_len - len1) len1
                 (upd_state (srp_map_page cfg dma_addr len1) c1)))"

definition srp_map_sg_entry ::
    "'e verbs \<Rightarrow> map_cfg \<Rightarrow> dma_sg \<Rightarrow> nat \<Rightarrow> bool \<Rightarrow> 'e map_ctx \<Rightarrow> (int \<times> 'e map_ctx) option" where
  "srp_map_sg_entry V cfg sg sg_index use_mr c =
     (let dev = mp_dev cfg; dma_addr = sg_addr sg; dma_len = sg_len sg in
      if dma_len = 0 then Some (0, c)
      else if \<not> use_mr
      then Some (0, upd_state (srp_map_desc dma_addr dma_len (mp_rkey cfg)) c)
      else if (\<not> dev_use_fast_reg dev \<and> dma_addr AND NOT (dev_mr_page_mask dev) \<noteq> 0) \<or>
              dma_len > word_of_int (dev_mr_max_size dev)
      then map_option
        (\<lambda>(ret, c1). if ret \<noteq> 0 then (ret, c1)
           else (0, upd_state (\<lambda>s. srp_map_update_start None 0 0
                      (srp_map_desc dma_addr dma_len (mp_rkey cfg) s)) c1))
        (srp_finish_mapping V cfg c)
      else
        let c0 = (if ms_unmapped_sg (mc_state c) = None
                  then upd_state (srp_map_update_start (Some sg) sg_index dma_addr) c else c)
        in Option.bind (srp_map_pages V cfg sg sg_index dma_addr dma_len 0 c0)
          (\<lambda>(r, c1). case r of
             Inl ret \<Rightarrow> Some (ret, c1)
           | Inr len \<Rightarrow>
               if len \<noteq> word_of_int (dev_mr_page_size dev)
               then map_option
                 (\<lambda>(ret, c2). (ret, if ret = 0
                    then upd_state (srp_map_update_start None 0 0) c2 else c2))
                 (srp_finish_mapping V cfg c1)
               else Some (0, c1)))"

text \<open>
  The loop of \<^verbatim>\<open>srp_map_sg()\<close>, with the code at the label \<^verbatim>\<open>backtrack\<close>. \<open>i\<close> is the
  index of the next entry.
\<close>

definition srp_backtrack :: "map_cfg \<Rightarrow> 'e map_ctx \<Rightarrow> (nat \<times> 'e map_ctx) option" where
  "srp_backtrack cfg c = (case ms_unmapped_sg (mc_state c) of
     None \<Rightarrow> None
   | Some sg \<Rightarrow>
       (let s = mc_state c;
            dma_len = sg_len sg - ucast (ms_unmapped_addr s - sg_addr sg);
            dma_addr = ms_unmapped_addr s
        in Some (ms_unmapped_index s, upd_state (srp_map_desc dma_addr dma_len (mp_rkey cfg)) c)))"

partial_function (option) srp_map_sg_loop ::
    "'e verbs \<Rightarrow> map_cfg \<Rightarrow> dma_sg list \<Rightarrow> bool \<Rightarrow> nat \<Rightarrow> 'e map_ctx \<Rightarrow> 'e map_ctx option" where
  "srp_map_sg_loop V cfg scat use_mr i c =
     Option.bind
       (if i < length scat then srp_map_sg_entry V cfg (scat ! i) i use_mr c
        else if use_mr then srp_finish_mapping V cfg c else Some (0, c))
       (\<lambda>(ret, c1).
          if ret \<noteq> 0
          then Option.bind (srp_backtrack cfg c1)
                 (\<lambda>(j, c2). srp_map_sg_loop V cfg scat False (Suc j) c2)
          else if i < length scat then srp_map_sg_loop V cfg scat use_mr (Suc i) c1
          else Some c1)"

definition srp_map_sg ::
    "'e verbs \<Rightarrow> map_cfg \<Rightarrow> dma_sg list \<Rightarrow> 'e map_ctx \<Rightarrow> 'e map_ctx option" where
  "srp_map_sg V cfg scat c =
     (let use_mr = (if dev_use_fast_reg (mp_dev cfg) then mc_fr_pool c \<noteq> None
                    else mp_fmr_pool cfg \<noteq> None)
      in srp_map_sg_loop V cfg scat use_mr 0 c)"

section \<open>Addresses\<close>

definition addr_range :: "u64 \<Rightarrow> nat \<Rightarrow> u64 list" where
  "addr_range a n = map (\<lambda>i. a + of_nat i) [0..<n]"

lemma length_addr_range [simp]: "length (addr_range a n) = n"
  by (simp add: addr_range_def)

lemma addr_range_0 [simp]: "addr_range a 0 = []"
  by (simp add: addr_range_def)

lemma addr_range_add: "addr_range a (n + m) = addr_range a n @ addr_range (a + of_nat n) m"
  by (rule nth_equalityI) (auto simp: addr_range_def nth_append ac_simps simp flip: of_nat_add)

lemma take_addr_range: "take k (addr_range a n) = addr_range a (min k n)"
  by (simp add: addr_range_def take_map min_def)

lemma drop_addr_range: "drop k (addr_range a n) = addr_range (a + of_nat k) (n - k)"
proof (cases "k \<le> n")
  case True
  then have "addr_range a n = addr_range a k @ addr_range (a + of_nat k) (n - k)"
    using addr_range_add [of a k "n - k"] by simp
  then show ?thesis by simp
qed simp

text \<open>What \<^verbatim>\<open>srp_add_one()\<close> sets up: pages of a power of two bytes and the mask of the page number.\<close>

definition dev_ok :: "srp_device \<Rightarrow> bool" where
  "dev_ok d \<longleftrightarrow> (\<exists>k < 31. dev_mr_page_size d = 2 ^ k \<and> dev_mr_page_mask d = NOT (mask k) \<and>
     0 < dev_max_pages_per_mr d \<and>
     dev_mr_max_size d = dev_mr_page_size d * dev_max_pages_per_mr d \<and> dev_mr_max_size d < 2 ^ 31)"

abbreviation page_size :: "map_cfg \<Rightarrow> nat" where
  "page_size cfg \<equiv> nat (dev_mr_page_size (mp_dev cfg))"

abbreviation max_pages :: "map_cfg \<Rightarrow> nat" where
  "max_pages cfg \<equiv> nat (dev_max_pages_per_mr (mp_dev cfg))"

lemma dev_okE:
  assumes "dev_ok (mp_dev cfg)"
  obtains k where "k < 31" "page_size cfg = 2 ^ k" "dev_mr_page_mask (mp_dev cfg) = NOT (mask k)"
    "dev_mr_page_size (mp_dev cfg) = int (page_size cfg)"
    "dev_max_pages_per_mr (mp_dev cfg) = int (max_pages cfg)"
    "dev_mr_max_size (mp_dev cfg) = int (page_size cfg * max_pages cfg)"
    "0 < page_size cfg" "0 < max_pages cfg" "page_size cfg * max_pages cfg < 2 ^ 31"
    "page_size cfg < 2 ^ 31" "max_pages cfg < 2 ^ 31"
proof -
  let ?d = "mp_dev cfg"
  obtain k where k: "k < 31" "dev_mr_page_size ?d = 2 ^ k" "dev_mr_page_mask ?d = NOT (mask k)"
    "0 < dev_max_pages_per_mr ?d" "dev_mr_max_size ?d = dev_mr_page_size ?d * dev_max_pages_per_mr ?d"
    "dev_mr_max_size ?d < 2 ^ 31"
    using assms by (auto simp: dev_ok_def)
  have ps: "page_size cfg = 2 ^ k" using k(2) by (simp add: nat_power_eq)
  have prod: "dev_mr_max_size ?d = int (page_size cfg * max_pages cfg)"
    using k(2,4,5) by simp
  then have lt: "page_size cfg * max_pages cfg < 2 ^ 31"
    using k(6) by (metis of_nat_less_iff of_nat_numeral of_nat_power)
  have "1 \<le> page_size cfg" "1 \<le> max_pages cfg" using k(4) by (simp_all add: ps)
  then have "page_size cfg \<le> page_size cfg * max_pages cfg" "max_pages cfg \<le> page_size cfg * max_pages cfg"
    by simp_all
  with lt have "page_size cfg < 2 ^ 31" "max_pages cfg < 2 ^ 31" by linarith+
  with k ps prod lt show thesis by (intro that [of k]) simp_all
qed

lemma unat_page_offset:
  assumes "dev_ok (mp_dev cfg)"
  shows "unat (page_offset cfg a) = unat a mod page_size cfg"
proof -
  obtain k where k: "k < 31" "page_size cfg = 2 ^ k" "dev_mr_page_mask (mp_dev cfg) = NOT (mask k)"
    using assms by (rule dev_okE)
  have "page_offset cfg a = ucast (take_bit k a)"
    using k by (simp add: page_offset_def take_bit_eq_mask)
  then have "unat (page_offset cfg a) = take_bit 32 (take_bit k (unat a))"
    by (simp add: unsigned_ucast_eq unsigned_take_bit_eq min.commute)
  also have "\<dots> = unat a mod 2 ^ k"
    using k(1) by (simp only: take_bit_take_bit) (simp add: take_bit_eq_mod)
  finally show ?thesis unfolding k(2) .
qed

lemma page_offset_less:
  "dev_ok (mp_dev cfg) \<Longrightarrow> unat (page_offset cfg a) < page_size cfg"
  by (metis dev_okE mod_less_divisor unat_page_offset)

lemma page_base_plus_offset:
  assumes "dev_ok (mp_dev cfg)"
  shows "(a AND dev_mr_page_mask (mp_dev cfg)) + of_nat (unat (page_offset cfg a)) = a"
proof -
  obtain k where k: "k < 31" "page_size cfg = 2 ^ k" "dev_mr_page_mask (mp_dev cfg) = NOT (mask k)"
    using assms by (rule dev_okE)
  have "of_nat (unat (page_offset cfg a)) = take_bit k a"
  proof -
    have "unat (page_offset cfg a) = unat (take_bit k a)"
      unfolding unat_page_offset [OF assms] k(2)
      by (simp only: unsigned_take_bit_eq take_bit_eq_mod [symmetric])
    then show ?thesis by simp
  qed
  moreover have "(a AND NOT (mask k)) + take_bit k a = (a AND NOT (mask k)) OR take_bit k a"
    by (rule disjunctive_add) (auto simp: bit_simps)
  moreover have "(a AND NOT (mask k)) OR take_bit k a = a"
    by (rule bit_word_eqI) (auto simp: bit_simps)
  ultimately show ?thesis using k by simp
qed

section \<open>What descriptors give access to\<close>

definition page_addrs :: "map_cfg \<Rightarrow> u64 \<Rightarrow> u64 list" where
  "page_addrs cfg p = addr_range p (page_size cfg)"

text \<open>The DMA addresses a descriptor lets the target access, in order: the key of the target port
  covers all memory one to one, any other key is translated by the HCA.\<close>

definition desc_addrs :: "map_cfg \<Rightarrow> mr_table \<Rightarrow> srp_direct_buf \<Rightarrow> u64 list" where
  "desc_addrs cfg T d =
     (let va = be64_to_cpu (db_va d); key = be32_to_cpu (db_key d);
          len = unat (be32_to_cpu (db_len d))
      in if key = mp_rkey cfg then addr_range va len
         else case T key of None \<Rightarrow> []
           | Some (iova, pages) \<Rightarrow>
               take len (drop (unat (va - iova) + unat (page_offset cfg iova))
                 (concat (map (page_addrs cfg) pages))))"

definition sg_bytes :: "dma_sg \<Rightarrow> u64 list" where
  "sg_bytes sg = addr_range (sg_addr sg) (unat (sg_len sg))"

abbreviation sgs_bytes :: "dma_sg list \<Rightarrow> u64 list" where
  "sgs_bytes sgs \<equiv> concat (map sg_bytes sgs)"

definition mapped :: "map_cfg \<Rightarrow> 'e map_ctx \<Rightarrow> u64 list" where
  "mapped cfg c = concat (map (desc_addrs cfg (hw_table (mc_hw c))) (ms_desc (mc_state c)))"

text \<open>The addresses collected in \<^verbatim>\<open>pages\<close> that no descriptor covers yet.\<close>

definition pending :: "map_cfg \<Rightarrow> srp_map_state \<Rightarrow> u64 list" where
  "pending cfg s = (if ms_pages s = [] then []
     else take (unat (ms_dma_len s)) (drop (unat (page_offset cfg (ms_base_dma_addr s)))
            (concat (map (page_addrs cfg) (ms_pages s)))))"

definition pending_ok :: "map_cfg \<Rightarrow> srp_map_state \<Rightarrow> bool" where
  "pending_ok cfg s \<longleftrightarrow>
     (if ms_pages s = [] then ms_dma_len s = 0
      else hd (ms_pages s) = ms_base_dma_addr s AND dev_mr_page_mask (mp_dev cfg) \<and>
        length (ms_pages s) \<le> max_pages cfg \<and>
        unat (ms_dma_len s) + unat (page_offset cfg (ms_base_dma_addr s))
          \<le> length (ms_pages s) * page_size cfg)"

text \<open>All pages collected are used up to their end, so another page can be appended.\<close>

definition pending_full :: "map_cfg \<Rightarrow> srp_map_state \<Rightarrow> bool" where
  "pending_full cfg s \<longleftrightarrow> (ms_pages s \<noteq> [] \<longrightarrow>
     unat (ms_dma_len s) + unat (page_offset cfg (ms_base_dma_addr s)) =
       length (ms_pages s) * page_size cfg)"

lemma length_page_addrs [simp]: "length (page_addrs cfg p) = page_size cfg"
  by (simp add: page_addrs_def)

lemma length_pages_addrs [simp]:
  "length (concat (map (page_addrs cfg) ps)) = length ps * page_size cfg"
  by (induction ps) simp_all

lemma length_pending:
  assumes "dev_ok (mp_dev cfg)" and "pending_ok cfg s"
  shows "length (pending cfg s) = unat (ms_dma_len s)"
  using assms(2) by (auto simp: pending_def pending_ok_def)

lemma drop_page_addrs:
  assumes "dev_ok (mp_dev cfg)"
  shows "drop (unat (page_offset cfg a)) (page_addrs cfg (a AND dev_mr_page_mask (mp_dev cfg))) =
         addr_range a (page_size cfg - unat (page_offset cfg a))"
  unfolding page_addrs_def drop_addr_range page_base_plus_offset [OF assms] ..

lemma pending_single:
  assumes "dev_ok (mp_dev cfg)" and "pending_ok cfg s" and "length (ms_pages s) = 1"
  shows "pending cfg s = addr_range (ms_base_dma_addr s) (unat (ms_dma_len s))"
proof -
  obtain p where p: "ms_pages s = [p]" using assms(3) by (metis One_nat_def length_0_conv length_Suc_conv)
  have "p = ms_base_dma_addr s AND dev_mr_page_mask (mp_dev cfg)"
    and l: "unat (ms_dma_len s) + unat (page_offset cfg (ms_base_dma_addr s)) \<le> page_size cfg"
    using assms(2) p by (simp_all add: pending_ok_def)
  then have "pending cfg s = take (unat (ms_dma_len s)) (addr_range (ms_base_dma_addr s)
      (page_size cfg - unat (page_offset cfg (ms_base_dma_addr s))))"
    using p by (simp add: pending_def drop_page_addrs [OF assms(1)])
  moreover have "unat (ms_dma_len s) \<le> page_size cfg - unat (page_offset cfg (ms_base_dma_addr s))"
    using l by linarith
  ultimately show ?thesis by (simp add: take_addr_range min_absorb1)
qed

text \<open>The effect of \<open>srp_map_page\<close>.\<close>

lemma map_page:
  assumes dev: "dev_ok (mp_dev cfg)" and ok: "pending_ok cfg s" and full: "pending_full cfg s"
    and less: "length (ms_pages s) < max_pages cfg"
    and aligned: "ms_pages s \<noteq> [] \<Longrightarrow> page_offset cfg a = 0"
    and len: "unat len \<le> page_size cfg - unat (page_offset cfg a)"
  defines "s' \<equiv> srp_map_page cfg a len s"
  shows "pending cfg s' = pending cfg s @ addr_range a (unat len)"
    and "pending_ok cfg s'"
    and "unat len = page_size cfg - unat (page_offset cfg a) \<Longrightarrow> pending_full cfg s'"
proof -
  let ?off = "unat (page_offset cfg a)" and ?boff = "unat (page_offset cfg (ms_base_dma_addr s))"
  let ?ps = "page_size cfg"
  have off: "?off < ?ps" "?boff < ?ps" using page_offset_less [OF dev] by simp_all
  have bound: "Suc (length (ms_pages s)) * ?ps < 2 ^ 31"
  proof -
    have "Suc (length (ms_pages s)) * ?ps \<le> max_pages cfg * ?ps"
      using less by (intro mult_le_mono1) simp
    then show ?thesis by (rule order_le_less_trans) (rule dev_okE [OF dev], simp add: mult.commute)
  qed
  have dlen: "unat (ms_dma_len s + len) = unat (ms_dma_len s) + unat len"
  proof (rule unat_add_lem [THEN iffD1])
    have "unat (ms_dma_len s) \<le> length (ms_pages s) * ?ps"
      using ok by (cases "ms_pages s = []") (simp_all add: pending_ok_def)
    then show "unat (ms_dma_len s) + unat len < 2 ^ LENGTH(32)"
      using bound len by simp
  qed
  show "pending cfg s' = pending cfg s @ addr_range a (unat len)"
  proof (cases "ms_pages s = []")
    case True
    then have "ms_dma_len s = 0" using ok by (simp add: pending_ok_def)
    with True len show ?thesis
      by (simp add: s'_def srp_map_page_def pending_def drop_page_addrs [OF dev] take_addr_range min_def)
  next
    case False
    let ?b = "concat (map (page_addrs cfg) (ms_pages s))"
    have lb: "length (drop ?boff ?b) = unat (ms_dma_len s)" "?boff \<le> length ?b"
      using full False by (simp_all add: pending_full_def)
    have "a AND dev_mr_page_mask (mp_dev cfg) = a"
      using page_base_plus_offset [OF dev, of a] aligned [OF False] by simp
    moreover have "unat len \<le> ?ps" using len by simp
    ultimately show ?thesis using False lb dlen
      by (simp add: s'_def srp_map_page_def pending_def page_addrs_def take_addr_range min_def
          del: length_pages_addrs length_drop)
  qed
  show "pending_ok cfg s'"
    using ok less len off dlen aligned
    by (auto simp: s'_def srp_map_page_def pending_ok_def hd_append split: if_splits)
  show "pending_full cfg s'" if "unat len = ?ps - ?off"
    using that full off dlen aligned ok
    by (auto simp: s'_def srp_map_page_def pending_full_def pending_ok_def)
qed

end
