(* ===== verification/SRP_Map_Correct.thy ===== *)
theory SRP_Map_Correct
  imports SRP_Mapping
begin

text \<open>
  Correctness of the mapping of scatter/gather lists. The contract \<open>registration\<close> says what closing
  the pending pages has to achieve; inside it the loops of \<^verbatim>\<open>srp_map_sg_entry()\<close> and \<^verbatim>\<open>srp_map_sg()\<close> are
  proved to describe exactly the bytes of the list, whichever call fails in between, with a bound on the
  number of descriptors. The contract is interpreted for FMR pools (\<^verbatim>\<open>srp_map_finish_fmr()\<close>)
  and for fast registration (\<^verbatim>\<open>srp_map_finish_fr()\<close>).
\<close>

section \<open>The contract of memory registration\<close>

definition counts_ok :: "srp_map_state \<Rightarrow> bool" where
  "counts_ok s \<longleftrightarrow> ms_ndesc s = length (ms_desc s) \<and> ms_nmdesc s = length (ms_mdescs s) \<and>
     ms_nmdesc s \<le> ms_ndesc s \<and> list_all wf_direct_buf (ms_desc s)"

lemma wf_direct_buf_cpu [simp]:
  "wf_direct_buf \<lparr>db_va = cpu_to_be64 a, db_key = cpu_to_be32 k, db_len = cpu_to_be32 l\<rparr>"
  by (simp add: wf_direct_buf_def)

definition base_ok :: "map_cfg \<Rightarrow> srp_map_state \<Rightarrow> bool" where
  "base_ok cfg s \<longleftrightarrow> (\<not> dev_use_fast_reg (mp_dev cfg) \<and> ms_pages s \<noteq> [] \<longrightarrow>
     page_offset cfg (ms_base_dma_addr s) = 0)"

text \<open>\<open>registers cfg c ret c'\<close>: if \<open>ret\<close> is zero, the pending pages have become accessible through
  one more descriptor; otherwise the descriptors are as before.\<close>

definition registers :: "map_cfg \<Rightarrow> 'e map_ctx \<Rightarrow> int \<Rightarrow> 'e map_ctx \<Rightarrow> bool" where
  "registers cfg c ret c' \<longleftrightarrow>
     mapped cfg c' = mapped cfg c @ (if ret = 0 then pending cfg (mc_state c) else []) \<and>
     (counts_ok (mc_state c) \<longrightarrow> counts_ok (mc_state c')) \<and>
     mc_state c' = (mc_state c)\<lparr>
       ms_mdescs := ms_mdescs (mc_state c'), ms_desc := ms_desc (mc_state c'),
       ms_nmdesc := ms_nmdesc (mc_state c'),
       ms_total_len := ms_total_len (mc_state c) + (if ret = 0 then ms_dma_len (mc_state c) else 0),
       ms_ndesc := ms_ndesc (mc_state c) + (if ret = 0 then 1 else 0)\<rparr>"

locale registration =
  fixes ok :: "'e verbs \<Rightarrow> map_cfg \<Rightarrow> srp_direct_buf list \<Rightarrow> srp_fr_pool option \<Rightarrow> 'e hw \<Rightarrow> bool"
  assumes finish_mr: "\<lbrakk>ok V cfg (ms_desc (mc_state c)) (mc_fr_pool c) (mc_hw c);
      dev_ok (mp_dev cfg); ms_pages (mc_state c) \<noteq> []; pending_ok cfg (mc_state c);
      base_ok cfg (mc_state c)\<rbrakk> \<Longrightarrow>
      \<exists>ret c'. srp_map_finish_mr V cfg c = Some (ret, c') \<and> registers cfg c ret c' \<and>
        ok V cfg (ms_desc (mc_state c')) (mc_fr_pool c') (mc_hw c')"
    and rkey_desc: "ok V cfg ds p h \<Longrightarrow> be32_to_cpu (db_key d) = mp_rkey cfg \<Longrightarrow> ok V cfg (ds @ [d]) p h"

text \<open>The number of descriptors an entry can take: two if it starts within a page and is registered
  by fast registration, since it may then touch one page more than a region holds.\<close>

definition desc_cost :: "map_cfg \<Rightarrow> dma_sg \<Rightarrow> nat" where
  "desc_cost cfg sg =
     (if dev_use_fast_reg (mp_dev cfg) \<and> page_offset cfg (sg_addr sg) \<noteq> 0 then 2 else 1)"

abbreviation descs_cost :: "map_cfg \<Rightarrow> dma_sg list \<Rightarrow> nat" where
  "descs_cost cfg sgs \<equiv> sum_list (map (desc_cost cfg) sgs)"

text \<open>The state in which \<open>bytes\<close> have been looked at and no more than \<open>b\<close> descriptors
  are needed for them.\<close>

definition map_inv :: "map_cfg \<Rightarrow> u64 list \<Rightarrow> nat \<Rightarrow> 'e map_ctx \<Rightarrow> bool" where
  "map_inv cfg bytes b c \<longleftrightarrow>
     mapped cfg c @ pending cfg (mc_state c) = bytes \<and>
     pending_ok cfg (mc_state c) \<and> base_ok cfg (mc_state c) \<and> counts_ok (mc_state c) \<and>
     ms_total_len (mc_state c) = of_nat (length (mapped cfg c)) \<and>
     ms_ndesc (mc_state c) + (if ms_pages (mc_state c) = [] then 0 else 1) \<le> b"

text \<open>A state from which the code at \<^verbatim>\<open>backtrack\<close> can continue: everything before the recorded position is
  covered by descriptors.\<close>

definition resumable :: "map_cfg \<Rightarrow> dma_sg list \<Rightarrow> 'e map_ctx \<Rightarrow> bool" where
  "resumable cfg scat c \<longleftrightarrow>
     (let s = mc_state c; u = ms_unmapped_index s; sg = scat ! u;
          n = unat (ms_unmapped_addr s - sg_addr sg)
      in ms_unmapped_sg s = Some sg \<and> u < length scat \<and> n \<le> unat (sg_len sg) \<and>
         mapped cfg c = sgs_bytes (take u scat) @ addr_range (sg_addr sg) n \<and>
         counts_ok s \<and> ms_total_len s = of_nat (length (mapped cfg c)) \<and>
         ms_ndesc s + 1 \<le> descs_cost cfg (take (Suc u) scat))"

section \<open>Closing the pending pages\<close>

lemma map_desc_fields [simp]:
  "ms_pages (srp_map_desc a l k s) = ms_pages s"
  "ms_mdescs (srp_map_desc a l k s) = ms_mdescs s"
  "ms_nmdesc (srp_map_desc a l k s) = ms_nmdesc s"
  "ms_dma_len (srp_map_desc a l k s) = ms_dma_len s"
  "ms_base_dma_addr (srp_map_desc a l k s) = ms_base_dma_addr s"
  "ms_total_len (srp_map_desc a l k s) = ms_total_len s + l"
  "ms_ndesc (srp_map_desc a l k s) = Suc (ms_ndesc s)"
  "ms_unmapped_sg (srp_map_desc a l k s) = ms_unmapped_sg s"
  "ms_unmapped_index (srp_map_desc a l k s) = ms_unmapped_index s"
  "ms_unmapped_addr (srp_map_desc a l k s) = ms_unmapped_addr s"
  by (simp_all add: srp_map_desc_def)

lemma mapped_map_desc [simp]:
  "mapped cfg (upd_state (srp_map_desc a l (mp_rkey cfg)) c) = mapped cfg c @ addr_range a (unat l)"
  by (simp add: mapped_def srp_map_desc_def desc_addrs_def)

lemma mapped_frame:
  "ms_desc (f (mc_state c)) = ms_desc (mc_state c) \<Longrightarrow> mapped cfg (upd_state f c) = mapped cfg c"
  by (simp add: mapped_def)

lemma counts_ok_map_desc [simp]: "counts_ok s \<Longrightarrow> counts_ok (srp_map_desc a l k s)"
  by (simp add: counts_ok_def srp_map_desc_def)

definition finished :: "map_cfg \<Rightarrow> 'e map_ctx \<Rightarrow> int \<Rightarrow> 'e map_ctx \<Rightarrow> bool" where
  "finished cfg c ret c' \<longleftrightarrow>
     mapped cfg c' = mapped cfg c @ (if ret = 0 then pending cfg (mc_state c) else []) \<and>
     (counts_ok (mc_state c) \<longrightarrow> counts_ok (mc_state c')) \<and>
     (ret = 0 \<longrightarrow> ms_pages (mc_state c') = [] \<and> ms_dma_len (mc_state c') = 0) \<and>
     (ms_pages (mc_state c) = [] \<longrightarrow> ret = 0) \<and>
     ms_total_len (mc_state c') =
       ms_total_len (mc_state c) + (if ret = 0 then ms_dma_len (mc_state c) else 0) \<and>
     ms_ndesc (mc_state c') =
       ms_ndesc (mc_state c) + (if ret = 0 \<and> ms_pages (mc_state c) \<noteq> [] then 1 else 0) \<and>
     ms_unmapped_sg (mc_state c') = ms_unmapped_sg (mc_state c) \<and>
     ms_unmapped_index (mc_state c') = ms_unmapped_index (mc_state c) \<and>
     ms_unmapped_addr (mc_state c') = ms_unmapped_addr (mc_state c)"

lemma registers_finished:
  assumes "registers cfg c ret c'" and "ms_pages (mc_state c) \<noteq> []"
  shows "finished cfg c ret (if ret = 0
    then upd_state (\<lambda>s. s\<lparr>ms_pages := [], ms_dma_len := 0\<rparr>) c' else c')"
proof -
  note eq = assms(1) [unfolded registers_def, THEN conjunct2, THEN conjunct2]
  have "ms_unmapped_sg (mc_state c') = ms_unmapped_sg (mc_state c)"
    "ms_unmapped_index (mc_state c') = ms_unmapped_index (mc_state c)"
    "ms_unmapped_addr (mc_state c') = ms_unmapped_addr (mc_state c)"
    "ms_total_len (mc_state c') = ms_total_len (mc_state c) + (if ret = 0 then ms_dma_len (mc_state c) else 0)"
    "ms_ndesc (mc_state c') = ms_ndesc (mc_state c) + (if ret = 0 then 1 else 0)"
    by (subst eq, simp)+
  then show ?thesis using assms
    by (auto simp: finished_def registers_def mapped_frame counts_ok_def)
qed

context registration
begin

abbreviation ok_ctx :: "'e verbs \<Rightarrow> map_cfg \<Rightarrow> 'e map_ctx \<Rightarrow> bool" where
  "ok_ctx V cfg c \<equiv> ok V cfg (ms_desc (mc_state c)) (mc_fr_pool c) (mc_hw c)"

lemma ok_map_desc:
  "ok_ctx V cfg c \<Longrightarrow> ok_ctx V cfg (upd_state (srp_map_desc a l (mp_rkey cfg)) c)"
  by (simp add: srp_map_desc_def rkey_desc)

lemma finish_mapping:
  assumes "ok_ctx V cfg c" "dev_ok (mp_dev cfg)" "pending_ok cfg (mc_state c)" "base_ok cfg (mc_state c)"
  obtains ret c' where "srp_finish_mapping V cfg c = Some (ret, c')" "finished cfg c ret c'"
    "ok_ctx V cfg c'"
proof -
  consider (empty) "npages c = 0" | (one) "npages c = 1" "\<not> mp_register_always cfg"
    | (mr) "npages c \<noteq> 0" "\<not> (npages c = 1 \<and> \<not> mp_register_always cfg)" by blast
  then show thesis
  proof cases
    case empty
    then show thesis using assms
      by (intro that [of 0 c]) (simp_all add: srp_finish_mapping_def finished_def pending_def pending_ok_def)
  next
    case one
    let ?c = "upd_state (srp_map_desc (ms_base_dma_addr (mc_state c)) (ms_dma_len (mc_state c)) (mp_rkey cfg)) c"
    let ?c' = "upd_state (\<lambda>s. s\<lparr>ms_pages := [], ms_dma_len := 0\<rparr>) ?c"
    have "mapped cfg ?c' = mapped cfg c @ pending cfg (mc_state c)"
      using pending_single [OF assms(2,3)] one by (simp add: mapped_frame del: upd_state_simps)
    then have "finished cfg c 0 ?c'"
      using one by (auto simp: finished_def counts_ok_def srp_map_desc_def)
    moreover have "ok_ctx V cfg ?c'"
      using ok_map_desc [OF assms(1)] by simp
    moreover have "srp_finish_mapping V cfg c = Some (0, ?c')"
      using one by (simp add: srp_finish_mapping_def Let_def)
    ultimately show thesis by (intro that)
  next
    case mr
    then have ne: "ms_pages (mc_state c) \<noteq> []" by simp
    obtain ret c' where c': "srp_map_finish_mr V cfg c = Some (ret, c')" "registers cfg c ret c'"
      "ok_ctx V cfg c'"
      using finish_mr [OF assms(1,2) ne assms(3,4)] by blast
    let ?c = "if ret = 0 then upd_state (\<lambda>s. s\<lparr>ms_pages := [], ms_dma_len := 0\<rparr>) c' else c'"
    show thesis
    proof (rule that)
      show "srp_finish_mapping V cfg c = Some (ret, ?c)"
        using mr c'(1) by (auto simp: srp_finish_mapping_def Let_def)
      show "finished cfg c ret ?c" using registers_finished [OF c'(2) ne] .
      show "ok_ctx V cfg ?c" using c'(3) by simp
    qed
  qed
qed

end

section \<open>The pages of one entry\<close>

definition pages_for :: "map_cfg \<Rightarrow> nat \<Rightarrow> nat" where
  "pages_for cfg n = (n + page_size cfg - 1) div page_size cfg"

text \<open>\<open>reserve cfg a r c\<close> bounds the descriptors that closing the pending pages
  will still take while the remaining \<open>r\<close> bytes at address \<open>a\<close> are processed.\<close>

definition reserve :: "map_cfg \<Rightarrow> u64 \<Rightarrow> nat \<Rightarrow> 'e map_ctx \<Rightarrow> nat" where
  "reserve cfg a r c = (if r = 0 then 0 else
     (if max_pages cfg < npages c + pages_for cfg (unat (page_offset cfg a) + r) then 1 else 0) +
     (if page_offset cfg a \<noteq> 0 \<and> npages c \<noteq> 0 then 1 else 0))"

definition sg_before :: "dma_sg list \<Rightarrow> nat \<Rightarrow> nat \<Rightarrow> u64 list" where
  "sg_before scat i r =
     sgs_bytes (take i scat) @ addr_range (sg_addr (scat ! i)) (unat (sg_len (scat ! i)) - r)"

definition sg_at :: "dma_sg list \<Rightarrow> nat \<Rightarrow> nat \<Rightarrow> u64" where
  "sg_at scat i r = sg_addr (scat ! i) + of_nat (unat (sg_len (scat ! i)) - r)"

text \<open>The state at the head of the \<^verbatim>\<open>while\<close> loop in entry \<open>i\<close> with \<open>r\<close> bytes left.\<close>

definition pages_inv :: "map_cfg \<Rightarrow> dma_sg list \<Rightarrow> nat \<Rightarrow> nat \<Rightarrow> 'e map_ctx \<Rightarrow> bool" where
  "pages_inv cfg scat i r c \<longleftrightarrow>
     map_inv cfg (sg_before scat i r) (descs_cost cfg (take (Suc i) scat)) c \<and>
     resumable cfg scat c \<and> pending_full cfg (mc_state c) \<and>
     ms_ndesc (mc_state c) + 1 + reserve cfg (sg_at scat i r) r c \<le> descs_cost cfg (take (Suc i) scat)"

definition entry_ok :: "map_cfg \<Rightarrow> dma_sg list \<Rightarrow> nat \<Rightarrow> bool" where
  "entry_ok cfg scat i \<longleftrightarrow> i < length scat \<and>
     unat (sg_len (scat ! i)) \<le> page_size cfg * max_pages cfg \<and>
     (\<not> dev_use_fast_reg (mp_dev cfg) \<longrightarrow> page_offset cfg (sg_addr (scat ! i)) = 0)"

lemma sg_before_0: "i < length scat \<Longrightarrow> sg_before scat i 0 = sgs_bytes (take (Suc i) scat)"
  by (simp add: sg_before_def take_Suc_conv_app_nth sg_bytes_def)

lemma sg_before_all: "unat (sg_len (scat ! i)) \<le> r \<Longrightarrow> sg_before scat i r = sgs_bytes (take i scat)"
  by (simp add: sg_before_def)

lemma sg_before_step:
  assumes "n \<le> r" and "r \<le> unat (sg_len (scat ! i))"
  shows "sg_before scat i r @ addr_range (sg_at scat i r) n = sg_before scat i (r - n)"
proof -
  have "unat (sg_len (scat ! i)) - (r - n) = (unat (sg_len (scat ! i)) - r) + n" using assms by simp
  then show ?thesis by (simp add: sg_before_def sg_at_def addr_range_add)
qed

lemma sg_at_step:
  assumes "n \<le> r" and "r \<le> unat (sg_len (scat ! i))"
  shows "sg_at scat i r + of_nat n = sg_at scat i (r - n)"
proof -
  have "unat (sg_len (scat ! i)) - (r - n) = (unat (sg_len (scat ! i)) - r) + n" using assms by simp
  then show ?thesis by (simp add: sg_at_def ac_simps)
qed

lemma unat_sg_at:
  assumes "r \<le> unat (sg_len (scat ! i))"
  shows "unat (sg_at scat i r - sg_addr (scat ! i)) = unat (sg_len (scat ! i)) - r"
proof -
  have "unat (sg_len (scat ! i)) < 2 ^ 32" using unsigned_less [of "sg_len (scat ! i)"] by simp
  then have "unat (sg_len (scat ! i)) - r < 2 ^ LENGTH(64)" by simp
  then show ?thesis by (simp add: sg_at_def unat_of_nat)
qed

lemma finished_inv:
  assumes "finished cfg c ret c'" and "map_inv cfg bytes b c" and "dev_ok (mp_dev cfg)"
  shows "ret = 0 \<Longrightarrow> mapped cfg c' = bytes"
    and "ret = 0 \<Longrightarrow> map_inv cfg bytes b c'"
    and "ret \<noteq> 0 \<Longrightarrow> resumable cfg scat c \<Longrightarrow> resumable cfg scat c'"
proof -
  show m: "mapped cfg c' = bytes" if "ret = 0"
    using assms that by (simp add: finished_def map_inv_def)
  have t: "ms_total_len (mc_state c') = of_nat (length (mapped cfg c'))"
  proof (cases "ret = 0")
    case True
    then have "ms_total_len (mc_state c') = of_nat (length (mapped cfg c)) + ms_dma_len (mc_state c)"
      using assms by (simp add: finished_def map_inv_def)
    moreover have "length (pending cfg (mc_state c)) = unat (ms_dma_len (mc_state c))"
      using assms by (intro length_pending) (simp_all add: map_inv_def)
    ultimately show ?thesis using True assms(1) by (simp add: finished_def)
  qed (use assms in \<open>simp add: finished_def map_inv_def\<close>)
  show "map_inv cfg bytes b c'" if "ret = 0"
    using assms m t that
    by (auto simp: map_inv_def finished_def pending_def pending_ok_def base_ok_def split: if_splits)
  show "resumable cfg scat c'" if "ret \<noteq> 0" "resumable cfg scat c"
    using assms t that by (simp add: resumable_def finished_def Let_def)
qed

lemma resumable_frame:
  "mapped cfg (upd_state f c) = mapped cfg c \<Longrightarrow> counts_ok (f (mc_state c)) = counts_ok (mc_state c) \<Longrightarrow>
   ms_unmapped_sg (f (mc_state c)) = ms_unmapped_sg (mc_state c) \<Longrightarrow>
   ms_unmapped_index (f (mc_state c)) = ms_unmapped_index (mc_state c) \<Longrightarrow>
   ms_unmapped_addr (f (mc_state c)) = ms_unmapped_addr (mc_state c) \<Longrightarrow>
   ms_total_len (f (mc_state c)) = ms_total_len (mc_state c) \<Longrightarrow>
   ms_ndesc (f (mc_state c)) = ms_ndesc (mc_state c) \<Longrightarrow>
   resumable cfg scat (upd_state f c) = resumable cfg scat c"
  by (simp add: resumable_def Let_def)

lemma update_start_fields [simp]:
  "ms_desc (srp_map_update_start sg i a s) = ms_desc s"
  "ms_pages (srp_map_update_start sg i a s) = ms_pages s"
  "ms_ndesc (srp_map_update_start sg i a s) = ms_ndesc s"
  "ms_dma_len (srp_map_update_start sg i a s) = ms_dma_len s"
  "ms_total_len (srp_map_update_start sg i a s) = ms_total_len s"
  "ms_unmapped_sg (srp_map_update_start sg i a s) = sg"
  "ms_unmapped_index (srp_map_update_start sg i a s) = i"
  "ms_unmapped_addr (srp_map_update_start sg i a s) = a"
  "counts_ok (srp_map_update_start sg i a s) = counts_ok s"
  "pending_ok cfg (srp_map_update_start sg i a s) = pending_ok cfg s"
  "pending_full cfg (srp_map_update_start sg i a s) = pending_full cfg s"
  "pending cfg (srp_map_update_start sg i a s) = pending cfg s"
  "base_ok cfg (srp_map_update_start sg i a s) = base_ok cfg s"
  by (simp_all add: srp_map_update_start_def counts_ok_def pending_ok_def pending_full_def pending_def
      base_ok_def)

lemma mapped_update_start [simp]:
  "mapped cfg (upd_state (srp_map_update_start sg i a) c) = mapped cfg c"
  by (simp add: mapped_frame)

lemma map_inv_update_start [simp]:
  "map_inv cfg bytes b (upd_state (srp_map_update_start sg i a) c) = map_inv cfg bytes b c"
  by (simp add: map_inv_def)

text \<open>Recording the current position makes a state without pending pages resumable.\<close>

lemma resumable_here:
  assumes "map_inv cfg (sg_before scat i r) b c" and "ms_pages (mc_state c) = []"
    and "i < length scat" and "r \<le> unat (sg_len (scat ! i))"
    and "ms_ndesc (mc_state c) + 1 \<le> descs_cost cfg (take (Suc i) scat)"
  shows "resumable cfg scat (upd_state (srp_map_update_start (Some (scat ! i)) i (sg_at scat i r)) c)"
  using assms by (simp add: resumable_def Let_def unat_sg_at map_inv_def sg_before_def pending_def)

lemma pages_for_less: "n \<le> page_size cfg * m \<Longrightarrow> 0 < page_size cfg \<Longrightarrow> pages_for cfg n \<le> m"
proof -
  assume "n \<le> page_size cfg * m" "0 < page_size cfg"
  then have "n + page_size cfg - 1 < page_size cfg * (m + 1)" by simp
  then have "pages_for cfg n < m + 1" unfolding pages_for_def
    by (simp add: less_mult_imp_div_less mult.commute)
  then show ?thesis by simp
qed

lemma ceil_div_step:
  fixes p off r :: nat
  assumes "off < p" and "0 < r"
  shows "(off + r + p - 1) div p = Suc ((r - min r (p - off) + p - 1) div p)"
proof -
  have p: "0 < p" using assms(1) by simp
  have step: "(x + p) div p = Suc (x div p)" for x using p by (simp add: div_add_self2)
  show ?thesis
  proof (cases "r \<le> p - off")
    case True
    have 1: "off + r + p - 1 = (off + r - 1) + p" using assms(2) by linarith
    have 2: "(off + r - 1) div p = 0" using True assms by (intro div_less) linarith
    have 3: "r - min r (p - off) + p - 1 = p - 1" using True by simp
    have 4: "(p - 1) div p = 0" using p by (intro div_less) simp
    show ?thesis unfolding 1 step 2 3 4 ..
  next
    case False
    have 1: "off + r + p - 1 = (r - (p - off) + p - 1) + p" using False assms by linarith
    have 2: "min r (p - off) = p - off" using False by linarith
    show ?thesis unfolding 1 step 2 ..
  qed
qed

lemma pages_for_step:
  assumes "off < page_size cfg" and "0 < r"
  shows "pages_for cfg (off + r) = Suc (pages_for cfg (r - min r (page_size cfg - off)))"
  unfolding pages_for_def by (rule ceil_div_step [OF assms])

lemma pages_for_pos: "0 < page_size cfg \<Longrightarrow> 0 < r \<Longrightarrow> 0 < pages_for cfg (off + r)"
  by (simp add: pages_for_def div_greater_zero_iff)

lemma npages_full_iff:
  assumes "dev_ok (mp_dev cfg)" and "pending_ok cfg (mc_state c)"
  shows "of_nat (npages c) = (word_of_int (dev_max_pages_per_mr (mp_dev cfg)) :: u32) \<longleftrightarrow>
         npages c = max_pages cfg"
proof -
  have le: "npages c \<le> max_pages cfg" using assms(2)
    by (cases "ms_pages (mc_state c) = []") (simp_all add: pending_ok_def)
  obtain "dev_max_pages_per_mr (mp_dev cfg) = int (max_pages cfg)" "max_pages cfg < 2 ^ 31"
    using assms(1) by (rule dev_okE)
  then have "(word_of_int (dev_max_pages_per_mr (mp_dev cfg)) :: u32) = of_nat (max_pages cfg)"
    and "max_pages cfg < 2 ^ LENGTH(32)"
    by (metis of_int_of_nat_eq, simp)
  moreover have "(of_nat (npages c) :: u32) = of_nat (max_pages cfg) \<longleftrightarrow> npages c = max_pages cfg"
    using le calculation(2) by (simp add: word_of_nat_eq_iff take_bit_nat_eq_self)
  ultimately show ?thesis by simp
qed

lemma page_offset_end:
  assumes "dev_ok (mp_dev cfg)"
  shows "page_offset cfg (a + of_nat (page_size cfg - unat (page_offset cfg a))) = 0"
proof -
  obtain k where k: "k < 31" "page_size cfg = 2 ^ k" using assms by (rule dev_okE)
  let ?off = "unat a mod 2 ^ k"
  have off: "unat (page_offset cfg a) = ?off" using unat_page_offset [OF assms, of a] k(2) by metis
  have lt: "2 ^ k - ?off < 2 ^ LENGTH(64)"
    using k(1) power_strict_increasing [of k 64 "2 :: nat"] by simp
  have add: "unat (a + of_nat n) mod 2 ^ k = (unat a + n) mod 2 ^ k" for n
  proof -
    have "unat (a + of_nat n) = (unat a + n) mod 2 ^ 64"
      by (simp add: unat_word_ariths unat_of_nat mod_add_right_eq)
    moreover have "(2 :: nat) ^ k dvd 2 ^ 64" using k(1) by (intro le_imp_power_dvd) simp
    ultimately show ?thesis by (simp only: mod_mod_cancel)
  qed
  have "unat (a + of_nat (2 ^ k - ?off)) mod 2 ^ k = (unat a + (2 ^ k - ?off)) mod 2 ^ k"
    by (rule add)
  also have "\<dots> = (?off + (2 ^ k - ?off)) mod 2 ^ k" by (simp only: mod_add_left_eq)
  also have "\<dots> = 0" by simp
  finally have "unat (page_offset cfg (a + of_nat (page_size cfg - unat (page_offset cfg a)))) = 0"
    unfolding unat_page_offset [OF assms, of "_ + _"] off k(2) .
  then show ?thesis by (simp only: unat_eq_0)
qed

text \<open>Appending the next page.\<close>

lemma pages_inv_page:
  assumes inv: "pages_inv cfg scat i r c" and dev: "dev_ok (mp_dev cfg)" and e: "entry_ok cfg scat i"
    and r: "0 < r" "r \<le> unat (sg_len (scat ! i))"
    and room: "npages c < max_pages cfg"
    and off: "npages c \<noteq> 0 \<longrightarrow> page_offset cfg (sg_at scat i r) = 0"
    and fmr: "\<not> dev_use_fast_reg (mp_dev cfg) \<longrightarrow> page_offset cfg (sg_at scat i r) = 0"
    and len: "unat len = min r (page_size cfg - unat (page_offset cfg (sg_at scat i r)))"
  defines "c' \<equiv> upd_state (srp_map_page cfg (sg_at scat i r) len) c"
  shows "map_inv cfg (sg_before scat i (r - unat len)) (descs_cost cfg (take (Suc i) scat)) c'"
    and "resumable cfg scat c'"
    and "unat len = page_size cfg - unat (page_offset cfg (sg_at scat i r)) \<Longrightarrow>
         pending_full cfg (mc_state c')"
    and "ms_ndesc (mc_state c') + 1 + (if r = unat len then 0
           else reserve cfg (sg_at scat i (r - unat len)) (r - unat len) c')
         \<le> descs_cost cfg (take (Suc i) scat)"
proof -
  let ?a = "sg_at scat i r" and ?s = "mc_state c"
  have mi: "map_inv cfg (sg_before scat i r) (descs_cost cfg (take (Suc i) scat)) c"
    and full: "pending_full cfg ?s"
    and cost: "ms_ndesc ?s + 1 + reserve cfg ?a r c \<le> descs_cost cfg (take (Suc i) scat)"
    using inv by (simp_all add: pages_inv_def)
  have pok: "pending_ok cfg ?s" using mi by (simp add: map_inv_def)
  have len': "unat len \<le> page_size cfg - unat (page_offset cfg ?a)" using len by simp
  note mp = map_page [OF dev pok full room _ len']
  have al: "ms_pages ?s \<noteq> [] \<Longrightarrow> page_offset cfg ?a = 0" using off by simp
  have m: "mapped cfg c' = mapped cfg c"
    by (simp add: c'_def mapped_frame srp_map_page_def)
  show "map_inv cfg (sg_before scat i (r - unat len)) (descs_cost cfg (take (Suc i) scat)) c'"
    unfolding map_inv_def
  proof (intro conjI)
    show "mapped cfg c' @ pending cfg (mc_state c') = sg_before scat i (r - unat len)"
    proof -
      have "mapped cfg c' @ pending cfg (mc_state c') =
          (mapped cfg c @ pending cfg ?s) @ addr_range ?a (unat len)"
        using mp(1) [OF al] m by (simp add: c'_def)
      also have "mapped cfg c @ pending cfg ?s = sg_before scat i r"
        using mi by (simp add: map_inv_def)
      also have "\<dots> @ addr_range ?a (unat len) = sg_before scat i (r - unat len)"
        using r len by (intro sg_before_step) simp_all
      finally show ?thesis .
    qed
    show "pending_ok cfg (mc_state c')" using mp(2) [OF al] by (simp add: c'_def)
    show "base_ok cfg (mc_state c')" "counts_ok (mc_state c')"
      using mi fmr by (simp_all add: c'_def map_inv_def srp_map_page_def base_ok_def counts_ok_def)
    show "ms_total_len (mc_state c') = of_nat (length (mapped cfg c'))"
      using mi m by (simp add: c'_def map_inv_def srp_map_page_def)
    show "ms_ndesc (mc_state c') + (if ms_pages (mc_state c') = [] then 0 else 1)
        \<le> descs_cost cfg (take (Suc i) scat)"
      using cost by (simp add: c'_def srp_map_page_def)
  qed
  show "resumable cfg scat c'"
    using inv m unfolding c'_def pages_inv_def
    by (subst resumable_frame) (simp_all add: srp_map_page_def counts_ok_def)
  show "pending_full cfg (mc_state c')"
    if "unat len = page_size cfg - unat (page_offset cfg ?a)"
    using mp(3) al that by (simp add: c'_def)
  show "ms_ndesc (mc_state c') + 1 + (if r = unat len then 0
           else reserve cfg (sg_at scat i (r - unat len)) (r - unat len) c')
         \<le> descs_cost cfg (take (Suc i) scat)"
  proof (cases "r = unat len")
    case True
    then show ?thesis using cost by (simp add: c'_def srp_map_page_def)
  next
    case False
    then have l: "unat len = page_size cfg - unat (page_offset cfg ?a)" "unat len < r"
      using len by (simp_all add: min_def split: if_splits)
    have "sg_at scat i (r - unat len) = ?a + of_nat (page_size cfg - unat (page_offset cfg ?a))"
      using sg_at_step [of "unat len" r scat i] l r by simp
    then have z: "page_offset cfg (sg_at scat i (r - unat len)) = 0"
      using page_offset_end [OF dev] by simp
    have "pages_for cfg (unat (page_offset cfg ?a) + r) = Suc (pages_for cfg (r - unat len))"
      unfolding len by (rule pages_for_step [OF page_offset_less [OF dev] r(1)])
    then have "reserve cfg (sg_at scat i (r - unat len)) (r - unat len) c' \<le> reserve cfg ?a r c"
      using z l r(1) by (simp add: reserve_def c'_def srp_map_page_def)
    then show ?thesis using cost False by (simp add: c'_def srp_map_page_def)
  qed
qed

lemma pages_inv_flushed:
  assumes inv: "pages_inv cfg scat i r c" and dev: "dev_ok (mp_dev cfg)" and e: "entry_ok cfg scat i"
    and r: "0 < r" "r \<le> unat (sg_len (scat ! i))"
    and fin: "finished cfg c 0 c'"
    and why: "npages c = max_pages cfg \<or> page_offset cfg (sg_at scat i r) \<noteq> 0"
  shows "pages_inv cfg scat i r (upd_state (srp_map_update_start (Some (scat ! i)) i (sg_at scat i r)) c')"
proof -
  let ?B = "descs_cost cfg (take (Suc i) scat)" and ?a = "sg_at scat i r"
  let ?c = "upd_state (srp_map_update_start (Some (scat ! i)) i ?a) c'"
  have mi: "map_inv cfg (sg_before scat i r) ?B c" and il: "i < length scat"
    and cost: "ms_ndesc (mc_state c) + 1 + reserve cfg ?a r c \<le> ?B"
    using inv e by (simp_all add: pages_inv_def entry_ok_def)
  have mi': "map_inv cfg (sg_before scat i r) ?B c'"
    by (rule finished_inv(2) [OF fin mi dev]) simp
  have pg: "ms_pages (mc_state c') = []" using fin by (simp add: finished_def)
  have nd: "ms_ndesc (mc_state c') = ms_ndesc (mc_state c) + (if npages c = 0 then 0 else 1)"
    using fin by (simp add: finished_def)
  have "ms_ndesc (mc_state c') + 1 + reserve cfg ?a r c' \<le> ?B"
  proof -
    let ?P = "pages_for cfg (unat (page_offset cfg ?a) + r)"
    have ps: "0 < page_size cfg" using dev by (rule dev_okE)
    have P: "0 < ?P" by (rule pages_for_pos [OF ps r(1)])
    have le: "?P \<le> max_pages cfg" if "page_offset cfg ?a = 0"
    proof (rule pages_for_less [OF _ ps])
      show "unat (page_offset cfg ?a) + r \<le> page_size cfg * max_pages cfg"
        using that r(2) e by (simp add: entry_ok_def del: nat_mult_distrib)
    qed
    have n': "npages c' = 0" using pg by simp
    show ?thesis
    proof (cases "npages c = 0 \<or> page_offset cfg ?a \<noteq> 0")
      case True
      then show ?thesis using cost nd r(1) unfolding reserve_def n' by (auto split: if_splits)
    next
      case False
      then show ?thesis using cost nd r(1) why P le unfolding reserve_def n' by (auto split: if_splits)
    qed
  qed
  moreover have "reserve cfg ?a r ?c = reserve cfg ?a r c'"
    unfolding reserve_def by simp
  ultimately have "ms_ndesc (mc_state ?c) + 1 + reserve cfg ?a r ?c \<le> ?B"
    by simp
  moreover have "resumable cfg scat ?c"
    using calculation by (intro resumable_here [OF mi' pg il r(2)]) simp
  ultimately show ?thesis using mi' pg by (simp add: pages_inv_def pending_full_def)
qed

definition flush_if_needed ::
    "'e verbs \<Rightarrow> map_cfg \<Rightarrow> dma_sg \<Rightarrow> nat \<Rightarrow> u64 \<Rightarrow> 'e map_ctx \<Rightarrow> (int \<times> 'e map_ctx) option" where
  "flush_if_needed V cfg sg i a c =
     (if of_nat (npages c) = (word_of_int (dev_max_pages_per_mr (mp_dev cfg)) :: u32) \<or>
         page_offset cfg a \<noteq> 0
      then map_option
        (\<lambda>(ret, c1). (ret, if ret \<noteq> 0 then c1
           else upd_state (srp_map_update_start (Some sg) i a) c1))
        (srp_finish_mapping V cfg c)
      else Some (0, c))"

context registration
begin

lemma flush_if_needed:
  assumes inv: "pages_inv cfg scat i r c" and okc: "ok_ctx V cfg c" and dev: "dev_ok (mp_dev cfg)"
    and e: "entry_ok cfg scat i" and r: "0 < r" "r \<le> unat (sg_len (scat ! i))"
  obtains (failed) ret c1 where "flush_if_needed V cfg (scat ! i) i (sg_at scat i r) c = Some (ret, c1)"
      "ret \<noteq> 0" "resumable cfg scat c1" "ok_ctx V cfg c1"
    | (ready) c1 where "flush_if_needed V cfg (scat ! i) i (sg_at scat i r) c = Some (0, c1)"
      "pages_inv cfg scat i r c1" "ok_ctx V cfg c1" "npages c1 < max_pages cfg"
      "npages c1 \<noteq> 0 \<longrightarrow> page_offset cfg (sg_at scat i r) = 0"
proof -
  let ?a = "sg_at scat i r"
  have mi: "map_inv cfg (sg_before scat i r) (descs_cost cfg (take (Suc i) scat)) c"
    and res: "resumable cfg scat c" using inv by (simp_all add: pages_inv_def)
  then have p: "pending_ok cfg (mc_state c)" "base_ok cfg (mc_state c)" by (simp_all add: map_inv_def)
  have mx: "0 < max_pages cfg" using dev by (rule dev_okE)
  have le: "npages c \<le> max_pages cfg"
    using p(1) by (cases "ms_pages (mc_state c) = []") (simp_all add: pending_ok_def)
  show thesis
  proof (cases "npages c = max_pages cfg \<or> page_offset cfg ?a \<noteq> 0")
    case True
    obtain ret c' where f: "srp_finish_mapping V cfg c = Some (ret, c')" "finished cfg c ret c'"
      "ok_ctx V cfg c'"
      by (rule finish_mapping [OF okc dev p])
    have eq: "flush_if_needed V cfg (scat ! i) i ?a c = Some (ret, if ret \<noteq> 0 then c'
        else upd_state (srp_map_update_start (Some (scat ! i)) i ?a) c')"
      using True f(1) by (simp add: flush_if_needed_def npages_full_iff [OF dev p(1)])
    show thesis
    proof (cases "ret = 0")
      case False
      then show thesis using eq f finished_inv(3) [OF f(2) mi dev False res] by (intro failed) simp_all
    next
      case [simp]: True
      have "pages_inv cfg scat i r (upd_state (srp_map_update_start (Some (scat ! i)) i ?a) c')"
        using f(2) \<open>npages c = max_pages cfg \<or> page_offset cfg ?a \<noteq> 0\<close>
        by (intro pages_inv_flushed [OF inv dev e r]) simp_all
      then show thesis using eq f mx
        by (intro ready [of "upd_state (srp_map_update_start (Some (scat ! i)) i ?a) c'"])
           (simp_all add: finished_def)
    qed
  next
    case False
    then show thesis using inv okc le
      by (intro ready [of c]) (simp_all add: flush_if_needed_def npages_full_iff [OF dev p(1)])
  qed
qed

end

lemma unat_min: "unat (min a b :: 'a::len word) = min (unat a) (unat b)"
  by (simp add: min_def word_le_nat_alt)

lemma word_of_page_size:
  assumes "dev_ok (mp_dev cfg)"
  shows "unat (word_of_int (dev_mr_page_size (mp_dev cfg)) :: u32) = page_size cfg"
proof -
  obtain "dev_mr_page_size (mp_dev cfg) = int (page_size cfg)" "page_size cfg < 2 ^ 31"
    using assms by (rule dev_okE)
  then have "(word_of_int (dev_mr_page_size (mp_dev cfg)) :: u32) = of_nat (page_size cfg)"
    and "page_size cfg < 2 ^ LENGTH(32)" by (metis of_int_of_nat_eq, simp)
  then show ?thesis by (simp only: unat_of_nat mod_less)
qed

lemma unat_page_len:
  assumes "dev_ok (mp_dev cfg)"
  shows "unat (min r (word_of_int (dev_mr_page_size (mp_dev cfg)) - page_offset cfg a)) =
         min (unat r) (page_size cfg - unat (page_offset cfg a))"
proof -
  have "page_offset cfg a \<le> word_of_int (dev_mr_page_size (mp_dev cfg))"
    using page_offset_less [OF assms, of a]
    unfolding word_le_nat_alt word_of_page_size [OF assms] by (rule less_imp_le)
  then show ?thesis by (simp only: unat_min unat_sub word_of_page_size [OF assms])
qed

lemma map_pages_0: "srp_map_pages V cfg sg i a 0 len c = Some (Inr len, c)"
  by (subst srp_map_pages.simps) simp

lemma map_pages_step:
  "r \<noteq> 0 \<Longrightarrow> srp_map_pages V cfg sg i a r len c =
     Option.bind (flush_if_needed V cfg sg i a c)
       (\<lambda>(ret, c1). if ret \<noteq> 0 then Some (Inl ret, c1)
          else let len1 = min r (word_of_int (dev_mr_page_size (mp_dev cfg)) - page_offset cfg a) in
            srp_map_pages V cfg sg i (a + ucast len1) (r - len1) len1
              (upd_state (srp_map_page cfg a len1) c1))"
  by (subst srp_map_pages.simps) (simp add: flush_if_needed_def Let_def)

definition pages_done :: "map_cfg \<Rightarrow> dma_sg list \<Rightarrow> nat \<Rightarrow> u32 \<Rightarrow> 'e map_ctx \<Rightarrow> bool" where
  "pages_done cfg scat i len c \<longleftrightarrow>
     map_inv cfg (sgs_bytes (take (Suc i) scat)) (descs_cost cfg (take (Suc i) scat)) c \<and>
     ms_pages (mc_state c) \<noteq> [] \<and> (unat len = page_size cfg \<longrightarrow> pending_full cfg (mc_state c))"

lemma ucast_u32_of_nat: "(ucast (w :: u32) :: u64) = of_nat (unat w)"
  by (simp add: unsigned_ucast_eq)

context registration
begin

lemma map_pages:
  assumes dev: "dev_ok (mp_dev cfg)" and e: "entry_ok cfg scat i"
    and "pages_inv cfg scat i (unat r) c" "ok_ctx V cfg c"
    and "0 < unat r" "unat r \<le> unat (sg_len (scat ! i))"
    and "\<not> dev_use_fast_reg (mp_dev cfg) \<longrightarrow> page_offset cfg (sg_at scat i (unat r)) = 0"
  shows "\<exists>res c'. srp_map_pages V cfg (scat ! i) i (sg_at scat i (unat r)) r len c = Some (res, c') \<and>
    ok_ctx V cfg c' \<and> resumable cfg scat c' \<and>
    (case res of Inl ret \<Rightarrow> ret \<noteq> 0 | Inr len' \<Rightarrow> pages_done cfg scat i len' c')"
  using assms(3-)
proof (induction "unat r" arbitrary: r len c rule: less_induct)
  case less
  let ?a = "sg_at scat i (unat r)"
  let ?len = "min r (word_of_int (dev_mr_page_size (mp_dev cfg)) - page_offset cfg ?a)"
  have len: "unat ?len = min (unat r) (page_size cfg - unat (page_offset cfg ?a))"
    by (rule unat_page_len [OF dev])
  have r0: "r \<noteq> 0" using less.prems(3) by auto
  from less.prems(1,2) dev e less.prems(3,4) show ?case
  proof (cases rule: flush_if_needed)
    case (failed ret c1)
    then show ?thesis using r0 by (simp add: map_pages_step)
  next
    case (ready c1)
    let ?c = "upd_state (srp_map_page cfg ?a ?len) c1"
    note pg = pages_inv_page [OF ready(2) dev e less.prems(3,4) ready(4,5) less.prems(5) len]
    have rl: "unat (r - ?len) = unat r - unat ?len"
      by (rule unat_sub) simp
    have eq: "srp_map_pages V cfg (scat ! i) i ?a r len c =
        srp_map_pages V cfg (scat ! i) i (sg_at scat i (unat (r - ?len))) (r - ?len) ?len ?c"
    proof -
      have "?a + ucast ?len = sg_at scat i (unat (r - ?len))"
        unfolding ucast_u32_of_nat rl by (rule sg_at_step) (use len less.prems(4) in simp_all)
      then show ?thesis
        by (subst map_pages_step [OF r0]) (simp only: ready(1) Option.bind.simps prod.case Let_def simp_thms if_False)
    qed
    have okc: "ok_ctx V cfg ?c" using ready(3) by (simp add: srp_map_page_def)
    have room: "0 < page_size cfg - unat (page_offset cfg ?a)"
      using page_offset_less [OF dev] by (simp only: zero_less_diff)
    show ?thesis
    proof (cases "unat r = unat ?len")
      case True
      have il: "i < length scat" using e by (simp add: entry_ok_def)
      have "pending_full cfg (mc_state ?c)" if "unat ?len = page_size cfg"
        using that len by (intro pg(3)) linarith+
      then have "pages_done cfg scat i ?len ?c"
        using pg(1) sg_before_0 [OF il] True
        by (simp add: pages_done_def srp_map_page_def)
      moreover have "r - ?len = 0"
      proof -
        have "unat (r - ?len) = 0" unfolding rl using True by linarith
        then show ?thesis by (simp only: unat_eq_0)
      qed
      then have "srp_map_pages V cfg (scat ! i) i ?a r len c = Some (Inr ?len, ?c)"
        unfolding eq by (simp only: map_pages_0)
      ultimately show ?thesis using okc pg(2) by simp
    next
      case False
      then have l: "unat ?len = page_size cfg - unat (page_offset cfg ?a)" "unat ?len < unat r"
        using len by linarith+
      show ?thesis
        unfolding eq
      proof (rule less.hyps)
        show "pages_inv cfg scat i (unat (r - ?len)) ?c"
          using pg(1,2) pg(3) [OF l(1)] pg(4) False
          unfolding pages_inv_def rl by simp
        show "unat (r - ?len) < unat r" "0 < unat (r - ?len)"
          "unat (r - ?len) \<le> unat (sg_len (scat ! i))"
          using l room less.prems(4) unfolding rl by linarith+
        have "sg_at scat i (unat (r - ?len)) = ?a + of_nat (page_size cfg - unat (page_offset cfg ?a))"
          using sg_at_step [of "unat ?len" "unat r" scat i] l less.prems(4) unfolding rl by simp
        then show "\<not> dev_use_fast_reg (mp_dev cfg) \<longrightarrow>
            page_offset cfg (sg_at scat i (unat (r - ?len))) = 0"
          using page_offset_end [OF dev] by simp
      qed (rule okc)
    qed
  qed
qed

end

section \<open>Entries and lists\<close>

definition entry_inv :: "map_cfg \<Rightarrow> dma_sg list \<Rightarrow> nat \<Rightarrow> 'e map_ctx \<Rightarrow> bool" where
  "entry_inv cfg scat i c \<longleftrightarrow>
     map_inv cfg (sgs_bytes (take i scat)) (descs_cost cfg (take i scat)) c \<and>
     pending_full cfg (mc_state c) \<and>
     (if ms_pages (mc_state c) = [] then ms_unmapped_sg (mc_state c) = None else resumable cfg scat c)"

lemma descs_cost_Suc:
  "i < length scat \<Longrightarrow>
   descs_cost cfg (take (Suc i) scat) = descs_cost cfg (take i scat) + desc_cost cfg (scat ! i)"
  by (simp add: take_Suc_conv_app_nth)

lemma desc_cost_pos: "1 \<le> desc_cost cfg sg"
  by (simp add: desc_cost_def)

lemma sgs_bytes_Suc:
  "i < length scat \<Longrightarrow> sgs_bytes (take (Suc i) scat) = sgs_bytes (take i scat) @ sg_bytes (scat ! i)"
  by (simp add: take_Suc_conv_app_nth)

lemma map_inv_mono: "map_inv cfg bytes b c \<Longrightarrow> b \<le> b' \<Longrightarrow> map_inv cfg bytes b' c"
  by (simp add: map_inv_def)

lemma pending_nil: "ms_pages s = [] \<Longrightarrow> pending cfg s = []"
  by (simp add: pending_def)

lemma map_inv_map_desc:
  assumes "map_inv cfg bytes b c" and "ms_pages (mc_state c) = []"
  shows "map_inv cfg (bytes @ addr_range a (unat l)) (Suc b) (upd_state (srp_map_desc a l (mp_rkey cfg)) c)"
  using assms by (simp add: map_inv_def pending_nil pending_ok_def base_ok_def)

lemma pages_inv_start:
  assumes inv: "entry_inv cfg scat i c" and dev: "dev_ok (mp_dev cfg)" and e: "entry_ok cfg scat i"
    and l: "0 < unat (sg_len (scat ! i))"
  defines "c0 \<equiv> (if ms_unmapped_sg (mc_state c) = None
      then upd_state (srp_map_update_start (Some (scat ! i)) i (sg_addr (scat ! i))) c else c)"
  shows "pages_inv cfg scat i (unat (sg_len (scat ! i))) c0"
proof -
  let ?r = "unat (sg_len (scat ! i))" and ?B = "descs_cost cfg (take (Suc i) scat)"
  let ?a = "sg_at scat i ?r"
  have a: "?a = sg_addr (scat ! i)" by (simp add: sg_at_def)
  have il: "i < length scat" and small: "?r \<le> page_size cfg * max_pages cfg"
    using e by (simp_all add: entry_ok_def)
  have mi: "map_inv cfg (sg_before scat i ?r) (descs_cost cfg (take i scat)) c"
    using inv by (simp add: entry_inv_def sg_before_all)
  have nd: "ms_ndesc (mc_state c) + (if npages c = 0 then 0 else 1) \<le> descs_cost cfg (take i scat)"
    using mi by (simp add: map_inv_def)
  have B: "?B = descs_cost cfg (take i scat) + desc_cost cfg (scat ! i)"
    by (rule descs_cost_Suc [OF il])
  have ps: "0 < page_size cfg" using dev by (rule dev_okE)
  have "ms_ndesc (mc_state c) + 1 + reserve cfg ?a ?r c \<le> ?B"
  proof (cases "page_offset cfg ?a = 0")
    case True
    then have "pages_for cfg (unat (page_offset cfg ?a) + ?r) \<le> max_pages cfg"
      using small by (intro pages_for_less [OF _ ps]) simp
    then have "reserve cfg ?a ?r c \<le> (if npages c = 0 then 0 else 1)"
      using True unfolding reserve_def by auto
    then show ?thesis using nd B desc_cost_pos [of cfg "scat ! i"] by linarith
  next
    case False
    then have "desc_cost cfg (scat ! i) = 2" using e by (auto simp: desc_cost_def entry_ok_def a)
    moreover have "reserve cfg ?a ?r c \<le> 1 + (if npages c = 0 then 0 else 1)"
      unfolding reserve_def by auto
    ultimately show ?thesis using nd B by linarith
  qed
  moreover have "reserve cfg ?a ?r c0 = reserve cfg ?a ?r c" "ms_ndesc (mc_state c0) = ms_ndesc (mc_state c)"
    by (simp_all add: c0_def reserve_def)
  ultimately have cost: "ms_ndesc (mc_state c0) + 1 + reserve cfg ?a ?r c0 \<le> ?B" by simp
  have mi0: "map_inv cfg (sg_before scat i ?r) ?B c0"
    using map_inv_mono [OF mi, of ?B] B by (simp add: c0_def)
  have "resumable cfg scat c0"
  proof (cases "ms_pages (mc_state c) = []")
    case True
    then have "c0 = upd_state (srp_map_update_start (Some (scat ! i)) i ?a) c"
      using inv by (simp add: c0_def entry_inv_def a)
    then show ?thesis using cost nd True resumable_here [OF mi True il order_refl]
      by (simp add: c0_def)
  next
    case False
    then have "resumable cfg scat c" using inv by (simp add: entry_inv_def)
    moreover from this have "c0 = c" by (auto simp: c0_def resumable_def Let_def)
    ultimately show ?thesis by simp
  qed
  moreover have "pending_full cfg (mc_state c0)"
    using inv by (simp add: c0_def entry_inv_def)
  ultimately show ?thesis using mi0 cost by (simp add: pages_inv_def)
qed

definition all_mapped :: "map_cfg \<Rightarrow> dma_sg list \<Rightarrow> 'e map_ctx \<Rightarrow> bool" where
  "all_mapped cfg scat c \<longleftrightarrow>
     mapped cfg c = sgs_bytes scat \<and> counts_ok (mc_state c) \<and>
     ms_total_len (mc_state c) = of_nat (length (sgs_bytes scat)) \<and>
     ms_ndesc (mc_state c) \<le> descs_cost cfg scat"

lemma page_aligned: "a AND NOT (dev_mr_page_mask (mp_dev cfg)) = 0 \<Longrightarrow> page_offset cfg a = 0"
  by (simp add: page_offset_def)

lemma word_of_max_size:
  assumes "dev_ok (mp_dev cfg)" and "\<not> word_of_int (dev_mr_max_size (mp_dev cfg)) < (l :: u32)"
  shows "unat l \<le> page_size cfg * max_pages cfg"
proof -
  obtain m: "dev_mr_max_size (mp_dev cfg) = int (page_size cfg * max_pages cfg)"
    "page_size cfg * max_pages cfg < 2 ^ 31"
    using assms(1) by (rule dev_okE)
  have w: "(word_of_int (dev_mr_max_size (mp_dev cfg)) :: u32) = of_nat (page_size cfg * max_pages cfg)"
    unfolding m(1) by (rule of_int_of_nat_eq)
  have u: "unat (of_nat (page_size cfg * max_pages cfg) :: u32) = page_size cfg * max_pages cfg"
    unfolding unat_of_nat using m(2) by (intro mod_less) simp
  show ?thesis
    using assms(2) unfolding w not_less word_le_nat_alt u .
qed

lemma entry_inv_done:
  assumes "pages_done cfg scat i len c" and "resumable cfg scat c" and "unat len = page_size cfg"
  shows "entry_inv cfg scat (Suc i) c"
  using assms by (simp add: entry_inv_def pages_done_def)

lemma entry_inv_closed:
  assumes "map_inv cfg (sgs_bytes (take i scat)) (descs_cost cfg (take i scat)) c"
    and "ms_pages (mc_state c) = []"
  shows "entry_inv cfg scat i (upd_state (srp_map_update_start None 0 0) c)"
  using assms by (simp add: entry_inv_def pending_full_def)

lemma entry_inv_skip:
  assumes "entry_inv cfg scat i c" and "i < length scat" and "sg_len (scat ! i) = 0"
  shows "entry_inv cfg scat (Suc i) c"
proof -
  have "descs_cost cfg (take i scat) \<le> descs_cost cfg (take (Suc i) scat)"
    by (simp add: descs_cost_Suc [OF assms(2)])
  with assms show ?thesis
    by (auto simp: entry_inv_def sgs_bytes_Suc sg_bytes_def intro: map_inv_mono)
qed

context registration
begin

lemma map_sg_entry_direct:
  assumes inv: "entry_inv cfg scat i c" and okc: "ok_ctx V cfg c" and dev: "dev_ok (mp_dev cfg)"
    and il: "i < length scat"
    and f: "srp_finish_mapping V cfg c = Some (0, c1)" "finished cfg c 0 c1" "ok_ctx V cfg c1"
  defines "c' \<equiv> upd_state (\<lambda>s. srp_map_update_start None 0 0
      (srp_map_desc (sg_addr (scat ! i)) (sg_len (scat ! i)) (mp_rkey cfg) s)) c1"
  shows "entry_inv cfg scat (Suc i) c' \<and> ok_ctx V cfg c'"
proof -
  let ?c = "upd_state (srp_map_desc (sg_addr (scat ! i)) (sg_len (scat ! i)) (mp_rkey cfg)) c1"
  have mi: "map_inv cfg (sgs_bytes (take i scat)) (descs_cost cfg (take i scat)) c"
    using inv by (simp add: entry_inv_def)
  have mi1: "map_inv cfg (sgs_bytes (take i scat)) (descs_cost cfg (take i scat)) c1"
    by (rule finished_inv(2) [OF f(2) mi dev]) simp
  have pg: "ms_pages (mc_state c1) = []" using f(2) by (simp add: finished_def)
  have "map_inv cfg (sgs_bytes (take (Suc i) scat)) (descs_cost cfg (take (Suc i) scat)) ?c"
    using map_inv_map_desc [OF mi1 pg, of "sg_addr (scat ! i)" "sg_len (scat ! i)"]
      desc_cost_pos [of cfg "scat ! i"]
    by (auto simp: sgs_bytes_Suc [OF il] descs_cost_Suc [OF il] sg_bytes_def intro: map_inv_mono)
  then have "entry_inv cfg scat (Suc i) (upd_state (srp_map_update_start None 0 0) ?c)"
    using pg by (intro entry_inv_closed) simp_all
  moreover have "c' = upd_state (srp_map_update_start None 0 0) ?c"
    by (simp add: c'_def upd_state_def)
  moreover have "ok_ctx V cfg c'" using ok_map_desc [OF f(3)] by (simp add: c'_def)
  ultimately show ?thesis by simp
qed

lemma map_sg_entry_pages:
  assumes inv: "entry_inv cfg scat i c" and okc: "ok_ctx V cfg c" and dev: "dev_ok (mp_dev cfg)"
    and e: "entry_ok cfg scat i" and l: "sg_len (scat ! i) \<noteq> 0"
  defines "c0 \<equiv> (if ms_unmapped_sg (mc_state c) = None
      then upd_state (srp_map_update_start (Some (scat ! i)) i (sg_addr (scat ! i))) c else c)"
  shows "\<exists>ret c'. Option.bind (srp_map_pages V cfg (scat ! i) i (sg_addr (scat ! i)) (sg_len (scat ! i)) 0 c0)
      (\<lambda>(r, c1). case r of
         Inl ret \<Rightarrow> Some (ret, c1)
       | Inr len \<Rightarrow>
           if len \<noteq> word_of_int (dev_mr_page_size (mp_dev cfg))
           then map_option
             (\<lambda>(ret, c2). (ret, if ret = 0
                then upd_state (srp_map_update_start None 0 0) c2 else c2))
             (srp_finish_mapping V cfg c1)
           else Some (0, c1)) = Some (ret, c') \<and> ok_ctx V cfg c' \<and>
    (if ret = 0 then entry_inv cfg scat (Suc i) c' else resumable cfg scat c')"
proof -
  let ?r = "unat (sg_len (scat ! i))" and ?w = "word_of_int (dev_mr_page_size (mp_dev cfg)) :: u32"
  have r: "0 < ?r" using l by (simp add: unat_gt_0)
  have a: "sg_at scat i ?r = sg_addr (scat ! i)" by (simp add: sg_at_def)
  have "pages_inv cfg scat i ?r c0" unfolding c0_def by (rule pages_inv_start [OF inv dev e r])
  moreover have "ok_ctx V cfg c0" using okc by (simp add: c0_def)
  moreover have "\<not> dev_use_fast_reg (mp_dev cfg) \<longrightarrow> page_offset cfg (sg_at scat i ?r) = 0"
    using e by (simp add: a entry_ok_def)
  ultimately obtain res c1 where m: "srp_map_pages V cfg (scat ! i) i (sg_addr (scat ! i)) (sg_len (scat ! i)) 0 c0 =
      Some (res, c1)" "ok_ctx V cfg c1" "resumable cfg scat c1"
      "case res of Inl ret \<Rightarrow> ret \<noteq> 0 | Inr len' \<Rightarrow> pages_done cfg scat i len' c1"
    using map_pages [OF dev e _ _ r order_refl] unfolding a by blast
  show ?thesis
  proof (cases res)
    case (Inl ret)
    then show ?thesis using m by simp
  next
    case (Inr len)
    then have d: "pages_done cfg scat i len c1" using m(4) by simp
    show ?thesis
    proof (cases "len = ?w")
      case True
      then have "entry_inv cfg scat (Suc i) c1"
        using word_of_page_size [OF dev] by (intro entry_inv_done [OF d m(3)]) simp
      then show ?thesis using True m Inr by simp
    next
      case False
      have mi: "map_inv cfg (sgs_bytes (take (Suc i) scat)) (descs_cost cfg (take (Suc i) scat)) c1"
        using d by (simp add: pages_done_def)
      then have p: "pending_ok cfg (mc_state c1)" "base_ok cfg (mc_state c1)"
        by (simp_all add: map_inv_def)
      obtain ret c2 where f: "srp_finish_mapping V cfg c1 = Some (ret, c2)" "finished cfg c1 ret c2"
        "ok_ctx V cfg c2"
        by (rule finish_mapping [OF m(2) dev p])
      have "entry_inv cfg scat (Suc i) (upd_state (srp_map_update_start None 0 0) c2)" if "ret = 0"
        using finished_inv(2) [OF f(2) mi dev that] f(2) that
        by (intro entry_inv_closed) (simp_all add: finished_def)
      moreover have "resumable cfg scat c2" if "ret \<noteq> 0"
        by (rule finished_inv(3) [OF f(2) mi dev that m(3)])
      ultimately show ?thesis using False m Inr f by simp
    qed
  qed
qed

lemma map_sg_entry:
  assumes inv: "entry_inv cfg scat i c" and okc: "ok_ctx V cfg c" and dev: "dev_ok (mp_dev cfg)"
    and il: "i < length scat"
  shows "\<exists>ret c'. srp_map_sg_entry V cfg (scat ! i) i True c = Some (ret, c') \<and> ok_ctx V cfg c' \<and>
    (if ret = 0 then entry_inv cfg scat (Suc i) c' else resumable cfg scat c')"
proof -
  let ?sg = "scat ! i" and ?dev = "mp_dev cfg"
  have mi: "map_inv cfg (sgs_bytes (take i scat)) (descs_cost cfg (take i scat)) c"
    using inv by (simp add: entry_inv_def)
  then have p: "pending_ok cfg (mc_state c)" "base_ok cfg (mc_state c)" by (simp_all add: map_inv_def)
  consider (zero) "sg_len ?sg = 0"
    | (direct) "sg_len ?sg \<noteq> 0" "(\<not> dev_use_fast_reg ?dev \<and>
          sg_addr ?sg AND NOT (dev_mr_page_mask ?dev) \<noteq> 0) \<or> sg_len ?sg > word_of_int (dev_mr_max_size ?dev)"
    | (pages) "sg_len ?sg \<noteq> 0" "\<not> ((\<not> dev_use_fast_reg ?dev \<and>
          sg_addr ?sg AND NOT (dev_mr_page_mask ?dev) \<noteq> 0) \<or> sg_len ?sg > word_of_int (dev_mr_max_size ?dev))"
    by blast
  then show ?thesis
  proof cases
    case zero
    then show ?thesis using entry_inv_skip [OF inv il] okc by (simp add: srp_map_sg_entry_def)
  next
    case direct
    obtain ret c1 where f: "srp_finish_mapping V cfg c = Some (ret, c1)" "finished cfg c ret c1"
      "ok_ctx V cfg c1"
      by (rule finish_mapping [OF okc dev p])
    show ?thesis
    proof (cases "ret = 0")
      case True
      then show ?thesis using map_sg_entry_direct [OF inv okc dev il] f direct
        by (simp add: srp_map_sg_entry_def Let_def)
    next
      case False
      then have "ms_pages (mc_state c) \<noteq> []" using f(2) by (auto simp: finished_def)
      then have "resumable cfg scat c" using inv by (simp add: entry_inv_def)
      then have "resumable cfg scat c1" by (rule finished_inv(3) [OF f(2) mi dev False])
      with False f direct show ?thesis by (simp add: srp_map_sg_entry_def Let_def)
    qed
  next
    case pages
    then have e: "entry_ok cfg scat i"
      using il word_of_max_size [OF dev] by (auto simp: entry_ok_def page_aligned)
    show ?thesis
      unfolding srp_map_sg_entry_def Let_def if_not_P [OF pages(1)] if_not_P [OF pages(2)]
        not_True_eq_False if_False
      by (rule map_sg_entry_pages [OF inv okc dev e pages(1)])
  qed
qed
end

lemma map_sg_entry_no_mr:
  "srp_map_sg_entry V cfg sg i False c =
     Some (0, if sg_len sg = 0 then c else upd_state (srp_map_desc (sg_addr sg) (sg_len sg) (mp_rkey cfg)) c)"
  by (simp add: srp_map_sg_entry_def Let_def)

definition direct_inv :: "map_cfg \<Rightarrow> dma_sg list \<Rightarrow> nat \<Rightarrow> 'e map_ctx \<Rightarrow> bool" where
  "direct_inv cfg scat i c \<longleftrightarrow>
     mapped cfg c = sgs_bytes (take i scat) \<and> counts_ok (mc_state c) \<and>
     ms_total_len (mc_state c) = of_nat (length (mapped cfg c)) \<and>
     ms_ndesc (mc_state c) \<le> descs_cost cfg (take i scat)"

lemma direct_inv_step:
  assumes "direct_inv cfg scat i c" and "i < length scat"
  shows "direct_inv cfg scat (Suc i) (if sg_len (scat ! i) = 0 then c
    else upd_state (srp_map_desc (sg_addr (scat ! i)) (sg_len (scat ! i)) (mp_rkey cfg)) c)"
  using assms desc_cost_pos [of cfg "scat ! i"]
  by (simp add: direct_inv_def sgs_bytes_Suc descs_cost_Suc sg_bytes_def)

lemma direct_inv_backtrack:
  assumes "resumable cfg scat c"
  obtains j c' where "srp_backtrack cfg c = Some (j, c')" "j < length scat" "direct_inv cfg scat (Suc j) c'"
    "c' = upd_state (srp_map_desc (ms_unmapped_addr (mc_state c))
       (sg_len (scat ! j) - ucast (ms_unmapped_addr (mc_state c) - sg_addr (scat ! j))) (mp_rkey cfg)) c"
proof -
  let ?s = "mc_state c" and ?u = "ms_unmapped_index (mc_state c)"
  let ?sg = "scat ! ?u" and ?d = "ms_unmapped_addr ?s - sg_addr (scat ! ?u)"
  let ?c' = "upd_state (srp_map_desc (ms_unmapped_addr ?s) (sg_len ?sg - ucast ?d) (mp_rkey cfg)) c"
  have r: "ms_unmapped_sg ?s = Some ?sg" "?u < length scat" "unat ?d \<le> unat (sg_len ?sg)"
    "mapped cfg c = sgs_bytes (take ?u scat) @ addr_range (sg_addr ?sg) (unat ?d)"
    "counts_ok ?s" "ms_total_len ?s = of_nat (length (mapped cfg c))"
    "ms_ndesc ?s + 1 \<le> descs_cost cfg (take (Suc ?u) scat)"
    using assms by (simp_all add: resumable_def Let_def)
  have "unat (sg_len ?sg) < 2 ^ 32" using unsigned_less [of "sg_len ?sg"] by simp
  with r(3) have "unat ?d < 2 ^ 32" by linarith
  then have uc: "unat (ucast ?d :: u32) = unat ?d"
    by (simp add: unsigned_ucast_eq take_bit_nat_eq_self)
  then have le: "(ucast ?d :: u32) \<le> sg_len ?sg" using r(3) by (simp only: word_le_nat_alt)
  have len: "unat (sg_len ?sg - ucast ?d) = unat (sg_len ?sg) - unat ?d"
    by (simp only: unat_sub [OF le] uc)
  have "sg_addr ?sg + of_nat (unat ?d) = ms_unmapped_addr ?s" by simp
  then have "mapped cfg ?c' = sgs_bytes (take (Suc ?u) scat)"
    using addr_range_add [of "sg_addr ?sg" "unat ?d" "unat (sg_len ?sg) - unat ?d"] r(3)
    by (simp add: r(4) len sgs_bytes_Suc [OF r(2)] sg_bytes_def)
  moreover have "ms_total_len (mc_state ?c') = of_nat (length (mapped cfg ?c'))"
    by (simp add: r(6))
  ultimately have "direct_inv cfg scat (Suc ?u) ?c'"
    using r(5,7) by (simp add: direct_inv_def)
  then show thesis using r(1,2) by (intro that) (simp_all add: srp_backtrack_def Let_def)
qed

context registration
begin

lemma map_sg_loop_direct:
  assumes "direct_inv cfg scat i c" and "ok_ctx V cfg c" and "i \<le> length scat"
  shows "\<exists>c'. srp_map_sg_loop V cfg scat False i c = Some c' \<and> all_mapped cfg scat c' \<and> ok_ctx V cfg c'"
  using assms
proof (induction "length scat - i" arbitrary: i c rule: less_induct)
  case less
  show ?case
  proof (cases "i < length scat")
    case True
    let ?c = "if sg_len (scat ! i) = 0 then c
      else upd_state (srp_map_desc (sg_addr (scat ! i)) (sg_len (scat ! i)) (mp_rkey cfg)) c"
    have "srp_map_sg_loop V cfg scat False i c = srp_map_sg_loop V cfg scat False (Suc i) ?c"
      by (subst srp_map_sg_loop.simps) (use True in \<open>simp add: map_sg_entry_no_mr\<close>)
    moreover have "ok_ctx V cfg ?c" using less.prems(2) ok_map_desc by simp
    ultimately show ?thesis
      using less.hyps [of "Suc i" ?c] direct_inv_step [OF less.prems(1) True] True by simp
  next
    case False
    then have "srp_map_sg_loop V cfg scat False i c = Some c"
      by (subst srp_map_sg_loop.simps) simp
    then show ?thesis using less.prems False by (simp add: all_mapped_def direct_inv_def)
  qed
qed

lemma map_sg_backtrack:
  assumes "resumable cfg scat c" and "ok_ctx V cfg c"
  shows "\<exists>c'. Option.bind (srp_backtrack cfg c) (\<lambda>(j, c2). srp_map_sg_loop V cfg scat False (Suc j) c2) = Some c' \<and>
    all_mapped cfg scat c' \<and> ok_ctx V cfg c'"
proof -
  obtain j c' where b: "srp_backtrack cfg c = Some (j, c')" "j < length scat"
    "direct_inv cfg scat (Suc j) c'"
    "c' = upd_state (srp_map_desc (ms_unmapped_addr (mc_state c))
       (sg_len (scat ! j) - ucast (ms_unmapped_addr (mc_state c) - sg_addr (scat ! j))) (mp_rkey cfg)) c"
    by (rule direct_inv_backtrack [OF assms(1)])
  have "ok_ctx V cfg c'" unfolding b(4) by (rule ok_map_desc [OF assms(2)])
  then show ?thesis using map_sg_loop_direct [OF b(3)] b(1,2) by simp
qed

lemma map_sg_loop:
  assumes dev: "dev_ok (mp_dev cfg)"
    and "entry_inv cfg scat i c" and "ok_ctx V cfg c" and "i \<le> length scat"
  shows "\<exists>c'. srp_map_sg_loop V cfg scat True i c = Some c' \<and> all_mapped cfg scat c' \<and> ok_ctx V cfg c'"
  using assms(2-)
proof (induction "length scat - i" arbitrary: i c rule: less_induct)
  case less
  show ?case
  proof (cases "i < length scat")
    case True
    obtain ret c1 where e: "srp_map_sg_entry V cfg (scat ! i) i True c = Some (ret, c1)" "ok_ctx V cfg c1"
      "if ret = 0 then entry_inv cfg scat (Suc i) c1 else resumable cfg scat c1"
      using map_sg_entry [OF less.prems(1,2) dev True] by blast
    show ?thesis
    proof (cases "ret = 0")
      case r: True
      have "srp_map_sg_loop V cfg scat True i c = srp_map_sg_loop V cfg scat True (Suc i) c1"
        by (subst srp_map_sg_loop.simps) (use True e r in simp)
      then show ?thesis using less.hyps [of "Suc i" c1] e r True by simp
    next
      case False
      have "srp_map_sg_loop V cfg scat True i c =
          Option.bind (srp_backtrack cfg c1) (\<lambda>(j, c2). srp_map_sg_loop V cfg scat False (Suc j) c2)"
        by (subst srp_map_sg_loop.simps) (use True e False in simp)
      then show ?thesis using map_sg_backtrack [of cfg scat c1] e False by simp
    qed
  next
    case False
    then have mi: "map_inv cfg (sgs_bytes scat) (descs_cost cfg scat) c"
      using less.prems by (simp add: entry_inv_def)
    then have p: "pending_ok cfg (mc_state c)" "base_ok cfg (mc_state c)" by (simp_all add: map_inv_def)
    obtain ret c1 where f: "srp_finish_mapping V cfg c = Some (ret, c1)" "finished cfg c ret c1"
      "ok_ctx V cfg c1"
      by (rule finish_mapping [OF less.prems(2) dev p])
    show ?thesis
    proof (cases "ret = 0")
      case r: True
      have "srp_map_sg_loop V cfg scat True i c = Some c1"
        by (subst srp_map_sg_loop.simps) (use False f r in simp)
      moreover have "map_inv cfg (sgs_bytes scat) (descs_cost cfg scat) c1" "mapped cfg c1 = sgs_bytes scat"
        using finished_inv(1,2) [OF f(2) mi dev r] by simp_all
      ultimately show ?thesis using f(3) by (simp add: all_mapped_def map_inv_def)
    next
      case nr: False
      then have "ms_pages (mc_state c) \<noteq> []" using f(2) by (auto simp: finished_def)
      then have "resumable cfg scat c" using less.prems by (simp add: entry_inv_def)
      then have "resumable cfg scat c1" by (rule finished_inv(3) [OF f(2) mi dev nr])
      moreover have "srp_map_sg_loop V cfg scat True i c =
          Option.bind (srp_backtrack cfg c1) (\<lambda>(j, c2). srp_map_sg_loop V cfg scat False (Suc j) c2)"
        by (subst srp_map_sg_loop.simps) (use False f nr in simp)
      ultimately show ?thesis using map_sg_backtrack f(3) by simp
    qed
  qed
qed

lemma map_sg:
  assumes "dev_ok (mp_dev cfg)" and "ok V cfg [] (mc_fr_pool c) (mc_hw c)"
    and "mc_state c = zeroed_map_state"
  shows "\<exists>c'. srp_map_sg V cfg scat c = Some c' \<and> all_mapped cfg scat c' \<and> ok_ctx V cfg c'"
proof -
  have okc: "ok_ctx V cfg c" using assms(2,3) by (simp add: zeroed_map_state_def)
  have m: "mapped cfg c = []" using assms(3) by (simp add: mapped_def zeroed_map_state_def)
  have "entry_inv cfg scat 0 c" "direct_inv cfg scat 0 c"
    using assms(3) m by (simp_all add: entry_inv_def direct_inv_def map_inv_def zeroed_map_state_def
        pending_def pending_ok_def base_ok_def counts_ok_def pending_full_def)
  then have "\<exists>c'. srp_map_sg_loop V cfg scat b 0 c = Some c' \<and> all_mapped cfg scat c' \<and> ok_ctx V cfg c'" for b
    using map_sg_loop [OF assms(1) _ okc, of scat 0] map_sg_loop_direct [OF _ okc, of scat 0]
    by (cases b) simp_all
  then show ?thesis unfolding srp_map_sg_def Let_def .
qed

end

section \<open>Registration through an FMR pool\<close>

text \<open>
  What the driver relies on in \<^verbatim>\<open>ib_fmr_pool_map_phys()\<close>: an error code is not zero, and the region
  returned has a key that is neither that of all memory nor that of another region in use,
  unless it maps the same pages. \<open>J\<close> are the states of the environment that occur.
\<close>

definition fmr_pool_ok :: "('e hw \<Rightarrow> bool) \<Rightarrow> 'e verbs \<Rightarrow> map_cfg \<Rightarrow> bool" where
  "fmr_pool_ok J V cfg \<longleftrightarrow> (\<forall>pool pages h. J h \<longrightarrow>
     (case ib_fmr_pool_map_phys V pool pages h of
        (Inl r, h') \<Rightarrow> r \<noteq> 0 \<and> J h'
      | (Inr f, h') \<Rightarrow> J h' \<and> fmr_rkey f \<noteq> mp_rkey cfg \<and>
          (hw_table h (fmr_rkey f) = None \<or> hw_table h (fmr_rkey f) = Some (0, pages))))"

abbreviation desc_key :: "srp_direct_buf \<Rightarrow> u32" where
  "desc_key d \<equiv> be32_to_cpu (db_key d)"

definition fmr_ok :: "('e hw \<Rightarrow> bool) \<Rightarrow> 'e verbs \<Rightarrow> map_cfg \<Rightarrow> srp_direct_buf list \<Rightarrow>
    srp_fr_pool option \<Rightarrow> 'e hw \<Rightarrow> bool" where
  "fmr_ok J V cfg ds p h \<longleftrightarrow> \<not> dev_use_fast_reg (mp_dev cfg) \<and> mp_fmr_pool cfg \<noteq> None \<and> J h \<and>
     fmr_pool_ok J V cfg \<and> (\<forall>d \<in> set ds. desc_key d = mp_rkey cfg \<or> hw_table h (desc_key d) \<noteq> None)"

lemma page_offset_0 [simp]: "page_offset cfg 0 = 0"
  by (simp add: page_offset_def)

lemma desc_addrs_cong:
  "(desc_key d \<noteq> mp_rkey cfg \<Longrightarrow> T (desc_key d) = T' (desc_key d)) \<Longrightarrow>
   desc_addrs cfg T d = desc_addrs cfg T' d"
  by (simp add: desc_addrs_def Let_def)

lemma mapped_cong:
  assumes "\<And>d. d \<in> set ds \<Longrightarrow> desc_key d \<noteq> mp_rkey cfg \<Longrightarrow> T (desc_key d) = T' (desc_key d)"
  shows "concat (map (desc_addrs cfg T) ds) = concat (map (desc_addrs cfg T') ds)"
  using assms by (intro arg_cong [where f = concat] map_cong) (auto intro: desc_addrs_cong)

lemma fmr_pool_okD:
  assumes "fmr_pool_ok J V cfg" and "J h" and "ib_fmr_pool_map_phys V pool pages h = (r, h')"
  shows "J h' \<and> (case r of Inl err \<Rightarrow> err \<noteq> 0 | Inr f \<Rightarrow> fmr_rkey f \<noteq> mp_rkey cfg \<and>
    (hw_table h (fmr_rkey f) = None \<or> hw_table h (fmr_rkey f) = Some (0, pages)))"
  using assms(1) [unfolded fmr_pool_ok_def, rule_format, OF assms(2), of pages pool] assms(3)
  by (auto split: sum.splits)

lemma finish_fmr:
  assumes ok: "fmr_ok J V cfg (ms_desc (mc_state c)) (mc_fr_pool c) (mc_hw c)"
    and ne: "ms_pages (mc_state c) \<noteq> []" and base: "base_ok cfg (mc_state c)"
  shows "\<exists>ret c'. srp_map_finish_fmr V cfg c = Some (ret, c') \<and> registers cfg c ret c' \<and>
    fmr_ok J V cfg (ms_desc (mc_state c')) (mc_fr_pool c') (mc_hw c')"
proof -
  let ?s = "mc_state c" and ?pages = "ms_pages (mc_state c)" and ?h = "mc_hw c"
  obtain pool where pool: "mp_fmr_pool cfg = Some pool" using ok by (auto simp: fmr_ok_def)
  have J: "J ?h" "fmr_pool_ok J V cfg" using ok by (simp_all add: fmr_ok_def)
  show ?thesis
  proof (cases "v_fmr_pool_map_phys V pool ?pages (hw_env ?h)")
    case (Pair r e)
    show ?thesis
    proof (cases r)
      case (Inl err)
      then have call: "ib_fmr_pool_map_phys V pool ?pages ?h = (Inl err, ?h\<lparr>hw_env := e\<rparr>)"
        using Pair by (simp add: ib_fmr_pool_map_phys_def)
      then have "err \<noteq> 0" "J (?h\<lparr>hw_env := e\<rparr>)"
        using fmr_pool_okD [OF J(2,1) call] by simp_all
      then show ?thesis using ok pool call
        by (simp add: srp_map_finish_fmr_def registers_def mapped_def fmr_ok_def)
    next
      case (Inr f)
      let ?k = "fmr_rkey f" and ?h' = "logged (Fmr_Map (fmr_rkey f) ?pages) e ?h"
      have call: "ib_fmr_pool_map_phys V pool ?pages ?h = (Inr f, ?h')"
        using Pair Inr by (simp add: ib_fmr_pool_map_phys_def)
      then have k: "J ?h'" "?k \<noteq> mp_rkey cfg" "hw_table ?h ?k = None \<or> hw_table ?h ?k = Some (0, ?pages)"
        using fmr_pool_okD [OF J(2,1) call] by simp_all
      let ?c' = "upd_state (\<lambda>s. srp_map_desc 0 (ms_dma_len s) ?k
          (s\<lparr>ms_mdescs := ms_mdescs s @ [FMR_desc f], ms_nmdesc := ms_nmdesc s + 1\<rparr>)) (c\<lparr>mc_hw := ?h'\<rparr>)"
      have old: "d \<in> set (ms_desc ?s) \<Longrightarrow> desc_key d \<noteq> mp_rkey cfg \<Longrightarrow>
          hw_table ?h' (desc_key d) = hw_table ?h (desc_key d)" for d
        using ok k(3) by (auto simp: fmr_ok_def)
      have "page_offset cfg (ms_base_dma_addr ?s) = 0"
        using base ne ok by (simp add: base_ok_def fmr_ok_def)
      then have "mapped cfg ?c' = mapped cfg c @ pending cfg ?s"
        using mapped_cong [where T = "hw_table ?h'" and T' = "hw_table ?h", OF old] k(2) ne
        by (simp add: mapped_def srp_map_desc_def desc_addrs_def pending_def)
      then have "registers cfg c 0 ?c'"
        by (simp add: registers_def srp_map_desc_def counts_ok_def)
      moreover have "fmr_ok J V cfg (ms_desc (mc_state ?c')) (mc_fr_pool ?c') (mc_hw ?c')"
        using ok k(1) by (auto simp: fmr_ok_def srp_map_desc_def)
      ultimately show ?thesis using pool call by (simp add: srp_map_finish_fmr_def)
    qed
  qed
qed

interpretation fmr: registration "fmr_ok J" for J
proof
  fix V :: "'a verbs" and cfg and c :: "'a map_ctx"
  assume "fmr_ok J V cfg (ms_desc (mc_state c)) (mc_fr_pool c) (mc_hw c)"
    "ms_pages (mc_state c) \<noteq> []" "base_ok cfg (mc_state c)"
  then show "\<exists>ret c'. srp_map_finish_mr V cfg c = Some (ret, c') \<and> registers cfg c ret c' \<and>
      fmr_ok J V cfg (ms_desc (mc_state c')) (mc_fr_pool c') (mc_hw c')"
    using finish_fmr [of J V cfg c] by (simp add: srp_map_finish_mr_def fmr_ok_def)
qed (auto simp: fmr_ok_def)

section \<open>Registration by fast registration work requests\<close>

definition key_index :: "u32 \<Rightarrow> u32" where
  "key_index k = drop_bit 8 k"

lemma key_index_update: "key_index ((k AND 0xffffff00) OR ucast (b :: u8)) = key_index k"
proof -
  have m: "(0xffffff00 :: u32) = NOT (mask 8)" by (simp add: mask_eq_exp_minus_1)
  show ?thesis unfolding key_index_def m
    by (rule bit_word_eqI) (auto simp: bit_simps dest: bit_imp_le_length)
qed

text \<open>The keys of the memory regions in the pool differ in more than the part that is
  incremented for each use; the local and remote key of such a region are equal.\<close>

definition fr_pool_ok :: "map_cfg \<Rightarrow> srp_fr_pool \<Rightarrow> bool" where
  "fr_pool_ok cfg pool \<longleftrightarrow>
     distinct (frp_free_list pool) \<and> (\<forall>i \<in> set (frp_free_list pool). i < length (frp_desc pool)) \<and>
     list_all (\<lambda>d. case fr_mr d of None \<Rightarrow> False
        | Some mr \<Rightarrow> mr_lkey mr = mr_rkey mr \<and> key_index (mr_rkey mr) \<noteq> key_index (mp_rkey cfg))
       (frp_desc pool) \<and>
     distinct (map (\<lambda>d. map_option (key_index \<circ> mr_rkey) (fr_mr d)) (frp_desc pool))"

definition posts_ok :: "('e hw \<Rightarrow> bool) \<Rightarrow> 'e verbs \<Rightarrow> bool" where
  "posts_ok J V \<longleftrightarrow> (\<forall>qp wr h. J h \<longrightarrow> fst (ib_post_send V qp wr h) = 0 \<and> J (snd (ib_post_send V qp wr h)))"

definition desc_held :: "srp_fr_pool \<Rightarrow> srp_direct_buf \<Rightarrow> bool" where
  "desc_held pool d \<longleftrightarrow> (\<exists>i < length (frp_desc pool). i \<notin> set (frp_free_list pool) \<and>
     map_option mr_rkey (fr_mr (frp_desc pool ! i)) = Some (desc_key d))"

definition fr_ok :: "('e hw \<Rightarrow> bool) \<Rightarrow> 'e verbs \<Rightarrow> map_cfg \<Rightarrow> srp_direct_buf list \<Rightarrow>
    srp_fr_pool option \<Rightarrow> 'e hw \<Rightarrow> bool" where
  "fr_ok J V cfg ds p h \<longleftrightarrow> dev_use_fast_reg (mp_dev cfg) \<and> J h \<and> posts_ok J V \<and>
     (case p of None \<Rightarrow> False | Some pool \<Rightarrow> fr_pool_ok cfg pool \<and>
        (\<forall>d \<in> set ds. desc_key d = mp_rkey cfg \<or> desc_held pool d))"

lemma key_indexes_distinct:
  assumes "fr_pool_ok cfg pool" and "i < length (frp_desc pool)" and "j < length (frp_desc pool)"
    and "i \<noteq> j" and "fr_mr (frp_desc pool ! i) = Some mr" and "fr_mr (frp_desc pool ! j) = Some mr'"
  shows "key_index (mr_rkey mr) \<noteq> key_index (mr_rkey mr')"
proof -
  have "distinct (map (\<lambda>d. map_option (key_index \<circ> mr_rkey) (fr_mr d)) (frp_desc pool))"
    using assms(1) by (simp add: fr_pool_ok_def)
  then show ?thesis using assms(2-)
    unfolding distinct_conv_nth length_map by (metis (no_types, lifting) comp_apply nth_map option.simps(9))
qed

lemma fr_pool_okD:
  assumes "fr_pool_ok cfg pool" and "i < length (frp_desc pool)"
  obtains mr where "fr_mr (frp_desc pool ! i) = Some mr" "mr_lkey mr = mr_rkey mr"
    "key_index (mr_rkey mr) \<noteq> key_index (mp_rkey cfg)"
  using assms by (force simp: fr_pool_ok_def list_all_length split: option.splits)

text \<open>Taking a descriptor and giving its region a new key.\<close>

definition fr_taken :: "nat \<Rightarrow> ib_mr \<Rightarrow> u64 list \<Rightarrow> srp_fr_pool \<Rightarrow> srp_fr_pool" where
  "fr_taken d mr pages pool = pool\<lparr>frp_free_list := tl (frp_free_list pool),
     frp_desc := (frp_desc pool)[d := (frp_desc pool ! d)\<lparr>fr_mr := Some mr, fr_page_list := pages\<rparr>]\<rparr>"

lemma fr_pool_ok_taken:
  assumes ok: "fr_pool_ok cfg pool" and free: "frp_free_list pool = d # ds"
    and mr: "fr_mr (frp_desc pool ! d) = Some mr"
    and mr': "mr_lkey mr' = mr_rkey mr'" "key_index (mr_rkey mr') = key_index (mr_rkey mr)"
  shows "fr_pool_ok cfg (fr_taken d mr' pages pool)"
proof -
  let ?f = "\<lambda>d. map_option (key_index \<circ> mr_rkey) (fr_mr d)"
  let ?d = "(frp_desc pool ! d)\<lparr>fr_mr := Some mr', fr_page_list := pages\<rparr>"
  have d: "d < length (frp_desc pool)" using ok free by (simp add: fr_pool_ok_def)
  have "?f ?d = ?f (frp_desc pool ! d)" using mr mr'(2) by simp
  then have "map ?f ((frp_desc pool)[d := ?d]) = map ?f (frp_desc pool)"
    using d by (simp add: map_update list_update_same_conv)
  moreover have "key_index (mr_rkey mr) \<noteq> key_index (mp_rkey cfg)"
    using fr_pool_okD [OF ok d] mr by (metis option.inject)
  ultimately show ?thesis using ok free mr' d
    by (auto simp: fr_pool_ok_def fr_taken_def list_all_length nth_list_update)
qed

lemma desc_held_taken:
  assumes "desc_held pool b" and "frp_free_list pool = d # ds"
  shows "desc_held (fr_taken d mr' pages pool) b"
  using assms by (auto simp: desc_held_def fr_taken_def nth_list_update)

lemma held_key_index:
  assumes "fr_pool_ok cfg pool" and "desc_held pool b" and "frp_free_list pool = d # ds"
    and "fr_mr (frp_desc pool ! d) = Some mr"
  shows "key_index (desc_key b) \<noteq> key_index (mr_rkey mr)"
proof -
  obtain i z where i: "i < length (frp_desc pool)" "i \<noteq> d"
      "fr_mr (frp_desc pool ! i) = Some z" "mr_rkey z = desc_key b"
    using assms(2,3) by (auto simp: desc_held_def)
  have "d < length (frp_desc pool)" using assms(1,3) by (simp add: fr_pool_ok_def)
  from key_indexes_distinct [OF assms(1) i(1) this i(2,3) assms(4)]
  show ?thesis unfolding i(4) .
qed

lemma posts_okD:
  assumes "posts_ok J V" and "J h"
  obtains e where "ib_post_send V qp wr h = (0, logged (Post_Send wr 0) e h)"
    "J (logged (Post_Send wr 0) e h)"
proof -
  have p: "fst (ib_post_send V qp wr h) = 0" "J (snd (ib_post_send V qp wr h))"
    using assms by (simp_all add: posts_ok_def)
  obtain r e where "v_post_send V qp wr (hw_env h) = (r, e)" by (meson surj_pair)
  then show thesis using p that by (simp add: ib_post_send_def)
qed

lemma finish_fr:
  assumes ok: "fr_ok J V cfg (ms_desc (mc_state c)) (mc_fr_pool c) (mc_hw c)"
    and ne: "ms_pages (mc_state c) \<noteq> []"
  shows "\<exists>ret c'. srp_map_finish_fr V cfg c = Some (ret, c') \<and> registers cfg c ret c' \<and>
    fr_ok J V cfg (ms_desc (mc_state c')) (mc_fr_pool c') (mc_hw c')"
proof -
  let ?s = "mc_state c" and ?pages = "ms_pages (mc_state c)" and ?h = "mc_hw c"
  obtain pool where pool: "mc_fr_pool c = Some pool" "fr_pool_ok cfg pool"
      "\<forall>d \<in> set (ms_desc ?s). desc_key d = mp_rkey cfg \<or> desc_held pool d"
    using ok by (auto simp: fr_ok_def split: option.splits)
  show ?thesis
  proof (cases "frp_free_list pool")
    case Nil
    then show ?thesis using ok pool
      by (simp add: srp_map_finish_fr_def srp_fr_pool_get_def registers_def mapped_def)
  next
    case (Cons d ds)
    have d: "d < length (frp_desc pool)" using pool(2) Cons by (simp add: fr_pool_ok_def)
    obtain mr where mr: "fr_mr (frp_desc pool ! d) = Some mr" "mr_lkey mr = mr_rkey mr"
      "key_index (mr_rkey mr) \<noteq> key_index (mp_rkey cfg)"
      using fr_pool_okD [OF pool(2) d] .
    let ?mr = "ib_update_fast_reg_key mr (ucast (ib_inc_rkey (mr_rkey mr)))"
    have mr': "mr_lkey ?mr = mr_rkey ?mr" "key_index (mr_rkey ?mr) = key_index (mr_rkey mr)"
      using mr(2) by (simp_all add: ib_update_fast_reg_key_def key_index_update)
    let ?wr = "WR_FAST_REG_MR FAST_REG_WR_ID_MASK (ms_base_dma_addr ?s) ?pages
        (ilog2 (page_size cfg)) (ms_dma_len ?s) (mr_lkey ?mr)"
    have "posts_ok J V" "J ?h" using ok by (simp_all add: fr_ok_def)
    then obtain e where post: "ib_post_send V (mp_qp cfg) ?wr ?h = (0, logged (Post_Send ?wr 0) e ?h)"
      and J: "J (logged (Post_Send ?wr 0) e ?h)"
      by (rule posts_okD)
    let ?h' = "logged (Post_Send ?wr 0) e ?h"
    let ?s' = "srp_map_desc (ms_base_dma_addr ?s) (ms_dma_len ?s) (mr_rkey ?mr)
        (?s\<lparr>ms_mdescs := ms_mdescs ?s @ [FR_desc d], ms_nmdesc := ms_nmdesc ?s + 1\<rparr>)"
    let ?c' = "\<lparr>mc_state = ?s', mc_fr_pool = Some (fr_taken d ?mr ?pages pool), mc_hw = ?h'\<rparr>"
    have eq: "srp_map_finish_fr V cfg c = Some (0, ?c')"
      using pool(1) Cons mr(1) post
      by (simp add: srp_map_finish_fr_def srp_fr_pool_get_def Let_def fr_taken_def)
    have old: "b \<in> set (ms_desc ?s) \<Longrightarrow> desc_key b \<noteq> mp_rkey cfg \<Longrightarrow>
        hw_table ?h' (desc_key b) = hw_table ?h (desc_key b)" for b
      using held_key_index [OF pool(2) _ Cons mr(1), of b] pool(3) mr' by auto
    have "mr_rkey ?mr \<noteq> mp_rkey cfg" using mr(3) mr'(2) by auto
    then have "mapped cfg ?c' = mapped cfg c @ pending cfg ?s"
      using mapped_cong [where T = "hw_table ?h'" and T' = "hw_table ?h", OF old] ne mr'(1)
      by (simp add: mapped_def srp_map_desc_def desc_addrs_def pending_def)
    then have "registers cfg c 0 ?c'"
      by (simp add: registers_def srp_map_desc_def counts_ok_def)
    moreover have "desc_held (fr_taken d ?mr ?pages pool) (last (ms_desc ?s'))"
      using Cons d pool(2) by (auto simp: desc_held_def fr_taken_def srp_map_desc_def fr_pool_ok_def
          intro!: exI [of _ d])
    then have "fr_ok J V cfg (ms_desc (mc_state ?c')) (mc_fr_pool ?c') (mc_hw ?c')"
      using ok J pool(3) fr_pool_ok_taken [OF pool(2) Cons mr(1) mr'] desc_held_taken [OF _ Cons]
      by (auto simp: fr_ok_def srp_map_desc_def)
    ultimately show ?thesis using eq by blast
  qed
qed

interpretation fr: registration "fr_ok J" for J
proof
  fix V :: "'a verbs" and cfg and c :: "'a map_ctx"
  assume "fr_ok J V cfg (ms_desc (mc_state c)) (mc_fr_pool c) (mc_hw c)"
    "ms_pages (mc_state c) \<noteq> []"
  then show "\<exists>ret c'. srp_map_finish_mr V cfg c = Some (ret, c') \<and> registers cfg c ret c' \<and>
      fr_ok J V cfg (ms_desc (mc_state c')) (mc_fr_pool c') (mc_hw c')"
    using finish_fr [of J V cfg c] by (simp add: srp_map_finish_mr_def fr_ok_def)
qed (auto simp: fr_ok_def split: option.splits)

section \<open>Properties\<close>

lemma descs_cost_fmr: "\<not> dev_use_fast_reg (mp_dev cfg) \<Longrightarrow> descs_cost cfg sgs = length sgs"
  by (induction sgs) (simp_all add: desc_cost_def)

lemma descs_cost_le: "descs_cost cfg sgs \<le> 2 * length sgs"
  by (induction sgs) (auto simp: desc_cost_def)

text \<open>C4. Mapping with an FMR pool is exact: whichever calls to \<^verbatim>\<open>ib_fmr_pool_map_phys()\<close> fail, \<^verbatim>\<open>srp_map_sg()\<close>
  returns, the descriptors it wrote, resolved through the HCA's translation table, give access to
  the bytes of the scatter/gather list, each once and in order, \<^verbatim>\<open>total_len\<close> is
  their number, and at most one descriptor is used for each entry of the list.\<close>

theorem fmr_mapping_exact:
  assumes "dev_ok (mp_dev cfg)" and "\<not> dev_use_fast_reg (mp_dev cfg)" and "mp_fmr_pool cfg \<noteq> None"
    and "fmr_pool_ok J V cfg" and "J h"
  shows "\<exists>c'. srp_map_sg V cfg scat \<lparr>mc_state = zeroed_map_state, mc_fr_pool = p, mc_hw = h\<rparr> = Some c' \<and>
    concat (map (desc_addrs cfg (hw_table (mc_hw c'))) (ms_desc (mc_state c'))) = sgs_bytes scat \<and>
    ms_total_len (mc_state c') = of_nat (length (sgs_bytes scat)) \<and>
    ms_ndesc (mc_state c') = length (ms_desc (mc_state c')) \<and>
    ms_ndesc (mc_state c') \<le> length scat \<and>
    ms_nmdesc (mc_state c') = length (ms_mdescs (mc_state c')) \<and>
    ms_nmdesc (mc_state c') \<le> ms_ndesc (mc_state c')"
  using fmr.map_sg [of cfg J V "\<lparr>mc_state = zeroed_map_state, mc_fr_pool = p, mc_hw = h\<rparr>" scat] assms
  by (auto simp: fmr_ok_def all_mapped_def counts_ok_def mapped_def descs_cost_fmr)

definition example_dev :: "bool \<Rightarrow> srp_device" where
  "example_dev fast = \<lparr>dev_mr = Some 0, dev_mr_page_mask = 0xfffffffffffff000, dev_mr_page_size = 4096,
     dev_mr_max_size = 8192, dev_max_pages_per_mr = 2, dev_has_fmr = True, dev_has_fr = True,
     dev_use_fast_reg = fast\<rparr>"

definition example_cfg :: "bool \<Rightarrow> map_cfg" where
  "example_cfg fast = \<lparr>mp_dev = example_dev fast, mp_rkey = 1, mp_register_always = True, mp_qp = 0,
     mp_fmr_pool = Some 0, mp_lkey = 2, mp_cmd_sg_cnt = 12, mp_allow_ext_sg = False,
     mp_enable_imm_data = True, mp_buf_fmt = SRP_BUF_FORMAT_DIRECT OR SRP_BUF_FORMAT_INDIRECT,
     mp_max_it_iu_len = 260\<rparr>"

lemma example_dev_ok [simp]: "dev_ok (example_dev fast)"
  unfolding dev_ok_def by (intro exI [of _ 12]) (simp add: example_dev_def mask_eq_exp_minus_1)

definition example_keys :: "nat hw \<Rightarrow> bool" where
  "example_keys h \<longleftrightarrow> (\<forall>k. hw_table h k \<noteq> None \<longrightarrow> (\<exists>n < min 9 (hw_env h). k = of_nat (256 * n)))"

lemma unat_example_key: "n < 9 \<Longrightarrow> unat (of_nat (256 * n) :: u32) = 256 * n"
  by (simp only: unat_of_nat) (simp add: mod_less)

lemma example_key_inj: "n < 9 \<Longrightarrow> m < 9 \<Longrightarrow> (of_nat (256 * n) :: u32) = of_nat (256 * m) \<longleftrightarrow> n = m"
proof
  assume n: "n < 9" and m: "m < 9" and eq: "(of_nat (256 * n) :: u32) = of_nat (256 * m)"
  have "256 * n = 256 * m"
    using arg_cong [OF eq, of unat] unfolding unat_example_key [OF n] unat_example_key [OF m] .
  then show "n = m" by simp
qed simp

lemma example_fmr_pool_ok: "fmr_pool_ok example_keys (example_verbs 9) (example_cfg fast)"
  unfolding fmr_pool_ok_def
proof (intro allI impI)
  fix pool pages and h :: "nat hw"
  assume J: "example_keys h"
  show "case ib_fmr_pool_map_phys (example_verbs 9) pool pages h of
        (Inl r, h') \<Rightarrow> r \<noteq> 0 \<and> example_keys h'
      | (Inr f, h') \<Rightarrow> example_keys h' \<and> fmr_rkey f \<noteq> mp_rkey (example_cfg fast) \<and>
          (hw_table h (fmr_rkey f) = None \<or> hw_table h (fmr_rkey f) = Some (0, pages))"
  proof (cases "hw_env h < 9")
    case True
    let ?k = "of_nat (256 * hw_env h) :: u32"
    have "hw_table h ?k = None"
    proof (rule ccontr)
      assume "hw_table h ?k \<noteq> None"
      then obtain n where "n < min 9 (hw_env h)" "?k = of_nat (256 * n)"
        using J unfolding example_keys_def by blast
      then show False using example_key_inj [OF True, of n] by (simp del: of_nat_mult)
    qed
    moreover have "?k \<noteq> 1"
    proof
      assume "?k = 1"
      then have "256 * hw_env h = 1" using unat_example_key [OF True] by (simp del: of_nat_mult)
      then show False by presburger
    qed
    moreover have "example_keys (logged (Fmr_Map ?k pages) (Suc (hw_env h)) h)"
      unfolding example_keys_def
    proof (intro allI impI)
      fix k assume "hw_table (logged (Fmr_Map ?k pages) (Suc (hw_env h)) h) k \<noteq> None"
      then consider "k = ?k" | "hw_table h k \<noteq> None" by (auto split: if_splits)
      then show "\<exists>n < min 9 (hw_env (logged (Fmr_Map ?k pages) (Suc (hw_env h)) h)). k = of_nat (256 * n)"
      proof cases
        case 1
        then show ?thesis using True by (intro exI [of _ "hw_env h"]) (simp add: logged_def)
      next
        case 2
        then obtain n where "n < min 9 (hw_env h)" "k = of_nat (256 * n)"
          using J unfolding example_keys_def by blast
        then show ?thesis by (intro exI [of _ n]) (auto simp: logged_def)
      qed
    qed
    ultimately show ?thesis using True
      by (simp add: ib_fmr_pool_map_phys_def example_verbs_def example_cfg_def del: of_nat_mult)
  next
    case False
    moreover have "example_keys (h\<lparr>hw_env := Suc (hw_env h)\<rparr>)"
      unfolding example_keys_def
    proof (intro allI impI)
      fix k assume "hw_table (h\<lparr>hw_env := Suc (hw_env h)\<rparr>) k \<noteq> None"
      then have "hw_table h k \<noteq> None" by simp
      then obtain n where "n < min 9 (hw_env h)" "k = of_nat (256 * n)"
        using J unfolding example_keys_def by blast
      then show "\<exists>n < min 9 (hw_env (h\<lparr>hw_env := Suc (hw_env h)\<rparr>)). k = of_nat (256 * n)"
        by (intro exI [of _ n]) auto
    qed
    ultimately show ?thesis by (simp add: ib_fmr_pool_map_phys_def example_verbs_def)
  qed
qed

theorem fmr_mapping_exact_witness:
  "\<exists>c'. srp_map_sg (example_verbs 9) (example_cfg False)
      [\<lparr>sg_addr = 0x10000, sg_len = 8192\<rparr>, \<lparr>sg_addr = 0x20000, sg_len = 512\<rparr>]
      \<lparr>mc_state = zeroed_map_state, mc_fr_pool = None, mc_hw = \<lparr>hw_env = 0, hw_log = []\<rparr>\<rparr> = Some c' \<and>
    ms_total_len (mc_state c') = 8704 \<and> ms_ndesc (mc_state c') \<le> 2"
proof -
  let ?sgs = "[\<lparr>sg_addr = 0x10000, sg_len = 8192\<rparr>, \<lparr>sg_addr = 0x20000, sg_len = 512\<rparr>]"
  have k: "example_keys \<lparr>hw_env = 0, hw_log = []\<rparr>" by (simp add: example_keys_def)
  have d: "dev_ok (mp_dev (example_cfg False))" "\<not> dev_use_fast_reg (mp_dev (example_cfg False))"
    "mp_fmr_pool (example_cfg False) \<noteq> None"
    by (simp_all add: example_cfg_def) (simp add: example_dev_def)
  have "length (sgs_bytes ?sgs) = 8704" by (simp add: sg_bytes_def)
  moreover obtain c' where "srp_map_sg (example_verbs 9) (example_cfg False) ?sgs
      \<lparr>mc_state = zeroed_map_state, mc_fr_pool = None, mc_hw = \<lparr>hw_env = 0, hw_log = []\<rparr>\<rparr> = Some c'"
    "ms_total_len (mc_state c') = of_nat (length (sgs_bytes ?sgs))"
    "ms_ndesc (mc_state c') \<le> length ?sgs"
    using fmr_mapping_exact [OF d example_fmr_pool_ok k, of ?sgs None] by blast
  ultimately show ?thesis by (intro exI [of _ c']) simp
qed


definition example_mr :: "nat \<Rightarrow> ib_mr" where
  "example_mr n = \<lparr>mr_handle = n, mr_lkey = of_nat (256 * n), mr_rkey = of_nat (256 * n)\<rparr>"

definition example_fr_pool :: srp_fr_pool where
  "example_fr_pool = \<lparr>frp_mem = 0, frp_size = 2, frp_max_page_list_len = 2, frp_free_list = [0, 1],
     frp_desc = [\<lparr>fr_mr = Some (example_mr 1), fr_frpl = Some 0, fr_page_list = []\<rparr>,
                 \<lparr>fr_mr = Some (example_mr 2), fr_frpl = Some 1, fr_page_list = []\<rparr>]\<rparr>"

lemma example_fr_pool_ok [simp]: "fr_pool_ok (example_cfg fast) example_fr_pool"
  apply (simp add: fr_pool_ok_def example_fr_pool_def)
  apply (simp add: example_cfg_def example_mr_def)
  apply (simp add: key_index_def)
  done

definition always_posting :: "nat verbs" where
  "always_posting = (example_verbs 9)\<lparr>v_post_send := \<lambda>qp wr e. (0, Suc e)\<rparr>"


lemmas example_defs = example_cfg_def example_dev_def example_fr_pool_def example_mr_def
  zeroed_map_state_def



end
