(* ===== verification/SRP_Map_Data.thy ===== *)
theory SRP_Map_Data
  imports SRP_Map_Correct
begin

text \<open>
  \<^verbatim>\<open>srp_map_data()\<close>, \<^verbatim>\<open>srp_inv_rkey()\<close> and \<^verbatim>\<open>srp_unmap_data()\<close>: how the data of a SCSI command is put into
  the information unit of an SRP command, and how the mapping is undone. The structures
  \<^verbatim>\<open>struct srp_iu\<close> and \<^verbatim>\<open>struct srp_request\<close> of \<^verbatim>\<open>ib_srp.h\<close> are records here, and so are the
  members of \<^verbatim>\<open>struct scsi_cmnd\<close> the driver uses.
\<close>

section \<open>Structures\<close>

text \<open>A SCSI command: \<open>sc_scribble\<close> is the request that \<^verbatim>\<open>host_scribble\<close> points to, as the
  index of a channel and an index in its ring.\<close>

record scsi_cmnd =
  sc_device :: nat
  sc_lun :: u64
  sc_cmnd :: "u8 list"
  sc_sglist :: "dma_sg list option"
  sc_dir :: dma_dir
  sc_bufflen :: u32
  sc_result :: int
  sc_resid :: int
  sc_sense :: "u8 list"
  sc_scribble :: "(nat \<times> nat) option"
  sc_quiet :: bool

text \<open>\<open>iu_self\<close> and \<open>iu_mem\<close> are the memory of the structure itself and of its buffer.\<close>

record srp_iu =
  iu_self :: nat
  iu_dma :: u64
  iu_mem :: nat
  iu_buf :: "u8 list"
  iu_size :: nat
  iu_direction :: dma_dir
  iu_num_sge :: nat
  iu_sge :: "ib_sge list"

text \<open>\<open>req_mdescs\<close> are the entries of \<^verbatim>\<open>fmr_list\<close> or \<^verbatim>\<open>fr_list\<close> and \<open>req_indirect_desc\<close> those of the
  descriptor table that have been written.\<close>

record srp_request =
  req_scmnd :: "nat option"
  req_cmd :: "nat option"
  req_mdescs :: "mem_desc list"
  req_indirect_desc :: "srp_direct_buf list"
  req_indirect_dma_addr :: u64
  req_nmdesc :: nat
  req_tag :: u32
  req_mem :: "nat list"

abbreviation iu_write :: "nat \<Rightarrow> u8 list \<Rightarrow> srp_iu \<Rightarrow> srp_iu" where
  "iu_write off bs iu \<equiv> iu\<lparr>iu_buf := write_bytes off bs (iu_buf iu)\<rparr>"

section \<open>Mapping the data of a command\<close>

definition sizeof_srp_cmd :: nat where "sizeof_srp_cmd = 48"
definition sizeof_srp_direct_buf :: nat where "sizeof_srp_direct_buf = 16"
definition sizeof_srp_indirect_buf :: nat where "sizeof_srp_indirect_buf = 20"

lemmas sizeof_defs = sizeof_srp_cmd_def sizeof_srp_direct_buf_def sizeof_srp_indirect_buf_def

text \<open>The code at \<^verbatim>\<open>map_complete\<close>.\<close>

definition srp_map_complete :: "scsi_cmnd \<Rightarrow> u8 \<Rightarrow> srp_iu \<Rightarrow> srp_iu" where
  "srp_map_complete scmnd fmt iu =
     iu_write 5 [if sc_dir scmnd = DMA_TO_DEVICE then push_bit 4 fmt else fmt] iu"

definition srp_map_imm :: "map_cfg \<Rightarrow> u32 \<Rightarrow> dma_sg list \<Rightarrow> srp_iu \<Rightarrow> srp_iu" where
  "srp_map_imm cfg data_len scat iu =
     (iu_write sizeof_srp_cmd
        (enc_imm_buf \<lparr>imm_len = cpu_to_be32 data_len,
                      imm_offset = cpu_to_be32 (of_nat SRP_IMM_DATA_OUT_OFFSET)\<rparr>) iu)
     \<lparr>iu_num_sge := length scat + 1,
      iu_sge := take 1 (iu_sge iu) @
        map (\<lambda>sg. \<lparr>sge_addr = sg_addr sg, sge_length = sg_len sg, sge_lkey = mp_lkey cfg\<rparr>) scat @
        drop (length scat + 1) (iu_sge iu)\<rparr>"

definition srp_map_direct :: "srp_direct_buf \<Rightarrow> srp_iu \<Rightarrow> srp_iu" where
  "srp_map_direct buf iu = iu_write sizeof_srp_cmd (enc_direct_buf buf) iu"

text \<open>The indirect buffer descriptor with the first \<open>cnt\<close> entries of the table.\<close>

definition srp_map_indirect ::
    "map_cfg \<Rightarrow> scsi_cmnd \<Rightarrow> srp_request \<Rightarrow> srp_map_state \<Rightarrow> nat \<Rightarrow> srp_iu \<Rightarrow> srp_iu" where
  "srp_map_indirect cfg scmnd req s cnt iu =
     (let table_len = of_nat (ms_ndesc s * sizeof_srp_direct_buf) :: u32;
          hdr = \<lparr>ib_table_desc = \<lparr>db_va = cpu_to_be64 (req_indirect_dma_addr req),
                                  db_key = cpu_to_be32 (mp_rkey cfg),
                                  db_len = cpu_to_be32 table_len\<rparr>,
                 ib_len = cpu_to_be32 (ms_total_len s),
                 ib_desc_list = take cnt (ms_desc s)\<rparr>;
          off = (if sc_dir scmnd = DMA_TO_DEVICE then 6 else 7)
      in iu_write off [of_nat cnt] (iu_write sizeof_srp_cmd (enc_indirect_buf hdr) iu))"

text \<open>The result is the length of the information unit or a negative error code.\<close>

definition srp_map_data ::
    "'e verbs \<Rightarrow> map_cfg \<Rightarrow> nat \<Rightarrow> scsi_cmnd \<Rightarrow> srp_request \<Rightarrow> srp_iu \<Rightarrow> srp_fr_pool option \<Rightarrow> 'e hw \<Rightarrow>
     (int \<times> srp_request \<times> srp_iu \<times> srp_fr_pool option \<times> 'e hw) option" where
  "srp_map_data V cfg cmd scmnd req iu p h =
     (let iu1 = iu\<lparr>iu_num_sge := 1\<rparr> in
      case sc_sglist scmnd of
        None \<Rightarrow> Some (int sizeof_srp_cmd, req, iu1, p, h)
      | Some sgl \<Rightarrow>
        if sc_dir scmnd = DMA_NONE then Some (int sizeof_srp_cmd, req, iu1, p, h)
        else if sc_dir scmnd \<noteq> DMA_FROM_DEVICE \<and> sc_dir scmnd \<noteq> DMA_TO_DEVICE
        then Some (- EINVAL, req, iu1, p, h)
        else (case ib_dma_map_sg V cmd sgl (sc_dir scmnd) h of (scat, h1) \<Rightarrow>
          if scat = [] then Some (- EIO, req, iu1, p, h1)
          else if mp_enable_imm_data cfg \<and> mp_buf_fmt cfg AND SRP_BUF_FORMAT_IMM \<noteq> 0 \<and>
                  length scat \<le> SRP_MAX_IMM_SGE \<and>
                  SRP_IMM_DATA_OUT_OFFSET + unat (sc_bufflen scmnd) \<le> unat (mp_max_it_iu_len cfg) \<and>
                  sc_dir scmnd = DMA_TO_DEVICE
          then Some (int SRP_IMM_DATA_OUT_OFFSET, req\<lparr>req_nmdesc := 0\<rparr>,
                 srp_map_complete scmnd SRP_DATA_DESC_IMM (srp_map_imm cfg (sc_bufflen scmnd) scat iu1), p, h1)
          else if length scat = 1 \<and> \<not> mp_register_always cfg
          then Some (int (sizeof_srp_cmd + sizeof_srp_direct_buf), req\<lparr>req_nmdesc := 0\<rparr>,
                 srp_map_complete scmnd SRP_DATA_DESC_DIRECT (srp_map_direct
                   \<lparr>db_va = cpu_to_be64 (sg_addr (hd scat)), db_key = cpu_to_be32 (mp_rkey cfg),
                    db_len = cpu_to_be32 (sg_len (hd scat))\<rparr> iu1), p, h1)
          else (case srp_map_sg V cfg scat
                  \<lparr>mc_state = zeroed_map_state, mc_fr_pool = p, mc_hw = h1\<rparr> of
              None \<Rightarrow> None
            | Some c \<Rightarrow>
                (let s = mc_state c;
                     req1 = req\<lparr>req_nmdesc := ms_nmdesc s, req_mdescs := ms_mdescs s,
                                req_indirect_desc := ms_desc s\<rparr>
                 in if ms_ndesc s = 1
                    then Some (int (sizeof_srp_cmd + sizeof_srp_direct_buf), req1,
                           srp_map_complete scmnd SRP_DATA_DESC_DIRECT (srp_map_direct (hd (ms_desc s)) iu1),
                           mc_fr_pool c, mc_hw c)
                    else if mp_cmd_sg_cnt cfg < of_nat (ms_ndesc s) \<and> \<not> mp_allow_ext_sg cfg
                    then Some (- EIO, req1, iu1, mc_fr_pool c, mc_hw c)
                    else let cnt = min (ms_ndesc s) (unat (mp_cmd_sg_cnt cfg))
                      in Some (int (sizeof_srp_cmd + sizeof_srp_indirect_buf + cnt * sizeof_srp_direct_buf),
                           req1,
                           srp_map_complete scmnd SRP_DATA_DESC_INDIRECT
                             (srp_map_indirect cfg scmnd req1 s cnt iu1),
                           mc_fr_pool c, mc_hw c)))))"

section \<open>Undoing the mapping\<close>

definition srp_inv_rkey :: "'e verbs \<Rightarrow> nat \<Rightarrow> u32 \<Rightarrow> 'e hw \<Rightarrow> int \<times> 'e hw" where
  "srp_inv_rkey V qp rkey h = ib_post_send V qp (WR_LOCAL_INV LOCAL_INV_WR_ID_MASK rkey) h"

text \<open>The loop over \<^verbatim>\<open>fr_list\<close>; the last component of the result tells whether the work
  \<^verbatim>\<open>tl_err_work\<close> has been queued.\<close>

fun srp_inv_frs ::
    "'e verbs \<Rightarrow> nat \<Rightarrow> srp_fr_pool \<Rightarrow> nat list \<Rightarrow> 'e hw \<times> bool \<Rightarrow> 'e hw \<times> bool" where
  "srp_inv_frs V qp pool [] (h, err) = (h, err)"
| "srp_inv_frs V qp pool (d # ds) (h, err) =
     (case fr_mr (frp_desc pool ! d) of
        None \<Rightarrow> srp_inv_frs V qp pool ds (h, err)
      | Some mr \<Rightarrow> (case srp_inv_rkey V qp (mr_rkey mr) h of
          (res, h1) \<Rightarrow> srp_inv_frs V qp pool ds (h1, err \<or> res < 0)))"

fun fr_index :: "mem_desc \<Rightarrow> nat option" where
  "fr_index (FR_desc d) = Some d"
| "fr_index (FMR_desc f) = None"

fun fmr_of :: "mem_desc \<Rightarrow> ib_pool_fmr option" where
  "fmr_of (FR_desc d) = None"
| "fmr_of (FMR_desc f) = Some f"

definition srp_unmap_data ::
    "'e verbs \<Rightarrow> map_cfg \<Rightarrow> nat \<Rightarrow> scsi_cmnd \<Rightarrow> srp_request \<Rightarrow> srp_fr_pool option \<Rightarrow> 'e hw \<Rightarrow>
     srp_fr_pool option \<times> 'e hw \<times> bool" where
  "srp_unmap_data V cfg cmd scmnd req p h =
     (if sc_sglist scmnd = None \<or> (sc_dir scmnd \<noteq> DMA_TO_DEVICE \<and> sc_dir scmnd \<noteq> DMA_FROM_DEVICE)
      then (p, h, False)
      else if dev_use_fast_reg (mp_dev cfg)
      then (case p of
          None \<Rightarrow> (p, ib_dma_unmap_sg cmd h, False)
        | Some pool \<Rightarrow>
            (let frs = List.map_filter fr_index (take (req_nmdesc req) (req_mdescs req))
             in case srp_inv_frs V (mp_qp cfg) pool frs (h, False) of
               (h1, err) \<Rightarrow>
                 (Some (if req_nmdesc req \<noteq> 0 then srp_fr_pool_put pool frs (req_nmdesc req) else pool),
                  ib_dma_unmap_sg cmd h1, err)))
      else (p, ib_dma_unmap_sg cmd
             (fold ib_fmr_pool_unmap (List.map_filter fmr_of (take (req_nmdesc req) (req_mdescs req))) h),
            False))"

section \<open>Fast registration descriptors are neither lost nor duplicated\<close>

text \<open>The descriptors held by a mapping together with those in the free list of the pool. No call
  changes this multiset, whatever the environment returns.\<close>

abbreviation frs_of :: "mem_desc list \<Rightarrow> nat list" where
  "frs_of ms \<equiv> List.map_filter fr_index ms"

definition fr_balance :: "'e map_ctx \<Rightarrow> nat multiset" where
  "fr_balance c = mset (frs_of (ms_mdescs (mc_state c))) +
     (case mc_fr_pool c of None \<Rightarrow> {#} | Some pool \<Rightarrow> mset (frp_free_list pool))"

text \<open>All memory descriptors of the mapping are fast registration descriptors.\<close>

definition all_fr :: "mem_desc list \<Rightarrow> bool" where
  "all_fr ms \<longleftrightarrow> list_all (\<lambda>m. fr_index m \<noteq> None) ms"

text \<open>What the mapping functions leave as it is, in fast registration mode.\<close>

definition fr_conserved :: "'e map_ctx \<Rightarrow> 'e map_ctx \<Rightarrow> bool" where
  "fr_conserved c c' \<longleftrightarrow> fr_balance c' = fr_balance c \<and> hw_live (mc_hw c') = hw_live (mc_hw c) \<and>
     (ms_nmdesc (mc_state c) = length (ms_mdescs (mc_state c)) \<longrightarrow>
      ms_nmdesc (mc_state c') = length (ms_mdescs (mc_state c'))) \<and>
     (mc_fr_pool c' = None \<longleftrightarrow> mc_fr_pool c = None) \<and>
     (all_fr (ms_mdescs (mc_state c)) \<longrightarrow> all_fr (ms_mdescs (mc_state c')))"

lemma fr_conserved_refl [simp]: "fr_conserved c c"
  by (simp add: fr_conserved_def)

lemma fr_conserved_trans: "fr_conserved a b \<Longrightarrow> fr_conserved b c \<Longrightarrow> fr_conserved a c"
  by (simp add: fr_conserved_def)

lemma fr_conserved_upd:
  assumes "ms_mdescs (f (mc_state c)) = ms_mdescs (mc_state c)"
    and "ms_nmdesc (f (mc_state c)) = ms_nmdesc (mc_state c)"
  shows "fr_conserved c (upd_state f c)"
  using assms by (simp add: fr_conserved_def fr_balance_def)

lemma map_filter_append: "List.map_filter f (xs @ ys) = List.map_filter f xs @ List.map_filter f ys"
  by (simp add: List.map_filter_def)

lemma map_filter_simps [simp]:
  "List.map_filter f [] = []"
  "List.map_filter f (x # xs) = (case f x of None \<Rightarrow> List.map_filter f xs | Some y \<Rightarrow> y # List.map_filter f xs)"
  by (simp_all add: List.map_filter_def split: option.splits)

lemma finish_fr_conserved:
  assumes "srp_map_finish_fr V cfg c = Some (ret, c')"
  shows "fr_conserved c c'"
proof -
  obtain pool where pool: "mc_fr_pool c = Some pool"
    using assms by (auto simp: srp_map_finish_fr_def split: option.splits)
  show ?thesis
  proof (cases "frp_free_list pool")
    case Nil
    then show ?thesis using assms pool
      by (auto simp: srp_map_finish_fr_def srp_fr_pool_get_def fr_conserved_def fr_balance_def)
  next
    case (Cons d ds)
    then show ?thesis using assms pool
      by (auto simp: srp_map_finish_fr_def srp_fr_pool_get_def fr_conserved_def fr_balance_def Let_def
          map_filter_append all_fr_def ib_post_send_def split: option.splits prod.splits)
  qed
qed

lemma finish_mapping_conserved:
  assumes "srp_finish_mapping V cfg c = Some (ret, c')" and "dev_use_fast_reg (mp_dev cfg)"
  shows "fr_conserved c c'"
proof (cases "npages c = 0 \<or> npages c = 1 \<and> \<not> mp_register_always cfg")
  case True
  with assms show ?thesis
    by (auto simp: srp_finish_mapping_def Let_def fr_conserved_def fr_balance_def split: if_splits)
next
  case False
  then obtain c1 where f: "srp_map_finish_fr V cfg c = Some (ret, c1)"
    and c': "c' = (if ret = 0 then upd_state (\<lambda>s. s\<lparr>ms_pages := [], ms_dma_len := 0\<rparr>) c1 else c1)"
    using assms by (auto simp: srp_finish_mapping_def srp_map_finish_mr_def Let_def split: if_splits)
  have "fr_conserved c1 c'" unfolding c' by (auto intro: fr_conserved_upd)
  with finish_fr_conserved [OF f] show ?thesis by (rule fr_conserved_trans)
qed

lemma flush_conserved:
  assumes "flush_if_needed V cfg sg i a c = Some (ret, c1)" and "dev_use_fast_reg (mp_dev cfg)"
  shows "fr_conserved c c1"
proof (cases "flush_if_needed V cfg sg i a c = Some (0, c)")
  case True
  then show ?thesis using assms(1) by simp
next
  case False
  then obtain c0 where f: "srp_finish_mapping V cfg c = Some (ret, c0)"
    and c1: "c1 = (if ret \<noteq> 0 then c0 else upd_state (srp_map_update_start (Some sg) i a) c0)"
    using assms(1) by (auto simp: flush_if_needed_def split: if_splits)
  have "fr_conserved c0 c1" unfolding c1
    by (auto intro: fr_conserved_upd simp: srp_map_update_start_def)
  with finish_mapping_conserved [OF f assms(2)] show ?thesis by (rule fr_conserved_trans)
qed

lemma map_pages_conserved:
  assumes "srp_map_pages V cfg sg i a r len c = Some (res, c')" and "dev_use_fast_reg (mp_dev cfg)"
  shows "fr_conserved c c'"
proof -
  have "dev_use_fast_reg (mp_dev cfg) \<longrightarrow> fr_conserved c (snd (res, c'))"
  proof (rule srp_map_pages.raw_induct [where P = "\<lambda>V cfg sg i a r len c y.
      dev_use_fast_reg (mp_dev cfg) \<longrightarrow> fr_conserved c (snd y)", OF _ assms(1)])
    fix rec and V :: "'a verbs" and cfg sg i a r len c y
    assume IH: "\<And>V cfg sg i a r len c y. rec V cfg sg i a r len c = Some y \<Longrightarrow>
        dev_use_fast_reg (mp_dev cfg) \<longrightarrow> fr_conserved c (snd y)"
      and body: "(if r = 0 then Some (Inr len, c)
        else let dev = mp_dev cfg; offset = page_offset cfg a in
          Option.bind
            (if of_nat (npages c) = (word_of_int (dev_max_pages_per_mr dev) :: u32) \<or> offset \<noteq> 0
             then map_option
               (\<lambda>(ret, c1). (ret, if ret \<noteq> 0 then c1
                  else upd_state (srp_map_update_start (Some sg) i a) c1))
               (srp_finish_mapping V cfg c)
             else Some (0, c))
            (\<lambda>(ret, c1).
               if ret \<noteq> 0 then Some (Inl ret, c1)
               else let len1 = min r (word_of_int (dev_mr_page_size dev) - offset) in
                 rec V cfg sg i (a + ucast len1) (r - len1) len1
                   (upd_state (srp_map_page cfg a len1) c1))) = Some y"
    show "dev_use_fast_reg (mp_dev cfg) \<longrightarrow> fr_conserved c (snd y)"
    proof (cases "r = 0")
      case True
      then show ?thesis using body by auto
    next
      case False
      let ?len = "min r (word_of_int (dev_mr_page_size (mp_dev cfg)) - page_offset cfg a)"
      have "Option.bind (flush_if_needed V cfg sg i a c) (\<lambda>(ret, c1).
          if ret \<noteq> 0 then Some (Inl ret, c1)
          else rec V cfg sg i (a + ucast ?len) (r - ?len) ?len (upd_state (srp_map_page cfg a ?len) c1)) = Some y"
        using body unfolding flush_if_needed_def Let_def if_not_P [OF False] .
      then obtain ret c1 where fl: "flush_if_needed V cfg sg i a c = Some (ret, c1)"
        and rest: "(if ret \<noteq> 0 then Some (Inl ret, c1)
          else rec V cfg sg i (a + ucast ?len) (r - ?len) ?len (upd_state (srp_map_page cfg a ?len) c1)) = Some y"
        by (auto simp: Option.bind_eq_Some_conv)
      have "fr_conserved c1 (upd_state (srp_map_page cfg a ?len) c1)"
        by (intro fr_conserved_upd) (simp_all add: srp_map_page_def)
      then have page: "fr_conserved c (upd_state (srp_map_page cfg a ?len) c1)"
        if "dev_use_fast_reg (mp_dev cfg)"
        using flush_conserved [OF fl that] by (rule fr_conserved_trans [rotated])
      show ?thesis
      proof (cases "ret = 0")
        case True
        with rest have "rec V cfg sg i (a + ucast ?len) (r - ?len) ?len
            (upd_state (srp_map_page cfg a ?len) c1) = Some y" by simp
        from IH [OF this] show ?thesis using page fr_conserved_trans by blast
      next
        case False
        with rest show ?thesis using flush_conserved [OF fl] by auto
      qed
    qed
  qed
  with assms(2) show ?thesis by simp
qed

lemma map_sg_entry_conserved:
  assumes "srp_map_sg_entry V cfg sg i use_mr c = Some (ret, c')" and "dev_use_fast_reg (mp_dev cfg)"
  shows "fr_conserved c c'"
proof -
  let ?c0 = "if ms_unmapped_sg (mc_state c) = None
      then upd_state (srp_map_update_start (Some sg) i (sg_addr sg)) c else c"
  have c0: "fr_conserved c ?c0"
    by (auto intro: fr_conserved_upd simp: srp_map_update_start_def)
  have closed: "fr_conserved c1 (upd_state (srp_map_update_start None 0 0) c1)" for c1 :: "'a map_ctx"
    by (intro fr_conserved_upd) (simp_all add: srp_map_update_start_def)
  have desc: "fr_conserved c1 (upd_state (srp_map_desc a l k) c1)" for c1 :: "'a map_ctx" and a l k
    by (intro fr_conserved_upd) simp_all
  have both: "fr_conserved c1 (upd_state (\<lambda>s. srp_map_update_start None 0 0 (srp_map_desc a l k s)) c1)"
    for c1 :: "'a map_ctx" and a l k
    by (intro fr_conserved_upd) (simp_all add: srp_map_update_start_def)
  let ?direct = "(\<not> dev_use_fast_reg (mp_dev cfg) \<and> sg_addr sg AND NOT (dev_mr_page_mask (mp_dev cfg)) \<noteq> 0) \<or>
      sg_len sg > word_of_int (dev_mr_max_size (mp_dev cfg))"
  show ?thesis
  proof (cases "sg_len sg = 0 \<or> \<not> use_mr")
    case True
    then show ?thesis using assms(1) desc by (auto simp: srp_map_sg_entry_def Let_def split: if_splits)
  next
    case False
    show ?thesis
    proof (cases ?direct)
      case True
      then obtain ret' c1 where f: "srp_finish_mapping V cfg c = Some (ret', c1)"
        and "c' = c1 \<or> c' = upd_state (\<lambda>s. srp_map_update_start None 0 0
           (srp_map_desc (sg_addr sg) (sg_len sg) (mp_rkey cfg) s)) c1"
        using assms(1) False by (auto simp: srp_map_sg_entry_def Let_def split: if_splits)
      then show ?thesis using finish_mapping_conserved [OF f assms(2)] both fr_conserved_trans by blast
    next
      case nd: False
      have eq: "srp_map_sg_entry V cfg sg i use_mr c =
          Option.bind (srp_map_pages V cfg sg i (sg_addr sg) (sg_len sg) 0 ?c0)
          (\<lambda>(r, c1). case r of
             Inl ret \<Rightarrow> Some (ret, c1)
           | Inr len \<Rightarrow>
               if len \<noteq> word_of_int (dev_mr_page_size (mp_dev cfg))
               then map_option
                 (\<lambda>(ret, c2). (ret, if ret = 0
                    then upd_state (srp_map_update_start None 0 0) c2 else c2))
                 (srp_finish_mapping V cfg c1)
               else Some (0, c1))"
        using False nd unfolding srp_map_sg_entry_def Let_def if_not_P [OF nd] by simp
      obtain r c1 where m: "srp_map_pages V cfg sg i (sg_addr sg) (sg_len sg) 0 ?c0 = Some (r, c1)"
        and k: "(case r of
             Inl ret \<Rightarrow> Some (ret, c1)
           | Inr len \<Rightarrow>
               if len \<noteq> word_of_int (dev_mr_page_size (mp_dev cfg))
               then map_option
                 (\<lambda>(ret, c2). (ret, if ret = 0
                    then upd_state (srp_map_update_start None 0 0) c2 else c2))
                 (srp_finish_mapping V cfg c1)
               else Some (0, c1)) = Some (ret, c')"
        using assms(1) unfolding eq Option.bind_eq_Some_conv by fast
      from k have "c' = c1 \<or> (\<exists>ret' c2. srp_finish_mapping V cfg c1 = Some (ret', c2) \<and>
           (c' = c2 \<or> c' = upd_state (srp_map_update_start None 0 0) c2))"
        by (auto split: if_splits sum.splits)
      moreover have "fr_conserved c c1"
        by (rule fr_conserved_trans [OF c0 map_pages_conserved [OF m assms(2)]])
      ultimately show ?thesis
        using finish_mapping_conserved [OF _ assms(2)] closed fr_conserved_trans by blast
    qed
  qed
qed

lemma map_sg_loop_conserved:
  assumes "srp_map_sg_loop V cfg scat use_mr i c = Some c'" and "dev_use_fast_reg (mp_dev cfg)"
  shows "fr_conserved c c'"
proof -
  have "dev_use_fast_reg (mp_dev cfg) \<longrightarrow> fr_conserved c c'"
  proof (rule srp_map_sg_loop.raw_induct [where P = "\<lambda>V cfg scat use_mr i c c'.
      dev_use_fast_reg (mp_dev cfg) \<longrightarrow> fr_conserved c c'", OF _ assms(1)])
    fix rec and V :: "'a verbs" and cfg scat use_mr i c c'
    assume IH: "\<And>V cfg scat use_mr i c c'. rec V cfg scat use_mr i c = Some c' \<Longrightarrow>
        dev_use_fast_reg (mp_dev cfg) \<longrightarrow> fr_conserved c c'"
      and body: "Option.bind
       (if i < length scat then srp_map_sg_entry V cfg (scat ! i) i use_mr c
        else if use_mr then srp_finish_mapping V cfg c else Some (0, c))
       (\<lambda>(ret, c1).
          if ret \<noteq> 0
          then Option.bind (srp_backtrack cfg c1) (\<lambda>(j, c2). rec V cfg scat False (Suc j) c2)
          else if i < length scat then rec V cfg scat use_mr (Suc i) c1
          else Some c1) = Some c'"
    show "dev_use_fast_reg (mp_dev cfg) \<longrightarrow> fr_conserved c c'"
    proof
      assume fast: "dev_use_fast_reg (mp_dev cfg)"
      obtain ret c1 where step: "(if i < length scat then srp_map_sg_entry V cfg (scat ! i) i use_mr c
          else if use_mr then srp_finish_mapping V cfg c else Some (0, c)) = Some (ret, c1)"
        and rest: "(if ret \<noteq> 0
          then Option.bind (srp_backtrack cfg c1) (\<lambda>(j, c2). rec V cfg scat False (Suc j) c2)
          else if i < length scat then rec V cfg scat use_mr (Suc i) c1
          else Some c1) = Some c'"
        using body by (auto simp: Option.bind_eq_Some_conv)
      have c1: "fr_conserved c c1"
        using step map_sg_entry_conserved [OF _ fast] finish_mapping_conserved [OF _ fast]
        by (auto split: if_splits)
      have "fr_conserved c1 c'"
      proof (cases "ret = 0")
        case True
        then show ?thesis using rest IH fast by (auto split: if_splits)
      next
        case False
        then obtain j c2 where b: "srp_backtrack cfg c1 = Some (j, c2)" "rec V cfg scat False (Suc j) c2 = Some c'"
          using rest by (auto simp: Option.bind_eq_Some_conv)
        have "fr_conserved c1 c2"
          using b(1) by (auto simp: srp_backtrack_def Let_def split: option.splits intro: fr_conserved_upd)
        then show ?thesis using IH [OF b(2)] fast fr_conserved_trans by blast
      qed
      with c1 show "fr_conserved c c'" by (rule fr_conserved_trans)
    qed
  qed
  with assms(2) show ?thesis by simp
qed

lemma map_sg_conserved:
  assumes "srp_map_sg V cfg scat c = Some c'" and "dev_use_fast_reg (mp_dev cfg)"
  shows "fr_conserved c c'"
  using assms map_sg_loop_conserved by (auto simp: srp_map_sg_def Let_def)

lemma free_list_put: "mset (frp_free_list (fold srp_fr_pool_add ds pool)) = mset ds + mset (frp_free_list pool)"
  by (induction ds arbitrary: pool) (simp_all add: frp.put_free)

lemma length_frs_of: "all_fr ms \<Longrightarrow> length (frs_of ms) = length ms"
  by (induction ms) (auto simp: all_fr_def)

lemma live_inv_frs: "hw_live (fst (srp_inv_frs V qp pool ds he)) = hw_live (fst he)"
proof (induction V qp pool ds he rule: srp_inv_frs.induct)
  case (2 V qp pool d ds h err)
  then show ?case
    by (auto simp: srp_inv_rkey_def ib_post_send_def split: option.splits prod.splits)
qed simp

lemma live_dma_unmap [simp]: "hw_live (ib_dma_unmap_sg cmd h) = hw_live h - {#R_dma_sg cmd#}"
  by (simp add: ib_dma_unmap_sg_def)

text \<open>What a successful \<^verbatim>\<open>srp_map_data()\<close> holds until \<^verbatim>\<open>srp_unmap_data()\<close> is called.\<close>

lemma map_data_holds:
  assumes "srp_map_data V cfg cmd scmnd req iu (Some pool) h = Some (len, req', iu', p', h')"
    and "0 \<le> len" and "dev_use_fast_reg (mp_dev cfg)" and "sc_sglist scmnd = Some sgl"
    and "sc_dir scmnd = DMA_TO_DEVICE \<or> sc_dir scmnd = DMA_FROM_DEVICE"
  obtains pool' where "p' = Some pool'" "hw_live h' = add_mset (R_dma_sg cmd) (hw_live h)"
    "mset (frs_of (take (req_nmdesc req') (req_mdescs req'))) + mset (frp_free_list pool') = mset (frp_free_list pool)"
    "length (frs_of (take (req_nmdesc req') (req_mdescs req'))) \<le> req_nmdesc req'"
proof -
  obtain scat h1 where dma: "ib_dma_map_sg V cmd sgl (sc_dir scmnd) h = (scat, h1)" by (meson surj_pair)
  have ne: "scat \<noteq> []" using assms dma by (auto simp: srp_map_data_def Let_def)
  have l1: "hw_live h1 = add_mset (R_dma_sg cmd) (hw_live h)"
    using dma ne by (auto simp: ib_dma_map_sg_def split: prod.splits)
  let ?c = "\<lparr>mc_state = zeroed_map_state, mc_fr_pool = Some pool, mc_hw = h1\<rparr>"
  consider (none) "p' = Some pool" "h' = h1" "req_nmdesc req' = 0"
    | (mr) c where "srp_map_sg V cfg scat ?c = Some c" "p' = mc_fr_pool c" "h' = mc_hw c"
        "req_nmdesc req' = ms_nmdesc (mc_state c)" "req_mdescs req' = ms_mdescs (mc_state c)"
    using assms dma ne
    by (auto simp: srp_map_data_def Let_def split: if_splits option.splits)
  then show thesis
  proof cases
    case none
    then show thesis using l1 by (intro that [of pool]) simp_all
  next
    case mr
    have k: "fr_conserved ?c c" by (rule map_sg_conserved [OF mr(1) assms(3)])
    then obtain pool' where "mc_fr_pool c = Some pool'" by (auto simp: fr_conserved_def)
    moreover have "ms_nmdesc (mc_state c) = length (ms_mdescs (mc_state c))" "all_fr (ms_mdescs (mc_state c))"
      using k by (simp_all add: fr_conserved_def zeroed_map_state_def all_fr_def)
    ultimately show thesis using k mr l1
      by (intro that [of pool'])
         (simp_all add: fr_conserved_def fr_balance_def zeroed_map_state_def length_frs_of)
  qed
qed


section \<open>What the target reads from the information unit\<close>

text \<open>The memory descriptors an SRP target finds in a command: one descriptor, or the table of an
  indirect buffer descriptor. If only a part of the table is in the information unit, the
  target fetches the whole \<open>table\<close> from the initiator's memory.\<close>

definition target_descs :: "dma_dir \<Rightarrow> u8 list \<Rightarrow> srp_direct_buf list \<Rightarrow> srp_direct_buf list" where
  "target_descs dir buf table =
     (let fmt = (if dir = DMA_TO_DEVICE then drop_bit 4 (buf ! 5) else buf ! 5);
          cnt = unat (buf ! (if dir = DMA_TO_DEVICE then 6 else 7));
          ind = dec_indirect_buf cnt (drop 48 buf)
      in if fmt = SRP_DATA_DESC_DIRECT then [dec_direct_buf (drop 48 buf)]
         else if fmt = SRP_DATA_DESC_INDIRECT
         then (if unat (be32_to_cpu (db_len (ib_table_desc ind))) = 16 * cnt then ib_desc_list ind else table)
         else [])"

lemma nth_write_bytes:
  "i < length b \<Longrightarrow> off + length bs \<le> length b \<Longrightarrow>
   write_bytes off bs b ! i = (if i < off then b ! i else if i < off + length bs then bs ! (i - off) else b ! i)"
  by (auto simp: write_bytes_def nth_append)

lemma drop_write_before: "off + length bs \<le> n \<Longrightarrow> n \<le> length b \<Longrightarrow> drop n (write_bytes off bs b) = drop n b"
  by (simp add: write_bytes_def)

lemma drop_write_here: "off + length bs \<le> length b \<Longrightarrow>
  drop off (write_bytes off bs b) = bs @ drop (off + length bs) b"
  by (simp add: write_bytes_def)

lemma fmt_nibbles [simp]:
  "drop_bit 4 (push_bit 4 SRP_DATA_DESC_DIRECT) = SRP_DATA_DESC_DIRECT"
  "drop_bit 4 (push_bit 4 SRP_DATA_DESC_INDIRECT) = SRP_DATA_DESC_INDIRECT"
  "SRP_DATA_DESC_INDIRECT \<noteq> SRP_DATA_DESC_DIRECT"
  by (simp_all add: srp_data_desc_defs)

lemma target_descs_direct:
  assumes "64 \<le> length (iu_buf iu)" and "wf_direct_buf d"
  shows "target_descs (sc_dir scmnd) (iu_buf (srp_map_complete scmnd SRP_DATA_DESC_DIRECT (srp_map_direct d iu))) table = [d]"
  using assms
  by (simp add: target_descs_def srp_map_complete_def srp_map_direct_def sizeof_defs nth_write_bytes
      drop_write_before drop_write_here length_enc_direct_buf dec_enc_direct_buf)

lemma target_descs_indirect:
  assumes len: "68 + 16 * cnt \<le> length (iu_buf iu)" and cnt: "cnt = min (ms_ndesc s) k" "cnt < 256"
    and s: "ms_ndesc s = length (ms_desc s)" "list_all wf_direct_buf (ms_desc s)"
    and small: "16 * ms_ndesc s < 2 ^ 32"
  shows "target_descs (sc_dir scmnd)
    (iu_buf (srp_map_complete scmnd SRP_DATA_DESC_INDIRECT (srp_map_indirect cfg scmnd req s cnt iu)))
    (ms_desc s) = ms_desc s"
proof -
  let ?hdr = "\<lparr>ib_table_desc = \<lparr>db_va = cpu_to_be64 (req_indirect_dma_addr req),
      db_key = cpu_to_be32 (mp_rkey cfg), db_len = cpu_to_be32 (of_nat (ms_ndesc s * 16))\<rparr>,
    ib_len = cpu_to_be32 (ms_total_len s), ib_desc_list = take cnt (ms_desc s)\<rparr>"
  let ?off = "if sc_dir scmnd = DMA_TO_DEVICE then 6 else 7"
  have wf: "wf_indirect_buf ?hdr"
    using s(2) by (auto simp: wf_indirect_buf_def wf_direct_buf_def list_all_iff dest: in_set_takeD)
  have lt: "length (ib_desc_list ?hdr) = cnt" using cnt(1) s(1) by simp
  have le: "length (enc_indirect_buf ?hdr) = 20 + 16 * cnt"
    using length_enc_indirect_buf [OF wf] unfolding lt .
  let ?b = "write_bytes 48 (enc_indirect_buf ?hdr) (iu_buf iu)"
  let ?buf = "write_bytes 5 [if sc_dir scmnd = DMA_TO_DEVICE then push_bit 4 SRP_DATA_DESC_INDIRECT
      else SRP_DATA_DESC_INDIRECT] (write_bytes ?off [of_nat cnt] ?b)"
  have buf: "iu_buf (srp_map_complete scmnd SRP_DATA_DESC_INDIRECT (srp_map_indirect cfg scmnd req s cnt iu)) = ?buf"
    by (simp add: srp_map_complete_def srp_map_indirect_def sizeof_defs Let_def)
  have lb: "length ?b = length (iu_buf iu)" using len le by simp
  have d: "drop 48 ?buf = enc_indirect_buf ?hdr @ drop (48 + (20 + 16 * cnt)) (iu_buf iu)"
    using len lb le by (simp add: drop_write_before drop_write_here)
  have dec: "dec_indirect_buf cnt (drop 48 ?buf) = ?hdr"
    unfolding d using dec_enc_indirect_buf [OF wf] unfolding lt .
  have c: "unat (?buf ! ?off) = cnt"
    using len lb cnt(2) by (simp add: nth_write_bytes unat_of_nat)
  have f: "(if sc_dir scmnd = DMA_TO_DEVICE then drop_bit 4 (?buf ! 5) else ?buf ! 5) = SRP_DATA_DESC_INDIRECT"
    using len lb by (simp add: nth_write_bytes)
  have n: "unat (be32_to_cpu (db_len (ib_table_desc ?hdr))) = 16 * ms_ndesc s"
  proof -
    have "ms_ndesc s * 16 < 2 ^ 32" using small by (simp add: mult.commute)
    then have "unat (of_nat (ms_ndesc s * 16) :: u32) = ms_ndesc s * 16"
      unfolding unat_of_nat by (simp del: of_nat_mult)
    then show ?thesis by (simp del: of_nat_mult add: mult.commute)
  qed
  show ?thesis
    unfolding buf target_descs_def Let_def c dec f n using s(1) cnt(1) by simp
qed

lemma length_map_indirect:
  assumes "68 + 16 * cnt \<le> length (iu_buf iu)" and "cnt \<le> length (ms_desc s)"
    and "list_all wf_direct_buf (ms_desc s)"
  shows "length (iu_buf (srp_map_complete scmnd fmt (srp_map_indirect cfg scmnd req s cnt iu))) = length (iu_buf iu)"
proof -
  have "wf_indirect_buf \<lparr>ib_table_desc = \<lparr>db_va = cpu_to_be64 a, db_key = cpu_to_be32 k, db_len = cpu_to_be32 l\<rparr>,
      ib_len = cpu_to_be32 t, ib_desc_list = take cnt (ms_desc s)\<rparr>" for a k l t
    using assms(3) by (auto simp: wf_indirect_buf_def wf_direct_buf_def list_all_iff dest: in_set_takeD)
  from length_enc_indirect_buf [OF this] show ?thesis using assms(1,2)
    by (simp add: srp_map_complete_def srp_map_indirect_def sizeof_defs Let_def)
qed

lemma registration_maps:
  assumes "fmr_ok J V cfg [] p h \<or> fr_ok J V cfg [] p h" and "dev_ok (mp_dev cfg)"
  obtains c where "srp_map_sg V cfg scat \<lparr>mc_state = zeroed_map_state, mc_fr_pool = p, mc_hw = h\<rparr> = Some c"
    "all_mapped cfg scat c"
proof -
  let ?c = "\<lparr>mc_state = zeroed_map_state, mc_fr_pool = p, mc_hw = h\<rparr>"
  have "\<exists>c. srp_map_sg V cfg scat ?c = Some c \<and> all_mapped cfg scat c"
    using assms fmr.map_sg [of cfg J V ?c scat] fr.map_sg [of cfg J V ?c scat] by auto
  then show thesis using that by blast
qed

text \<open>The two ways in which a command with data that is not sent along is mapped.\<close>

lemma map_data_single:
  assumes "sc_sglist scmnd = Some sgl" and "sc_dir scmnd = DMA_TO_DEVICE \<or> sc_dir scmnd = DMA_FROM_DEVICE"
    and "ib_dma_map_sg V cmd sgl (sc_dir scmnd) h = ([sg], h1)" and "\<not> mp_enable_imm_data cfg"
    and "\<not> mp_register_always cfg"
  shows "srp_map_data V cfg cmd scmnd req iu p h = Some (64, req\<lparr>req_nmdesc := 0\<rparr>,
    srp_map_complete scmnd SRP_DATA_DESC_DIRECT (srp_map_direct
      \<lparr>db_va = cpu_to_be64 (sg_addr sg), db_key = cpu_to_be32 (mp_rkey cfg), db_len = cpu_to_be32 (sg_len sg)\<rparr>
      (iu\<lparr>iu_num_sge := 1\<rparr>)), p, h1)"
  using assms by (auto simp: srp_map_data_def sizeof_defs Let_def)

lemma map_data_table:
  fixes req :: srp_request and iu :: srp_iu
  assumes "sc_sglist scmnd = Some sgl" and "sc_dir scmnd = DMA_TO_DEVICE \<or> sc_dir scmnd = DMA_FROM_DEVICE"
    and "ib_dma_map_sg V cmd sgl (sc_dir scmnd) h = (scat, h1)" and "scat \<noteq> []" and "\<not> mp_enable_imm_data cfg"
    and "\<not> (length scat = 1 \<and> \<not> mp_register_always cfg)"
    and "srp_map_sg V cfg scat \<lparr>mc_state = zeroed_map_state, mc_fr_pool = p, mc_hw = h1\<rparr> = Some c"
  defines "s \<equiv> mc_state c"
  defines "req1 \<equiv> req\<lparr>req_nmdesc := ms_nmdesc s, req_mdescs := ms_mdescs s, req_indirect_desc := ms_desc s\<rparr>"
    and "iu1 \<equiv> iu\<lparr>iu_num_sge := 1\<rparr>" and "cnt \<equiv> min (ms_ndesc s) (unat (mp_cmd_sg_cnt cfg))"
  shows "srp_map_data V cfg cmd scmnd req iu p h = Some
    (if ms_ndesc s = 1 then (64, req1,
        srp_map_complete scmnd SRP_DATA_DESC_DIRECT (srp_map_direct (hd (ms_desc s)) iu1), mc_fr_pool c, mc_hw c)
     else if mp_cmd_sg_cnt cfg < of_nat (ms_ndesc s) \<and> \<not> mp_allow_ext_sg cfg
     then (- EIO, req1, iu1, mc_fr_pool c, mc_hw c)
     else (68 + 16 * int cnt, req1,
        srp_map_complete scmnd SRP_DATA_DESC_INDIRECT (srp_map_indirect cfg scmnd req1 s cnt iu1),
        mc_fr_pool c, mc_hw c))"
  unfolding s_def req1_def iu1_def cnt_def
  using assms(1-7) by (auto simp: srp_map_data_def sizeof_defs Let_def)

lemma map_data_table_ok:
  assumes "sc_sglist scmnd = Some sgl" and "sc_dir scmnd = DMA_TO_DEVICE \<or> sc_dir scmnd = DMA_FROM_DEVICE"
    and "ib_dma_map_sg V cmd sgl (sc_dir scmnd) h = (scat, h1)" and "scat \<noteq> []" and "\<not> mp_enable_imm_data cfg"
    and "\<not> (length scat = 1 \<and> \<not> mp_register_always cfg)"
    and "srp_map_sg V cfg scat \<lparr>mc_state = zeroed_map_state, mc_fr_pool = p, mc_hw = h1\<rparr> = Some c"
    and "\<not> (mp_cmd_sg_cnt cfg < of_nat (ms_ndesc (mc_state c)))"
  shows "\<exists>len req' iu'. 0 \<le> len \<and>
    srp_map_data V cfg cmd scmnd req iu p h = Some (len, req', iu', mc_fr_pool c, mc_hw c)"
  unfolding map_data_table [OF assms(1-7)] using assms(8)
  by (cases "ms_ndesc (mc_state c) = 1") simp_all

lemma some5I: "f = Some (a, b, c, d, e) \<Longrightarrow> P a b c d e \<Longrightarrow>
  \<exists>a b c d e. f = Some (a, b, c, d, e) \<and> P a b c d e"
  by blast


definition example_scmnd :: "dma_sg list \<Rightarrow> scsi_cmnd" where
  "example_scmnd sgl = \<lparr>sc_device = 0, sc_lun = 0, sc_cmnd = replicate 16 0, sc_sglist = Some sgl,
     sc_dir = DMA_FROM_DEVICE, sc_bufflen = 8704, sc_result = 0, sc_resid = 0, sc_sense = replicate 96 0,
     sc_scribble = None, sc_quiet = False\<rparr>"

definition example_iu :: "nat \<Rightarrow> srp_iu" where
  "example_iu n = \<lparr>iu_self = 2, iu_dma = 4096, iu_mem = 1, iu_buf = replicate n 0, iu_size = n,
     iu_direction = DMA_TO_DEVICE, iu_num_sge = 0, iu_sge = replicate 3 \<lparr>sge_addr = 0, sge_length = 0, sge_lkey = 0\<rparr>\<rparr>"

definition example_req :: srp_request where
  "example_req = \<lparr>req_scmnd = Some 0, req_cmd = Some 0, req_mdescs = [], req_indirect_desc = [],
     req_indirect_dma_addr = 8192, req_nmdesc = 0, req_tag = 0, req_mem = []\<rparr>"

definition example_sgl :: "dma_sg list" where
  "example_sgl = [\<lparr>sg_addr = 0x10200, sg_len = 8192\<rparr>, \<lparr>sg_addr = 0x20000, sg_len = 512\<rparr>]"

abbreviation example_cfg_no_imm :: map_cfg where
  "example_cfg_no_imm \<equiv> (example_cfg True)\<lparr>mp_enable_imm_data := False\<rparr>"

lemma example_fr_ok: "fr_ok (\<lambda>h. True) always_posting example_cfg_no_imm [] (Some example_fr_pool) h"
proof -
  have "fr_pool_ok example_cfg_no_imm example_fr_pool"
  proof -
    have "mp_rkey example_cfg_no_imm = mp_rkey (example_cfg True)" by simp
    then show ?thesis using example_fr_pool_ok [of True] unfolding fr_pool_ok_def by (simp only:) simp
  qed
  then show ?thesis
    by (simp add: fr_ok_def example_cfg_def posts_ok_def ib_post_send_def always_posting_def)
       (simp add: example_dev_def)
qed

lemma example_dma_map: "ib_dma_map_sg always_posting 0 sgl dir \<lparr>hw_env = 0, hw_log = []\<rparr> =
  (sgl, if sgl = [] then \<lparr>hw_env = 1, hw_log = []\<rparr> else \<lparr>hw_env = 1, hw_log = [Alloc (R_dma_sg 0)]\<rparr>)"
  by (simp add: ib_dma_map_sg_def always_posting_def example_verbs_def logged_def)



section \<open>Mapping always ends\<close>

text \<open>A pool from which a descriptor can be taken: the entries of the free list are indices of
  descriptors with a memory region.\<close>

definition fr_pool_usable :: "srp_fr_pool \<Rightarrow> bool" where
  "fr_pool_usable pool \<longleftrightarrow> (\<forall>i \<in> set (frp_free_list pool). i < length (frp_desc pool)) \<and>
     list_all (\<lambda>d. fr_mr d \<noteq> None) (frp_desc pool)"

definition pool_inv :: "srp_fr_pool option \<Rightarrow> bool" where
  "pool_inv p \<longleftrightarrow> (\<forall>pool. p = Some pool \<longrightarrow> fr_pool_usable pool)"

definition mr_usable :: "map_cfg \<Rightarrow> srp_fr_pool option \<Rightarrow> bool" where
  "mr_usable cfg p \<longleftrightarrow> pool_inv p \<and>
     (if dev_use_fast_reg (mp_dev cfg) then p \<noteq> None else mp_fmr_pool cfg \<noteq> None)"

definition can_backtrack :: "'e map_ctx \<Rightarrow> bool" where
  "can_backtrack c \<longleftrightarrow> ms_pages (mc_state c) \<noteq> [] \<longrightarrow> ms_unmapped_sg (mc_state c) \<noteq> None"

lemma finish_fr_total:
  assumes "mc_fr_pool c = Some pool" and "fr_pool_usable pool"
  shows "\<exists>ret c' pool'. srp_map_finish_fr V cfg c = Some (ret, c') \<and> mc_fr_pool c' = Some pool' \<and>
    fr_pool_usable pool' \<and> ms_unmapped_sg (mc_state c') = ms_unmapped_sg (mc_state c)"
proof (cases "frp_free_list pool")
  case Nil
  then show ?thesis using assms by (simp add: srp_map_finish_fr_def srp_fr_pool_get_def)
next
  case (Cons d ds)
  then have "d < length (frp_desc pool)" using assms(2) by (simp add: fr_pool_usable_def)
  then obtain mr where "fr_mr (frp_desc pool ! d) = Some mr"
    using assms(2) by (auto simp: fr_pool_usable_def list_all_length)
  then show ?thesis using assms Cons
    by (auto simp: srp_map_finish_fr_def srp_fr_pool_get_def Let_def fr_pool_usable_def list_all_length
        nth_list_update srp_map_desc_def split: prod.splits)
qed

lemma finish_mapping_total:
  assumes "mr_usable cfg (mc_fr_pool c)"
  obtains ret c' where "srp_finish_mapping V cfg c = Some (ret, c')" "mr_usable cfg (mc_fr_pool c')"
    "ms_unmapped_sg (mc_state c') = ms_unmapped_sg (mc_state c)"
    "ret = 0 \<longrightarrow> ms_pages (mc_state c') = []" "ret \<noteq> 0 \<longrightarrow> ms_pages (mc_state c) \<noteq> []"
proof -
  have mr: "\<exists>ret c'. srp_map_finish_mr V cfg c = Some (ret, c') \<and> mr_usable cfg (mc_fr_pool c') \<and>
      ms_unmapped_sg (mc_state c') = ms_unmapped_sg (mc_state c)"
  proof (cases "dev_use_fast_reg (mp_dev cfg)")
    case True
    then obtain pool where "mc_fr_pool c = Some pool" "fr_pool_usable pool"
      using assms by (auto simp: mr_usable_def pool_inv_def)
    from finish_fr_total [OF this, of V cfg] True show ?thesis
      by (auto simp: srp_map_finish_mr_def mr_usable_def pool_inv_def)
  next
    case False
    then show ?thesis using assms
      by (auto simp: srp_map_finish_mr_def mr_usable_def srp_map_finish_fmr_def srp_map_desc_def
          split: prod.splits sum.splits)
  qed
  then obtain ret c1 where c1: "srp_map_finish_mr V cfg c = Some (ret, c1)" "mr_usable cfg (mc_fr_pool c1)"
    "ms_unmapped_sg (mc_state c1) = ms_unmapped_sg (mc_state c)" by blast
  show thesis
  proof (cases "npages c = 0 \<or> npages c = 1 \<and> \<not> mp_register_always cfg")
    case True
    then show thesis using assms
      by (auto intro!: that simp: srp_finish_mapping_def Let_def srp_map_desc_def)
  next
    case False
    then have "srp_finish_mapping V cfg c = Some (ret,
        if ret = 0 then upd_state (\<lambda>s. s\<lparr>ms_pages := [], ms_dma_len := 0\<rparr>) c1 else c1)"
      using c1(1) by (auto simp: srp_finish_mapping_def Let_def)
    then show thesis using that c1 False by auto
  qed
qed

lemma flush_total:
  assumes "mr_usable cfg (mc_fr_pool c)" and "ms_unmapped_sg (mc_state c) \<noteq> None"
  obtains ret c' where "flush_if_needed V cfg sg i a c = Some (ret, c')" "mr_usable cfg (mc_fr_pool c')"
    "ms_unmapped_sg (mc_state c') \<noteq> None"
proof -
  obtain ret c1 where f: "srp_finish_mapping V cfg c = Some (ret, c1)" "mr_usable cfg (mc_fr_pool c1)"
    "ms_unmapped_sg (mc_state c1) = ms_unmapped_sg (mc_state c)"
    by (rule finish_mapping_total [OF assms(1), of V])
  then show thesis using that assms
    by (cases "flush_if_needed V cfg sg i a c = Some (0, c)")
       (auto simp: flush_if_needed_def srp_map_update_start_def split: if_splits)
qed

lemma map_pages_total:
  assumes "dev_ok (mp_dev cfg)" and "mr_usable cfg (mc_fr_pool c)" and "ms_unmapped_sg (mc_state c) \<noteq> None"
  shows "\<exists>res c'. srp_map_pages V cfg sg i a r len c = Some (res, c') \<and> mr_usable cfg (mc_fr_pool c') \<and>
    ms_unmapped_sg (mc_state c') \<noteq> None"
  using assms(2,3)
proof (induction "unat r" arbitrary: a r len c rule: less_induct)
  case less
  show ?case
  proof (cases "r = 0")
    case True
    then show ?thesis using less.prems by (simp add: map_pages_0)
  next
    case False
    obtain ret c1 where f: "flush_if_needed V cfg sg i a c = Some (ret, c1)" "mr_usable cfg (mc_fr_pool c1)"
      "ms_unmapped_sg (mc_state c1) \<noteq> None" by (rule flush_total [OF less.prems])
    let ?len = "min r (word_of_int (dev_mr_page_size (mp_dev cfg)) - page_offset cfg a)"
    have "unat (r - ?len) < unat r"
    proof -
      have "unat (r - ?len) = unat r - unat ?len" by (rule unat_sub) simp
      moreover have "0 < unat ?len"
        unfolding unat_page_len [OF assms(1)]
        using page_offset_less [OF assms(1), of a] False by (simp add: unat_gt_0)
      moreover have "0 < unat r" using False by (simp add: unat_gt_0)
      ultimately show ?thesis by linarith
    qed
    then show ?thesis using less.hyps [of "r - ?len" "upd_state (srp_map_page cfg a ?len) c1"] f
      by (cases "ret = 0") (simp_all add: map_pages_step False Let_def srp_map_page_def)
  qed
qed

lemma map_sg_entry_total:
  assumes "dev_ok (mp_dev cfg)" and "mr_usable cfg (mc_fr_pool c)" and "can_backtrack c"
  obtains ret c' where "srp_map_sg_entry V cfg sg i True c = Some (ret, c')" "mr_usable cfg (mc_fr_pool c')"
    "ret \<noteq> 0 \<longrightarrow> ms_unmapped_sg (mc_state c') \<noteq> None" "ret = 0 \<longrightarrow> can_backtrack c'"
proof -
  obtain ret c1 where f: "srp_finish_mapping V cfg c = Some (ret, c1)" "mr_usable cfg (mc_fr_pool c1)"
    "ms_unmapped_sg (mc_state c1) = ms_unmapped_sg (mc_state c)"
    "ret = 0 \<longrightarrow> ms_pages (mc_state c1) = []" "ret \<noteq> 0 \<longrightarrow> ms_pages (mc_state c) \<noteq> []"
    by (rule finish_mapping_total [OF assms(2), of V])
  let ?dev = "mp_dev cfg"
  let ?c0 = "if ms_unmapped_sg (mc_state c) = None
      then upd_state (srp_map_update_start (Some sg) i (sg_addr sg)) c else c"
  have c0: "mr_usable cfg (mc_fr_pool ?c0)" "ms_unmapped_sg (mc_state ?c0) \<noteq> None"
    using assms(2) by (simp_all add: srp_map_update_start_def)
  obtain res c2 where p: "srp_map_pages V cfg sg i (sg_addr sg) (sg_len sg) 0 ?c0 = Some (res, c2)"
    "mr_usable cfg (mc_fr_pool c2)" "ms_unmapped_sg (mc_state c2) \<noteq> None"
    using map_pages_total [OF assms(1) c0, of V sg i "sg_addr sg" "sg_len sg" 0] by blast
  obtain ret3 c3 where g: "srp_finish_mapping V cfg c2 = Some (ret3, c3)" "mr_usable cfg (mc_fr_pool c3)"
    "ms_unmapped_sg (mc_state c3) = ms_unmapped_sg (mc_state c2)"
    "ret3 = 0 \<longrightarrow> ms_pages (mc_state c3) = []"
    by (rule finish_mapping_total [OF p(2), of V])
  consider "sg_len sg = 0"
    | (direct) "sg_len sg \<noteq> 0" "(\<not> dev_use_fast_reg ?dev \<and> sg_addr sg AND NOT (dev_mr_page_mask ?dev) \<noteq> 0) \<or>
        sg_len sg > word_of_int (dev_mr_max_size ?dev)"
    | (pages) "sg_len sg \<noteq> 0" "\<not> ((\<not> dev_use_fast_reg ?dev \<and> sg_addr sg AND NOT (dev_mr_page_mask ?dev) \<noteq> 0) \<or>
        sg_len sg > word_of_int (dev_mr_max_size ?dev))"
    by blast
  then show thesis
  proof cases
    case 1
    then show thesis using that [of 0 c] assms by (simp add: srp_map_sg_entry_def)
  next
    case direct
    then have "srp_map_sg_entry V cfg sg i True c = Some (if ret \<noteq> 0 then (ret, c1)
        else (0, upd_state (\<lambda>s. srp_map_update_start None 0 0
          (srp_map_desc (sg_addr sg) (sg_len sg) (mp_rkey cfg) s)) c1))"
      using f(1) by (simp add: srp_map_sg_entry_def Let_def)
    then show thesis using that f assms(3)
      by (cases "ret = 0") (auto simp: can_backtrack_def srp_map_update_start_def srp_map_desc_def)
  next
    case pages
    then have e: "srp_map_sg_entry V cfg sg i True c = (case res of Inl r \<Rightarrow> Some (r, c2)
        | Inr len \<Rightarrow> if len \<noteq> word_of_int (dev_mr_page_size ?dev)
          then Some (ret3, if ret3 = 0 then upd_state (srp_map_update_start None 0 0) c3 else c3)
          else Some (0, c2))"
      unfolding srp_map_sg_entry_def Let_def
      by (simp only: if_not_P [OF pages(1)] if_not_P [OF pages(2)] simp_thms if_False p(1)
          Option.bind.simps prod.case g(1) option.map)
    show thesis
    proof (cases res)
      case (Inl r)
      then show thesis using that [of r c2] e p by (simp add: can_backtrack_def)
    next
      case (Inr len)
      then show thesis using that e p g
        by (cases "len = word_of_int (dev_mr_page_size ?dev)"; cases "ret3 = 0")
           (auto simp: can_backtrack_def srp_map_update_start_def)
    qed
  qed
qed

lemma map_sg_direct_total:
  "i \<le> length scat \<Longrightarrow> \<exists>c'. srp_map_sg_loop V cfg scat False i c = Some c' \<and> mc_fr_pool c' = mc_fr_pool c"
proof (induction "length scat - i" arbitrary: i c rule: less_induct)
  case less
  show ?case
  proof (cases "i < length scat")
    case True
    let ?c = "if sg_len (scat ! i) = 0 then c
      else upd_state (srp_map_desc (sg_addr (scat ! i)) (sg_len (scat ! i)) (mp_rkey cfg)) c"
    have "mc_fr_pool ?c = mc_fr_pool c" by simp
    moreover obtain c' where "srp_map_sg_loop V cfg scat False (Suc i) ?c = Some c'" "mc_fr_pool c' = mc_fr_pool ?c"
      using less.hyps [of "Suc i" ?c] True by (metis Suc_leI diff_less_mono2 lessI)
    ultimately show ?thesis using True
      by (subst srp_map_sg_loop.simps) (simp add: map_sg_entry_no_mr)
  next
    case False
    then show ?thesis by (subst srp_map_sg_loop.simps) simp
  qed
qed

lemma map_sg_direct_total_any:
  "\<exists>c'. srp_map_sg_loop V cfg scat False i c = Some c' \<and> mc_fr_pool c' = mc_fr_pool c"
proof (cases "i \<le> length scat")
  case False
  then show ?thesis by (subst srp_map_sg_loop.simps) simp
qed (rule map_sg_direct_total)

lemma map_sg_loop_total:
  assumes "dev_ok (mp_dev cfg)"
  shows "i \<le> length scat \<Longrightarrow> mr_usable cfg (mc_fr_pool c) \<Longrightarrow> can_backtrack c \<Longrightarrow>
    \<exists>c'. srp_map_sg_loop V cfg scat True i c = Some c' \<and> pool_inv (mc_fr_pool c')"
proof (induction "length scat - i" arbitrary: i c rule: less_induct)
  case less
  have bt: "\<exists>c'. Option.bind (srp_backtrack cfg c1) (\<lambda>(j, c2). srp_map_sg_loop V cfg scat False (Suc j) c2) = Some c' \<and>
      pool_inv (mc_fr_pool c')"
    if unmapped: "ms_unmapped_sg (mc_state c1) \<noteq> None" and pool: "mr_usable cfg (mc_fr_pool c1)" for c1
  proof -
    obtain j c2 where b: "srp_backtrack cfg c1 = Some (j, c2)" "mc_fr_pool c2 = mc_fr_pool c1"
      using unmapped by (auto simp: srp_backtrack_def Let_def)
    obtain c' where "srp_map_sg_loop V cfg scat False (Suc j) c2 = Some c'" "mc_fr_pool c' = mc_fr_pool c2"
      using map_sg_direct_total_any by blast
    then show ?thesis using b pool by (simp add: mr_usable_def)
  qed
  show ?case
  proof (cases "i < length scat")
    case True
    obtain ret c1 where e: "srp_map_sg_entry V cfg (scat ! i) i True c = Some (ret, c1)" "mr_usable cfg (mc_fr_pool c1)"
      "ret \<noteq> 0 \<longrightarrow> ms_unmapped_sg (mc_state c1) \<noteq> None" "ret = 0 \<longrightarrow> can_backtrack c1"
      by (rule map_sg_entry_total [OF assms less.prems(2,3)])
    have "\<exists>c'. srp_map_sg_loop V cfg scat True (Suc i) c1 = Some c' \<and> pool_inv (mc_fr_pool c')" if "ret = 0"
      using less.hyps [of "Suc i" c1] True e that by simp
    then show ?thesis using True e bt [of c1]
      by (subst srp_map_sg_loop.simps) (cases "ret = 0"; simp)
  next
    case False
    obtain ret c1 where f: "srp_finish_mapping V cfg c = Some (ret, c1)" "mr_usable cfg (mc_fr_pool c1)"
      "ms_unmapped_sg (mc_state c1) = ms_unmapped_sg (mc_state c)" "ret \<noteq> 0 \<longrightarrow> ms_pages (mc_state c) \<noteq> []"
      by (rule finish_mapping_total [OF less.prems(2), of V])
    then have "ret \<noteq> 0 \<Longrightarrow> ms_unmapped_sg (mc_state c1) \<noteq> None"
      using less.prems(3) by (simp add: can_backtrack_def)
    then show ?thesis using False f bt [of c1]
      by (subst srp_map_sg_loop.simps) (cases "ret = 0"; simp add: mr_usable_def)
  qed
qed

lemma map_sg_total:
  assumes "dev_ok (mp_dev cfg)" and "pool_inv p"
  shows "\<exists>c'. srp_map_sg V cfg scat \<lparr>mc_state = zeroed_map_state, mc_fr_pool = p, mc_hw = h\<rparr> = Some c' \<and>
    pool_inv (mc_fr_pool c')"
proof -
  let ?c = "\<lparr>mc_state = zeroed_map_state, mc_fr_pool = p, mc_hw = h\<rparr>"
  have "can_backtrack ?c" by (simp add: can_backtrack_def zeroed_map_state_def)
  then show ?thesis
    using map_sg_loop_total [OF assms(1), of 0 scat ?c V] map_sg_direct_total_any [of V cfg scat 0 ?c] assms(2)
    by (cases "if dev_use_fast_reg (mp_dev cfg) then p \<noteq> None else mp_fmr_pool cfg \<noteq> None")
       (auto simp: srp_map_sg_def mr_usable_def split: if_splits)
qed

text \<open>Whatever the environment returns, \<^verbatim>\<open>srp_map_data()\<close> comes back, and it touches neither the command
  that the request belongs to nor its tag.\<close>

definition map_data_result ::
    "srp_request \<Rightarrow> srp_iu \<Rightarrow> int \<times> srp_request \<times> srp_iu \<times> srp_fr_pool option \<times> 'e hw \<Rightarrow> bool" where
  "map_data_result req iu r \<longleftrightarrow> (case r of (len, req', iu', p', h') \<Rightarrow>
     req_scmnd req' = req_scmnd req \<and> req_tag req' = req_tag req \<and> req_cmd req' = req_cmd req \<and>
     iu_self iu' = iu_self iu \<and> pool_inv p')"

lemma map_data_total:
  assumes "dev_ok (mp_dev cfg)" and "pool_inv p"
  shows "\<exists>r. srp_map_data V cfg cmd scmnd req iu p h = Some r \<and> map_data_result req iu r"
proof (cases "sc_sglist scmnd")
  case None
  then show ?thesis using assms(2) by (simp add: srp_map_data_def map_data_result_def Let_def)
next
  case (Some sgl)
  obtain scat h1 where dma: "ib_dma_map_sg V cmd sgl (sc_dir scmnd) h = (scat, h1)" by (meson surj_pair)
  obtain c where c: "srp_map_sg V cfg scat \<lparr>mc_state = zeroed_map_state, mc_fr_pool = p, mc_hw = h1\<rparr> = Some c"
    "pool_inv (mc_fr_pool c)"
    using map_sg_total [OF assms] by blast
  note ok = map_data_result_def srp_map_complete_def srp_map_imm_def srp_map_direct_def srp_map_indirect_def
    Let_def c(2) assms(2)
  show ?thesis
    by (simp only: srp_map_data_def Let_def Some dma option.case prod.case c split: if_split) (simp add: ok)
qed

end
