(* ===== verification/SRP_Channel.thy ===== *)
theory SRP_Channel
  imports SRP_Transport SRP_Map_Data
begin

text \<open>
  An RDMA channel at work: the structures \<^verbatim>\<open>struct srp_rdma_ch\<close> and \<^verbatim>\<open>struct srp_target_port\<close> of
  \<^verbatim>\<open>ib_srp.h\<close>, the request and information unit free lists with the credits (\<^verbatim>\<open>req_lim\<close>), the completion
  handlers, and the path of a command from \<^verbatim>\<open>srp_queuecommand()\<close> to
  \<^verbatim>\<open>srp_process_rsp()\<close> or \<^verbatim>\<open>srp_finish_req()\<close>.

  \<open>'e srp_state\<close> is everything behind \<^verbatim>\<open>rport->lld_data\<close>: the target port with its channels, the
  SCSI commands by address, and the calls of \<^verbatim>\<open>scsi_done()\<close> in their order. A channel is named by its
  index in \<^verbatim>\<open>target->ch\<close>, a request by its index in \<^verbatim>\<open>req_ring\<close> and an
  information unit by its index in \<^verbatim>\<open>tx_ring\<close> or \<^verbatim>\<open>rx_ring\<close>. A function that holds \<^verbatim>\<open>ch->lock\<close> is
  executed as a whole.

  \<open>st_fault\<close> becomes set when the C code would follow a null or stray pointer (\<open>Bad_Pointer\<close>) or
  not return (\<open>Hang\<close>), and stays set.
\<close>

section \<open>Structures\<close>

record srp_rdma_ch =
  ch_free_tx :: "nat list"
  ch_free_reqs :: "nat list"
  ch_req_lim :: int
  ch_target :: bool
  ch_send_cq :: "nat option"
  ch_recv_cq :: "nat option"
  ch_qp :: "nat option"
  ch_fmr_pool :: "nat option"
  ch_fr_pool :: "srp_fr_pool option"
  ch_done :: bool
  ch_status :: int
  ch_path :: ib_sa_path_rec
  ch_cm_id :: "nat option"
  ch_tx_mem :: "nat option"
  ch_tx_ring :: "srp_iu list"
  ch_rx_mem :: "nat option"
  ch_rx_ring :: "srp_iu list"
  ch_req_mem :: "nat option"
  ch_req_ring :: "srp_request list"
  ch_max_ti_iu_len :: int
  ch_max_it_iu_len :: u32
  ch_buf_fmt :: u16
  ch_comp_vector :: int
  ch_tsk_mgmt_done :: bool
  ch_tsk_mgmt_status :: u8
  ch_connected :: bool

text \<open>The last three members belong to the \<^verbatim>\<open>struct Scsi_Host\<close> of the target port.\<close>

record srp_target_port =
  tgt_ch :: "srp_rdma_ch list"
  tgt_ch_mem :: "nat option"
  tgt_mq_map :: "nat list"
  tgt_mq_mem :: "nat option"
  tgt_ch_count :: nat
  tgt_lkey :: u32
  tgt_rkey :: u32
  tgt_state :: srp_target_state
  tgt_max_iu_len :: u32
  tgt_cmd_sg_cnt :: u32
  tgt_indirect_size :: u32
  tgt_allow_ext_sg :: bool
  tgt_sgid :: "u8 list"
  tgt_id_ext :: be64
  tgt_ioc_guid :: be64
  tgt_initiator_ext :: be64
  tgt_io_class :: u16
  tgt_sg_tablesize :: u32
  tgt_queue_size :: int
  tgt_req_ring_size :: int
  tgt_comp_vector :: int
  tgt_tl_retry_count :: int
  tgt_using_rdma_cm :: bool
  tgt_dst :: "u8 list"
  tgt_rq_tmo_jiffies :: u32
  tgt_zero_req_lim :: int
  tgt_tl_err_work :: bool
  tgt_remove_work :: bool
  tgt_rport :: bool
  tgt_qp_in_error :: bool
  tgt_can_queue :: int
  tgt_cmd_per_lun :: int
  tgt_max_sectors :: int

text \<open>\<^verbatim>\<open>target->ib_cm\<close> and \<^verbatim>\<open>target->rdma_cm.dst\<close> are members of a union; \<open>tgt_dst\<close> are its 32 bytes.\<close>

definition tgt_service_id :: "srp_target_port \<Rightarrow> be64" where "tgt_service_id t = field 0 8 (tgt_dst t)"
definition tgt_orig_dgid :: "srp_target_port \<Rightarrow> u8 list" where "tgt_orig_dgid t = field 8 16 (tgt_dst t)"
definition tgt_pkey :: "srp_target_port \<Rightarrow> be16" where "tgt_pkey t = field 24 2 (tgt_dst t)"

datatype fault = Bad_Pointer | Hang

text \<open>Module parameters, and the functions \<^verbatim>\<open>int_to_scsilun()\<close> and \<^verbatim>\<open>msecs_to_jiffies()\<close> of the kernel.\<close>

record srp_params =
  topspin_workarounds :: bool
  register_always :: bool
  enable_imm_data :: bool
  int_to_scsilun :: "u64 \<Rightarrow> u8 list"
  msecs_to_jiffies :: "u32 \<Rightarrow> u64"

record 'e srp_state =
  st_target :: srp_target_port
  st_dev :: srp_device
  st_node_guid :: be64
  st_mod :: srp_params
  st_cmds :: "nat \<Rightarrow> scsi_cmnd"
  st_done :: "nat list"
  st_hw :: "'e hw"
  st_fault :: "fault option"

section \<open>Access to the state\<close>

abbreviation chan :: "'e srp_state \<Rightarrow> nat \<Rightarrow> srp_rdma_ch" where
  "chan s c \<equiv> tgt_ch (st_target s) ! c"

abbreviation nch :: "'e srp_state \<Rightarrow> nat" where
  "nch s \<equiv> length (tgt_ch (st_target s))"

definition upd_tgt :: "(srp_target_port \<Rightarrow> srp_target_port) \<Rightarrow> 'e srp_state \<Rightarrow> 'e srp_state" where
  "upd_tgt f s = s\<lparr>st_target := f (st_target s)\<rparr>"

definition upd_ch :: "nat \<Rightarrow> (srp_rdma_ch \<Rightarrow> srp_rdma_ch) \<Rightarrow> 'e srp_state \<Rightarrow> 'e srp_state" where
  "upd_ch c f s = upd_tgt (\<lambda>t. t\<lparr>tgt_ch := (tgt_ch t)[c := f (tgt_ch t ! c)]\<rparr>) s"

definition upd_req :: "nat \<Rightarrow> nat \<Rightarrow> (srp_request \<Rightarrow> srp_request) \<Rightarrow> 'e srp_state \<Rightarrow> 'e srp_state" where
  "upd_req c i f s = upd_ch c (\<lambda>ch. ch\<lparr>ch_req_ring := (ch_req_ring ch)[i := f (ch_req_ring ch ! i)]\<rparr>) s"

definition upd_tx :: "nat \<Rightarrow> nat \<Rightarrow> (srp_iu \<Rightarrow> srp_iu) \<Rightarrow> 'e srp_state \<Rightarrow> 'e srp_state" where
  "upd_tx c i f s = upd_ch c (\<lambda>ch. ch\<lparr>ch_tx_ring := (ch_tx_ring ch)[i := f (ch_tx_ring ch ! i)]\<rparr>) s"

definition upd_cmd :: "nat \<Rightarrow> (scsi_cmnd \<Rightarrow> scsi_cmnd) \<Rightarrow> 'e srp_state \<Rightarrow> 'e srp_state" where
  "upd_cmd m f s = s\<lparr>st_cmds := (st_cmds s)(m := f (st_cmds s m))\<rparr>"

definition upd_hw :: "'e hw \<Rightarrow> 'e srp_state \<Rightarrow> 'e srp_state" where
  "upd_hw h s = s\<lparr>st_hw := h\<rparr>"

definition fault :: "fault \<Rightarrow> 'e srp_state \<Rightarrow> 'e srp_state" where
  "fault f s = (case st_fault s of None \<Rightarrow> s\<lparr>st_fault := Some f\<rparr> | Some _ \<Rightarrow> s)"

definition scsi_done :: "nat \<Rightarrow> 'e srp_state \<Rightarrow> 'e srp_state" where
  "scsi_done m s = s\<lparr>st_done := st_done s @ [m]\<rparr>"

text \<open>The address of an information unit is what identifies it in a work completion.\<close>

definition iu_ptr :: "srp_iu \<Rightarrow> u64" where
  "iu_ptr iu = of_nat (iu_self iu)"

fun find_iu :: "u64 \<Rightarrow> srp_iu list \<Rightarrow> nat option" where
  "find_iu w [] = None"
| "find_iu w (iu # ius) = (if iu_ptr iu = w then Some 0 else map_option Suc (find_iu w ius))"

definition map_cfg_of :: "'e srp_state \<Rightarrow> nat \<Rightarrow> map_cfg" where
  "map_cfg_of s c =
     (let t = st_target s; ch = chan s c
      in \<lparr>mp_dev = st_dev s, mp_rkey = tgt_rkey t, mp_register_always = register_always (st_mod s),
          mp_qp = (case ch_qp ch of None \<Rightarrow> 0 | Some q \<Rightarrow> q), mp_fmr_pool = ch_fmr_pool ch,
          mp_lkey = tgt_lkey t, mp_cmd_sg_cnt = tgt_cmd_sg_cnt t, mp_allow_ext_sg = tgt_allow_ext_sg t,
          mp_enable_imm_data = enable_imm_data (st_mod s), mp_buf_fmt = ch_buf_fmt ch,
          mp_max_it_iu_len = ch_max_it_iu_len ch\<rparr>)"

section \<open>Requests\<close>

definition srp_claim_req ::
    "nat \<Rightarrow> nat \<Rightarrow> nat option \<Rightarrow> nat option \<Rightarrow> 'e srp_state \<Rightarrow> nat option \<times> 'e srp_state" where
  "srp_claim_req c i sdev scmnd s =
     (if i < length (ch_req_ring (chan s c))
      then case req_scmnd (ch_req_ring (chan s c) ! i) of
          None \<Rightarrow> (None, s)
        | Some m \<Rightarrow>
            if (sdev = None \<or> sdev = Some (sc_device (st_cmds s m))) \<and> (scmnd = None \<or> scmnd = Some m)
            then (Some m, upd_req c i (\<lambda>r. r\<lparr>req_scmnd := None\<rparr>) s)
            else (None, s)
      else (None, fault Bad_Pointer s))"

text \<open>\<open>srp_unmap_req\<close> is the call \<^verbatim>\<open>srp_unmap_data(scmnd, ch, req)\<close>.\<close>

definition srp_unmap_req :: "'e verbs \<Rightarrow> nat \<Rightarrow> nat \<Rightarrow> nat \<Rightarrow> 'e srp_state \<Rightarrow> 'e srp_state" where
  "srp_unmap_req V c i m s =
     (let ch = chan s c in
      case srp_unmap_data V (map_cfg_of s c) m (st_cmds s m) (ch_req_ring ch ! i) (ch_fr_pool ch) (st_hw s) of
        (p, h, err) \<Rightarrow>
          upd_tgt (\<lambda>t. if err then t\<lparr>tgt_tl_err_work := True\<rparr> else t)
            (upd_ch c (\<lambda>ch. ch\<lparr>ch_fr_pool := p\<rparr>) (upd_hw h s)))"

definition srp_free_req :: "'e verbs \<Rightarrow> nat \<Rightarrow> nat \<Rightarrow> nat \<Rightarrow> int \<Rightarrow> 'e srp_state \<Rightarrow> 'e srp_state" where
  "srp_free_req V c i m req_lim_delta s =
     upd_ch c (\<lambda>ch. ch\<lparr>ch_req_lim := s32 (ch_req_lim ch + req_lim_delta),
                       ch_free_reqs := ch_free_reqs ch @ [i]\<rparr>) (srp_unmap_req V c i m s)"

definition srp_finish_req ::
    "'e verbs \<Rightarrow> nat \<Rightarrow> nat option \<Rightarrow> int \<Rightarrow> nat \<Rightarrow> 'e srp_state \<Rightarrow> 'e srp_state" where
  "srp_finish_req V c sdev result i s =
     (case srp_claim_req c i sdev None s of
        (None, s1) \<Rightarrow> s1
      | (Some m, s1) \<Rightarrow>
          scsi_done m (upd_cmd m (\<lambda>x. x\<lparr>sc_quiet := True, sc_result := result\<rparr>)
            (srp_free_req V c i m 0 s1)))"

text \<open>The loop over the request ring of a channel.\<close>

definition srp_finish_reqs :: "'e verbs \<Rightarrow> nat option \<Rightarrow> int \<Rightarrow> nat \<Rightarrow> 'e srp_state \<Rightarrow> 'e srp_state" where
  "srp_finish_reqs V sdev result c s =
     fold (srp_finish_req V c sdev result) [0..<nat (tgt_req_ring_size (st_target s))] s"

definition srp_terminate_io :: "'e verbs \<Rightarrow> 'e srp_state \<Rightarrow> 'e srp_state" where
  "srp_terminate_io V s =
     fold (srp_finish_reqs V None (DID_TRANSPORT_FAILFAST * 2 ^ 16)) [0..<tgt_ch_count (st_target s)] s"

section \<open>Information units and credits\<close>

definition srp_put_tx_iu :: "nat \<Rightarrow> nat \<Rightarrow> srp_iu_type \<Rightarrow> 'e srp_state \<Rightarrow> 'e srp_state" where
  "srp_put_tx_iu c i iu_type s =
     upd_ch c (\<lambda>ch. ch\<lparr>ch_free_tx := i # ch_free_tx ch,
       ch_req_lim := (if iu_type \<noteq> SRP_IU_RSP then s32 (ch_req_lim ch + 1) else ch_req_lim ch)\<rparr>) s"

definition srp_handle_qp_err :: "u64 \<Rightarrow> nat \<Rightarrow> 'e srp_state \<Rightarrow> 'e srp_state" where
  "srp_handle_qp_err wr_id c s =
     (if wr_id = SRP_LAST_WR_ID then upd_ch c (\<lambda>ch. ch\<lparr>ch_done := True\<rparr>) s
      else upd_tgt (\<lambda>t. t\<lparr>tgt_qp_in_error := True\<rparr>)
        (if ch_connected (chan s c) \<and> \<not> tgt_qp_in_error (st_target s)
         then upd_tgt (\<lambda>t. t\<lparr>tgt_tl_err_work := True\<rparr>) s else s))"

definition srp_handle_send :: "nat \<Rightarrow> ib_wc \<Rightarrow> 'e srp_state \<Rightarrow> 'e srp_state" where
  "srp_handle_send c wc s =
     (if wc_success wc
      then case find_iu (wc_wr_id wc) (ch_tx_ring (chan s c)) of
          None \<Rightarrow> fault Bad_Pointer s
        | Some i \<Rightarrow> upd_ch c (\<lambda>ch. ch\<lparr>ch_free_tx := i # ch_free_tx ch\<rparr>) s
      else srp_handle_qp_err (wc_wr_id wc) c s)"

definition srp_send_completion :: "'e verbs \<Rightarrow> nat \<Rightarrow> 'e srp_state \<Rightarrow> 'e srp_state" where
  "srp_send_completion V c s =
     (case ch_send_cq (chan s c) of
        None \<Rightarrow> fault Bad_Pointer s
      | Some cq \<Rightarrow> (case poll_send_cq V cq (st_hw s) of
          (wcs, h) \<Rightarrow> fold (srp_handle_send c) wcs (upd_hw h s)))"

definition srp_get_tx_iu ::
    "'e verbs \<Rightarrow> nat \<Rightarrow> srp_iu_type \<Rightarrow> 'e srp_state \<Rightarrow> nat option \<times> 'e srp_state" where
  "srp_get_tx_iu V c iu_type s =
     (let rsv = (if iu_type = SRP_IU_TSK_MGMT then 0 else SRP_TSK_MGMT_SQ_SIZE);
          s1 = srp_send_completion V c s;
          ch = chan s1 c
      in case ch_free_tx ch of
           [] \<Rightarrow> (None, s1)
         | i # is \<Rightarrow>
             if iu_type \<noteq> SRP_IU_RSP \<and> ch_req_lim ch \<le> rsv
             then (None, upd_tgt (\<lambda>t. t\<lparr>tgt_zero_req_lim := s32 (tgt_zero_req_lim t + 1)\<rparr>) s1)
             else (Some i, upd_ch c (\<lambda>ch. ch\<lparr>ch_free_tx := is,
                 ch_req_lim := (if iu_type \<noteq> SRP_IU_RSP then s32 (ch_req_lim ch - 1) else ch_req_lim ch)\<rparr>) s1))"

definition srp_post_send :: "'e verbs \<Rightarrow> nat \<Rightarrow> nat \<Rightarrow> int \<Rightarrow> 'e srp_state \<Rightarrow> int \<times> 'e srp_state" where
  "srp_post_send V c i len s =
     (let iu = ch_tx_ring (chan s c) ! i in
      if SRP_MAX_IMM_SGE + 1 < iu_num_sge iu then (- EINVAL, s)
      else case ch_qp (chan s c) of
          None \<Rightarrow> (- EINVAL, fault Bad_Pointer s)
        | Some qp \<Rightarrow>
            (let sge = (iu_sge iu)[0 := \<lparr>sge_addr = iu_dma iu, sge_length = word_of_int len,
                                       sge_lkey = tgt_lkey (st_target s)\<rparr>]
             in case ib_post_send V qp (WR_SEND (iu_ptr iu) (take (iu_num_sge iu) sge)) (st_hw s) of
                  (r, h) \<Rightarrow> (r, upd_hw h (upd_tx c i (\<lambda>iu. iu\<lparr>iu_sge := sge\<rparr>) s))))"

definition srp_post_recv :: "'e verbs \<Rightarrow> nat \<Rightarrow> nat \<Rightarrow> 'e srp_state \<Rightarrow> int \<times> 'e srp_state" where
  "srp_post_recv V c i s =
     (let iu = ch_rx_ring (chan s c) ! i in
      case ch_qp (chan s c) of
        None \<Rightarrow> (- EINVAL, fault Bad_Pointer s)
      | Some qp \<Rightarrow>
          (case ib_post_recv V qp (iu_ptr iu)
             \<lparr>sge_addr = iu_dma iu, sge_length = of_nat (iu_size iu), sge_lkey = tgt_lkey (st_target s)\<rparr> (st_hw s) of
             (r, h) \<Rightarrow> (r, upd_hw h s)))"

section \<open>Receiving\<close>

definition SCSI_SENSE_BUFFERSIZE :: nat where "SCSI_SENSE_BUFFERSIZE = 96"

text \<open>The number of bytes of sense data copied: \<^verbatim>\<open>min_t(int, ...)\<close> converted to \<^verbatim>\<open>size_t\<close>.\<close>

definition srp_sense_len :: "srp_rsp \<Rightarrow> nat" where
  "srp_sense_len rsp =
     (let n = min (u32_to_int (be32_to_cpu (rsp_sense_data_len rsp))) (int SCSI_SENSE_BUFFERSIZE)
      in nat (n mod 2 ^ 64))"

definition srp_copy_sense :: "nat \<Rightarrow> srp_rsp \<Rightarrow> 'e srp_state \<Rightarrow> 'e srp_state" where
  "srp_copy_sense m rsp s =
     (let off = unat (be32_to_cpu (rsp_resp_data_len rsp)); n = srp_sense_len rsp
      in if off + n \<le> length (rsp_data rsp) \<and> n \<le> SCSI_SENSE_BUFFERSIZE
         then upd_cmd m (\<lambda>x. x\<lparr>sc_sense := write_bytes 0 (field off n (rsp_data rsp)) (sc_sense x)\<rparr>) s
         else fault Bad_Pointer s)"

definition srp_rsp_resid :: "srp_rsp \<Rightarrow> int option" where
  "srp_rsp_resid rsp =
     (let flag = (\<lambda>b. rsp_flags rsp AND b \<noteq> 0);
          din = be32_to_cpu (rsp_data_in_res_cnt rsp); dout = be32_to_cpu (rsp_data_out_res_cnt rsp)
      in if flag SRP_RSP_FLAG_DIUNDER then Some (u32_to_int din)
         else if flag SRP_RSP_FLAG_DIOVER then Some (u32_to_int (- din))
         else if flag SRP_RSP_FLAG_DOUNDER then Some (u32_to_int dout)
         else if flag SRP_RSP_FLAG_DOOVER then Some (u32_to_int (- dout))
         else None)"

definition srp_add_credits :: "nat \<Rightarrow> be32 \<Rightarrow> 'e srp_state \<Rightarrow> 'e srp_state" where
  "srp_add_credits c delta s =
     upd_ch c (\<lambda>ch. ch\<lparr>ch_req_lim := s32 (ch_req_lim ch + uint (be32_to_cpu delta))\<rparr>) s"

definition srp_process_rsp :: "'e verbs \<Rightarrow> nat \<Rightarrow> srp_rsp \<Rightarrow> 'e srp_state \<Rightarrow> 'e srp_state" where
  "srp_process_rsp V c rsp s =
     (if rsp_tag rsp AND ucast SRP_TAG_TSK_MGMT \<noteq> 0
      then (let s1 = upd_ch c (\<lambda>ch. ch\<lparr>ch_tsk_mgmt_status := - 1\<rparr>) (srp_add_credits c (rsp_req_lim_delta rsp) s);
                s2 = (if 4 \<le> be32_to_cpu (rsp_resp_data_len rsp)
                      then if 3 < length (rsp_data rsp)
                        then upd_ch c (\<lambda>ch. ch\<lparr>ch_tsk_mgmt_status := rsp_data rsp ! 3\<rparr>) s1
                        else fault Bad_Pointer s1
                      else s1)
            in upd_ch c (\<lambda>ch. ch\<lparr>ch_tsk_mgmt_done := True\<rparr>) s2)
      else
        (let i = unat (srp_tag_idx (ucast (rsp_tag rsp)))
         in case (if int i < tgt_req_ring_size (st_target s) then srp_claim_req c i None None s else (None, s)) of
              (None, s1) \<Rightarrow> srp_add_credits c (rsp_req_lim_delta rsp) s1
            | (Some m, s1) \<Rightarrow>
                (let s2 = upd_cmd m (\<lambda>x. x\<lparr>sc_result := uint (rsp_status rsp)\<rparr>) s1;
                     s3 = (if rsp_flags rsp AND SRP_RSP_FLAG_SNSVALID \<noteq> 0 then srp_copy_sense m rsp s2 else s2);
                     s4 = (case srp_rsp_resid rsp of None \<Rightarrow> s3 | Some r \<Rightarrow> upd_cmd m (\<lambda>x. x\<lparr>sc_resid := r\<rparr>) s3);
                     s5 = srp_free_req V c i m (u32_to_int (be32_to_cpu (rsp_req_lim_delta rsp))) s4
                 in scsi_done m (upd_cmd m (\<lambda>x. x\<lparr>sc_scribble := None\<rparr>) s5))))"

definition srp_response_common ::
    "'e verbs \<Rightarrow> nat \<Rightarrow> be32 \<Rightarrow> u8 list \<Rightarrow> 'e srp_state \<Rightarrow> int \<times> 'e srp_state" where
  "srp_response_common V c req_delta rsp s =
     (case srp_get_tx_iu V c SRP_IU_RSP (srp_add_credits c req_delta s) of
        (None, s1) \<Rightarrow> (1, s1)
      | (Some i, s1) \<Rightarrow>
          (case srp_post_send V c i (int (length rsp))
                  (upd_tx c i (\<lambda>iu. iu\<lparr>iu_num_sge := 1, iu_buf := write_bytes 0 rsp (iu_buf iu)\<rparr>) s1) of
             (err, s2) \<Rightarrow> (err, if err \<noteq> 0 then srp_put_tx_iu c i SRP_IU_RSP s2 else s2)))"

definition srp_process_cred_req :: "'e verbs \<Rightarrow> nat \<Rightarrow> srp_cred_req \<Rightarrow> 'e srp_state \<Rightarrow> 'e srp_state" where
  "srp_process_cred_req V c req s =
     snd (srp_response_common V c (creq_req_lim_delta req)
       (enc_cred_rsp \<lparr>crsp_opcode = SRP_CRED_RSP, crsp_tag = creq_tag req\<rparr>) s)"

definition srp_process_aer_req :: "'e verbs \<Rightarrow> nat \<Rightarrow> srp_aer_req \<Rightarrow> 'e srp_state \<Rightarrow> 'e srp_state" where
  "srp_process_aer_req V c req s =
     snd (srp_response_common V c (areq_req_lim_delta req)
       (enc_cred_rsp \<lparr>crsp_opcode = SRP_AER_RSP, crsp_tag = areq_tag req\<rparr>) s)"

definition srp_handle_recv :: "'e verbs \<Rightarrow> nat \<Rightarrow> ib_wc \<Rightarrow> 'e srp_state \<Rightarrow> 'e srp_state" where
  "srp_handle_recv V c wc s =
     (case find_iu (wc_wr_id wc) (ch_rx_ring (chan s c)) of
        None \<Rightarrow> fault Bad_Pointer s
      | Some i \<Rightarrow>
          (let s0 = upd_ch c (\<lambda>ch. ch\<lparr>ch_rx_ring := (ch_rx_ring ch)[i := (ch_rx_ring ch ! i)\<lparr>iu_buf :=
                 write_bytes 0 (wc_data wc) (iu_buf (ch_rx_ring ch ! i))\<rparr>]\<rparr>) s;
               buf = iu_buf (ch_rx_ring (chan s0 c) ! i);
               opcode = buf ! 0;
               s1 = (if opcode = SRP_RSP then srp_process_rsp V c (dec_srp_rsp buf) s0
                     else if opcode = SRP_CRED_REQ then srp_process_cred_req V c (dec_cred_req buf) s0
                     else if opcode = SRP_AER_REQ then srp_process_aer_req V c (dec_aer_req buf) s0
                     else s0)
           in snd (srp_post_recv V c i s1)))"

definition srp_recv_completion :: "'e verbs \<Rightarrow> nat \<Rightarrow> ib_wc list \<Rightarrow> 'e srp_state \<Rightarrow> 'e srp_state" where
  "srp_recv_completion V c wcs s =
     fold (\<lambda>wc s. if wc_success wc then srp_handle_recv V c wc s else srp_handle_qp_err (wc_wr_id wc) c s) wcs s"

section \<open>Queueing a command\<close>

definition SCSI_MLQUEUE_HOST_BUSY :: int where "SCSI_MLQUEUE_HOST_BUSY = 0x1055"
definition QUEUE_FULL :: int where "QUEUE_FULL = 0x14"

definition srp_map_cpu_to_ch :: "nat \<Rightarrow> srp_target_port \<Rightarrow> nat option" where
  "srp_map_cpu_to_ch cpu t =
     (if cpu < length (tgt_mq_map t) \<and> tgt_mq_map t ! cpu < length (tgt_ch t) then Some (tgt_mq_map t ! cpu) else None)"

text \<open>The command as \<^verbatim>\<open>srp_queuecommand()\<close> writes it into the buffer of the information unit.\<close>

definition srp_build_cmd :: "srp_params \<Rightarrow> scsi_cmnd \<Rightarrow> u32 \<Rightarrow> u8 list \<Rightarrow> u8 list" where
  "srp_build_cmd P scmnd tag buf =
     write_bytes 32 (sc_cmnd scmnd)
       (write_bytes 0 (enc_srp_cmd \<lparr>cmd_opcode = SRP_CMD, cmd_buf_fmt = 0, cmd_data_out_desc_cnt = 0,
          cmd_data_in_desc_cnt = 0, cmd_tag = ucast tag, cmd_lun = int_to_scsilun P (sc_lun scmnd),
          cmd_cdb = zeros 16\<rparr>) buf)"

text \<open>The call \<^verbatim>\<open>srp_map_data(scmnd, ch, req)\<close>, where \<open>req\<close> refers to the information unit \<open>j\<close>.\<close>

definition srp_map_req :: "'e verbs \<Rightarrow> nat \<Rightarrow> nat \<Rightarrow> nat \<Rightarrow> nat \<Rightarrow> 'e srp_state \<Rightarrow> int \<times> 'e srp_state" where
  "srp_map_req V c i j m s =
     (let ch = chan s c in
      case srp_map_data V (map_cfg_of s c) m (st_cmds s m) (ch_req_ring ch ! i) (ch_tx_ring ch ! j)
             (ch_fr_pool ch) (st_hw s) of
        None \<Rightarrow> (- EINVAL, fault Bad_Pointer s)
      | Some (len, req, iu, p, h) \<Rightarrow>
          (len, upd_hw h (upd_ch c (\<lambda>ch. ch\<lparr>ch_req_ring := (ch_req_ring ch)[i := req],
             ch_tx_ring := (ch_tx_ring ch)[j := iu], ch_fr_pool := p\<rparr>) s)))"

text \<open>The code at \<^verbatim>\<open>err_iu\<close> up to \<^verbatim>\<open>err_unlock\<close>, and that at \<^verbatim>\<open>err\<close>.\<close>

definition srp_queue_undo :: "nat \<Rightarrow> nat \<Rightarrow> nat \<Rightarrow> 'e srp_state \<Rightarrow> 'e srp_state" where
  "srp_queue_undo c i j s =
     upd_ch c (\<lambda>ch. ch\<lparr>ch_free_reqs := i # ch_free_reqs ch\<rparr>)
       (upd_req c i (\<lambda>r. r\<lparr>req_scmnd := None\<rparr>) (srp_put_tx_iu c j SRP_IU_CMD s))"

definition srp_queue_err :: "nat \<Rightarrow> 'e srp_state \<Rightarrow> int \<times> 'e srp_state" where
  "srp_queue_err m s =
     (if sc_result (st_cmds s m) \<noteq> 0 then (0, scsi_done m s) else (SCSI_MLQUEUE_HOST_BUSY, s))"

text \<open>\<^verbatim>\<open>srp_queuecommand()\<close> from where it takes a request off the free list; \<open>j\<close> is the information unit.\<close>

definition srp_issue_cmd :: "'e verbs \<Rightarrow> nat \<Rightarrow> nat \<Rightarrow> nat \<Rightarrow> 'e srp_state \<Rightarrow> int \<times> 'e srp_state" where
  "srp_issue_cmd V c j m s =
     (case ch_free_reqs (chan s c) of
        [] \<Rightarrow> (0, fault Bad_Pointer s)
      | i # is \<Rightarrow>
          (let tag = req_tag (ch_req_ring (chan s c) ! i);
               s1 = upd_cmd m (\<lambda>x. x\<lparr>sc_scribble := Some (c, i)\<rparr>) (upd_ch c (\<lambda>ch. ch\<lparr>ch_free_reqs := is\<rparr>) s);
               s2 = upd_tx c j (\<lambda>iu. iu\<lparr>iu_buf := srp_build_cmd (st_mod s) (st_cmds s m) tag (iu_buf iu)\<rparr>) s1;
               s3 = upd_req c i (\<lambda>r. r\<lparr>req_scmnd := Some m, req_cmd := Some j\<rparr>) s2
           in case srp_map_req V c i j m s3 of
                (len, s4) \<Rightarrow>
                  if len < 0
                  then srp_queue_err m (srp_queue_undo c i j
                    (upd_cmd m (\<lambda>x. x\<lparr>sc_result :=
                       (if len = - ENOMEM then DID_OK * 2 ^ 16 + QUEUE_FULL * 2 else DID_ERROR * 2 ^ 16)\<rparr>) s4))
                  else (case srp_post_send V c j len s4 of
                      (r, s5) \<Rightarrow> if r \<noteq> 0
                        then srp_queue_err m (srp_queue_undo c i j (srp_unmap_req V c i m s5))
                        else (0, s5))))"

definition srp_queuecommand ::
    "'e verbs \<Rightarrow> nat \<Rightarrow> srp_rport_state \<Rightarrow> bool \<Rightarrow> nat \<Rightarrow> 'e srp_state \<Rightarrow> int \<times> 'e srp_state" where
  "srp_queuecommand V cpu rst blocked m s =
     (let s1 = upd_cmd m (\<lambda>x. x\<lparr>sc_result := srp_chkready rst\<rparr>) s
      in if srp_chkready rst \<noteq> 0 \<or> blocked
         then srp_queue_err m (upd_cmd m (\<lambda>x. x\<lparr>sc_quiet := True\<rparr>) s1)
         else case srp_map_cpu_to_ch cpu (st_target s) of
           None \<Rightarrow> (0, fault Bad_Pointer s1)
         | Some c \<Rightarrow>
             (case srp_get_tx_iu V c SRP_IU_CMD s1 of
                (None, s2) \<Rightarrow> srp_queue_err m s2
              | (Some j, s2) \<Rightarrow> srp_issue_cmd V c j m s2))"

end
