(* ===== verification/SRP_Requests.thy ===== *)
theory SRP_Requests
  imports SRP_Channel
begin

text \<open>
  The ownership of requests and commands: where the requests of a channel are at any moment, which
  commands the driver holds, and what each operation on the data path does to them.
\<close>

section \<open>Reading an updated state\<close>

named_theorems st_simps \<open>members of a state after an update\<close>

lemmas upd_defs = upd_tgt_def upd_ch_def upd_req_def upd_tx_def upd_cmd_def upd_hw_def scsi_done_def

lemma chan_upd_ch [simp, st_simps]:
  "c < nch s \<Longrightarrow> chan (upd_ch c f s) d = (if d = c then f (chan s c) else chan s d)"
  by (simp add: upd_defs)

lemma chan_others [simp, st_simps]:
  "chan (upd_cmd m g s) d = chan s d"
  "chan (upd_hw h s) d = chan s d"
  "chan (scsi_done m s) d = chan s d"
  "chan (fault x s) d = chan s d"
  "(\<And>t. tgt_ch (k t) = tgt_ch t) \<Longrightarrow> chan (upd_tgt k s) d = chan s d"
  by (simp_all add: upd_defs fault_def split: option.splits)

lemma chan_upd_req [simp, st_simps]:
  "c < nch s \<Longrightarrow> chan (upd_req c i f s) d =
     (if d = c then (chan s c)\<lparr>ch_req_ring := (ch_req_ring (chan s c))[i := f (ch_req_ring (chan s c) ! i)]\<rparr> else chan s d)"
  by (simp add: upd_req_def)

lemma chan_upd_tx [simp, st_simps]:
  "c < nch s \<Longrightarrow> chan (upd_tx c i f s) d =
     (if d = c then (chan s c)\<lparr>ch_tx_ring := (ch_tx_ring (chan s c))[i := f (ch_tx_ring (chan s c) ! i)]\<rparr> else chan s d)"
  by (simp add: upd_tx_def)

lemma done_upd [simp, st_simps]:
  "st_done (upd_ch c f s) = st_done s"
  "st_done (upd_req c i f' s) = st_done s"
  "st_done (upd_tx c i f'' s) = st_done s"
  "st_done (upd_cmd m g s) = st_done s"
  "st_done (upd_hw h s) = st_done s"
  "st_done (upd_tgt k s) = st_done s"
  "st_done (fault x s) = st_done s"
  "st_done (scsi_done m s) = st_done s @ [m]"
  by (simp_all add: upd_defs fault_def split: option.splits)

lemma fault_upd [simp, st_simps]:
  "st_fault (upd_ch c f s) = st_fault s"
  "st_fault (upd_req c i f' s) = st_fault s"
  "st_fault (upd_tx c i f'' s) = st_fault s"
  "st_fault (upd_cmd m g s) = st_fault s"
  "st_fault (upd_hw h s) = st_fault s"
  "st_fault (upd_tgt k s) = st_fault s"
  "st_fault (scsi_done m s) = st_fault s"
  "st_fault (fault x s) \<noteq> None"
  by (simp_all add: upd_defs fault_def split: option.splits)

lemma cmds_upd [simp, st_simps]:
  "st_cmds (upd_ch c f s) = st_cmds s"
  "st_cmds (upd_req c i f' s) = st_cmds s"
  "st_cmds (upd_tx c i f'' s) = st_cmds s"
  "st_cmds (upd_cmd m g s) = (st_cmds s)(m := g (st_cmds s m))"
  "st_cmds (upd_hw h s) = st_cmds s"
  "st_cmds (upd_tgt k s) = st_cmds s"
  "st_cmds (scsi_done m s) = st_cmds s"
  "st_cmds (fault x s) = st_cmds s"
  by (simp_all add: upd_defs fault_def split: option.splits)

lemma hw_upd [simp, st_simps]:
  "st_hw (upd_ch c f s) = st_hw s"
  "st_hw (upd_req c i f' s) = st_hw s"
  "st_hw (upd_tx c i f'' s) = st_hw s"
  "st_hw (upd_cmd m g s) = st_hw s"
  "st_hw (upd_hw h s) = h"
  "st_hw (upd_tgt k s) = st_hw s"
  "st_hw (scsi_done m s) = st_hw s"
  "st_hw (fault x s) = st_hw s"
  by (simp_all add: upd_defs fault_def split: option.splits)

text \<open>What no operation on a running channel changes.\<close>

definition static :: "'e srp_state \<Rightarrow> srp_device \<times> srp_params \<times> be64 \<times> nat \<times> srp_target_port" where
  "static s = (st_dev s, st_mod s, st_node_guid s, nch s,
     (st_target s)\<lparr>tgt_ch := [], tgt_zero_req_lim := 0, tgt_tl_err_work := False, tgt_qp_in_error := False,
       tgt_can_queue := 0, tgt_cmd_per_lun := 0, tgt_rq_tmo_jiffies := 0\<rparr>)"

lemma static_upd [simp]:
  "static (upd_ch c f s) = static s"
  "static (upd_req c i f' s) = static s"
  "static (upd_tx c i f'' s) = static s"
  "static (upd_cmd m g s) = static s"
  "static (upd_hw h s) = static s"
  "static (scsi_done m s) = static s"
  "static (fault x s) = static s"
  "static (upd_tgt (\<lambda>t. t\<lparr>tgt_tl_err_work := b\<rparr>) s) = static s"
  "static (upd_tgt (\<lambda>t. t\<lparr>tgt_qp_in_error := b\<rparr>) s) = static s"
  "static (upd_tgt (\<lambda>t. t\<lparr>tgt_zero_req_lim := z t\<rparr>) s) = static s"
  "static (upd_tgt (\<lambda>t. if b then t\<lparr>tgt_tl_err_work := True\<rparr> else t) s) = static s"
  "static (upd_tgt (\<lambda>t. t\<lparr>tgt_can_queue := q t, tgt_cmd_per_lun := q' t\<rparr>) s) = static s"
  "static (upd_tgt (\<lambda>t. t\<lparr>tgt_rq_tmo_jiffies := u\<rparr>) s) = static s"
  by (simp_all add: static_def upd_defs fault_def split: option.splits)

lemma staticD:
  assumes "static s' = static s"
  shows "st_dev s' = st_dev s" "st_mod s' = st_mod s" "nch s' = nch s"
    "tgt_ch_count (st_target s') = tgt_ch_count (st_target s)"
    "tgt_req_ring_size (st_target s') = tgt_req_ring_size (st_target s)"
    "tgt_queue_size (st_target s') = tgt_queue_size (st_target s)"
    "tgt_mq_map (st_target s') = tgt_mq_map (st_target s)"
    "tgt_state (st_target s') = tgt_state (st_target s)"
proof -
  have t: "(st_target s')\<lparr>tgt_ch := [], tgt_zero_req_lim := 0, tgt_tl_err_work := False, tgt_qp_in_error := False,
       tgt_can_queue := 0, tgt_cmd_per_lun := 0, tgt_rq_tmo_jiffies := 0\<rparr> =
      (st_target s)\<lparr>tgt_ch := [], tgt_zero_req_lim := 0, tgt_tl_err_work := False, tgt_qp_in_error := False,
       tgt_can_queue := 0, tgt_cmd_per_lun := 0, tgt_rq_tmo_jiffies := 0\<rparr>"
    using assms by (simp add: static_def)
  show "st_dev s' = st_dev s" "st_mod s' = st_mod s" "nch s' = nch s"
    using assms by (simp_all add: static_def)
  show "tgt_ch_count (st_target s') = tgt_ch_count (st_target s)"
    using arg_cong [OF t, of tgt_ch_count] by simp
  show "tgt_req_ring_size (st_target s') = tgt_req_ring_size (st_target s)"
    using arg_cong [OF t, of tgt_req_ring_size] by simp
  show "tgt_queue_size (st_target s') = tgt_queue_size (st_target s)"
    using arg_cong [OF t, of tgt_queue_size] by simp
  show "tgt_mq_map (st_target s') = tgt_mq_map (st_target s)"
    using arg_cong [OF t, of tgt_mq_map] by simp
  show "tgt_state (st_target s') = tgt_state (st_target s)"
    using arg_cong [OF t, of tgt_state] by simp
qed

lemma nch_upd [simp, st_simps]:
  "nch (upd_ch c f s) = nch s"
  "nch (upd_req c i f' s) = nch s"
  "nch (upd_tx c i f'' s) = nch s"
  "nch (upd_cmd m g s) = nch s"
  "nch (upd_hw h s) = nch s"
  "nch (scsi_done m s) = nch s"
  "nch (fault x s) = nch s"
  "(\<And>t. tgt_ch (k t) = tgt_ch t) \<Longrightarrow> nch (upd_tgt k s) = nch s"
  by (simp_all add: upd_defs fault_def split: option.splits)

section \<open>Commands in the driver\<close>

text \<open>The commands a channel holds, those the driver holds, and the commands that have been handed to
  the driver at all: each is either still held or has been completed.\<close>

definition ch_cmds :: "srp_rdma_ch \<Rightarrow> nat multiset" where
  "ch_cmds ch = mset (List.map_filter req_scmnd (ch_req_ring ch))"

definition outstanding :: "'e srp_state \<Rightarrow> nat multiset" where
  "outstanding s = sum_list (map ch_cmds (tgt_ch (st_target s)))"

definition opt_mset :: "'a option \<Rightarrow> 'a multiset" where
  "opt_mset x = (case x of None \<Rightarrow> {#} | Some y \<Rightarrow> {#y#})"

lemma opt_mset_simps [simp]: "opt_mset None = {#}" "opt_mset (Some y) = {#y#}"
  by (simp_all add: opt_mset_def)

lemma map_filter_update:
  "i < length xs \<Longrightarrow>
   mset (List.map_filter f (xs[i := y])) + opt_mset (f (xs ! i)) = mset (List.map_filter f xs) + opt_mset (f y)"
proof (induction xs arbitrary: i)
  case (Cons x xs)
  show ?case
  proof (cases i)
    case 0
    then show ?thesis by (simp add: opt_mset_def split: option.splits)
  next
    case (Suc j)
    then have "mset (List.map_filter f (xs[j := y])) + opt_mset (f (xs ! j)) = mset (List.map_filter f xs) + opt_mset (f y)"
      using Cons by simp
    then show ?thesis using Suc by (auto split: option.splits)
  qed
qed simp

lemma mset_exchange:
  fixes X :: "'a multiset"
  assumes "C' + a = C + b" and "X + C = S + C'"
  shows "X + a = S + b"
proof (rule multiset_eqI)
  fix x
  show "count (X + a) x = count (S + b) x"
    using arg_cong [OF assms(1), of "\<lambda>m. count m x"] arg_cong [OF assms(2), of "\<lambda>m. count m x"] by simp
qed

lemma outstanding_upd_ch:
  "c < nch s \<Longrightarrow> outstanding (upd_ch c f s) + ch_cmds (chan s c) = outstanding s + ch_cmds (f (chan s c))"
  unfolding outstanding_def by (simp add: upd_defs sum_list_update_mset)

lemma outstanding_upd_ch_same [simp]:
  "ch_req_ring (f (chan s c)) = ch_req_ring (chan s c) \<Longrightarrow> outstanding (upd_ch c f s) = outstanding s"
proof (cases "c < nch s")
  case True
  assume "ch_req_ring (f (chan s c)) = ch_req_ring (chan s c)"
  then have "ch_cmds (f (chan s c)) = ch_cmds (chan s c)" by (simp add: ch_cmds_def)
  then show ?thesis using outstanding_upd_ch [OF True, of f] by simp
next
  case False
  then show ?thesis by (simp add: outstanding_def upd_defs list_update_beyond)
qed

lemma outstanding_others [simp]:
  "outstanding (upd_cmd m g s) = outstanding s"
  "outstanding (upd_hw h s) = outstanding s"
  "outstanding (scsi_done m s) = outstanding s"
  "outstanding (fault x s) = outstanding s"
  "outstanding (upd_tx c i f s) = outstanding s"
  "(\<And>t. tgt_ch (k t) = tgt_ch t) \<Longrightarrow> outstanding (upd_tgt k s) = outstanding s"
  by (simp_all add: outstanding_def upd_cmd_def upd_hw_def scsi_done_def fault_def upd_tgt_def split: option.splits)
     (simp add: upd_tx_def flip: outstanding_def)

lemma outstanding_upd_req:
  assumes "c < nch s" and "i < length (ch_req_ring (chan s c))"
  shows "outstanding (upd_req c i f s) + opt_mset (req_scmnd (ch_req_ring (chan s c) ! i)) =
    outstanding s + opt_mset (req_scmnd (f (ch_req_ring (chan s c) ! i)))"
proof -
  let ?ch = "chan s c"
  let ?ch' = "?ch\<lparr>ch_req_ring := (ch_req_ring ?ch)[i := f (ch_req_ring ?ch ! i)]\<rparr>"
  have "ch_cmds ?ch' + opt_mset (req_scmnd (ch_req_ring ?ch ! i)) =
      ch_cmds ?ch + opt_mset (req_scmnd (f (ch_req_ring ?ch ! i)))"
    using map_filter_update [OF assms(2), of req_scmnd] by (simp add: ch_cmds_def)
  moreover have "outstanding (upd_req c i f s) + ch_cmds ?ch = outstanding s + ch_cmds ?ch'"
    unfolding upd_req_def by (rule outstanding_upd_ch [OF assms(1)])
  ultimately show ?thesis by (rule mset_exchange)
qed

section \<open>The request ring\<close>

definition owned :: "srp_rdma_ch \<Rightarrow> nat set" where
  "owned ch = {i. i < length (ch_req_ring ch) \<and> req_scmnd (ch_req_ring ch ! i) \<noteq> None}"

text \<open>Every request of a channel is in exactly one of three places: on the free list, in use for a command, or
  claimed (\<open>K\<close>) by somebody who is about to free it. Its tag is made of its channel and its index.\<close>

definition reqs_ok :: "nat \<Rightarrow> nat \<Rightarrow> nat set \<Rightarrow> srp_rdma_ch \<Rightarrow> bool" where
  "reqs_ok n c K ch \<longleftrightarrow> length (ch_req_ring ch) = n \<and> distinct (ch_free_reqs ch) \<and>
     set (ch_free_reqs ch) \<union> owned ch \<union> K = {..<n} \<and>
     set (ch_free_reqs ch) \<inter> owned ch = {} \<and> set (ch_free_reqs ch) \<inter> K = {} \<and> owned ch \<inter> K = {} \<and>
     (\<forall>i < n. req_tag (ch_req_ring ch ! i) = build_srp_tag (of_nat c) (of_nat i))"

definition ring_size :: "'e srp_state \<Rightarrow> nat" where
  "ring_size s = nat (tgt_req_ring_size (st_target s))"

definition reqs_inv :: "(nat \<Rightarrow> nat set) \<Rightarrow> 'e srp_state \<Rightarrow> bool" where
  "reqs_inv K s \<longleftrightarrow> (\<forall>c < nch s. reqs_ok (ring_size s) c (K c) (chan s c))"

abbreviation no_claims :: "nat \<Rightarrow> nat set" where
  "no_claims \<equiv> \<lambda>c. {}"

lemma ring_size_static:
  assumes "static s' = static s"
  shows "ring_size s' = ring_size s"
  unfolding ring_size_def staticD(5) [OF assms] ..

lemma ring_size_upd [simp]:
  "ring_size (upd_ch c f s) = ring_size s"
  "ring_size (upd_req c i f' s) = ring_size s"
  "ring_size (upd_tx c i f'' s) = ring_size s"
  "ring_size (upd_cmd m g s) = ring_size s"
  "ring_size (upd_hw h s) = ring_size s"
  "ring_size (scsi_done m s) = ring_size s"
  "ring_size (fault x s) = ring_size s"
  by (intro ring_size_static static_upd)+

lemma reqs_inv_others [simp]:
  "reqs_inv K (upd_cmd m g s) = reqs_inv K s"
  "reqs_inv K (upd_hw h s) = reqs_inv K s"
  "reqs_inv K (scsi_done m s) = reqs_inv K s"
  "reqs_inv K (fault x s) = reqs_inv K s"
  by (simp_all add: reqs_inv_def)

lemma reqs_inv_upd_tgt [simp]:
  "\<lbrakk>\<And>t. tgt_ch (k t) = tgt_ch t; \<And>t. tgt_req_ring_size (k t) = tgt_req_ring_size t\<rbrakk> \<Longrightarrow>
   reqs_inv K (upd_tgt k s) = reqs_inv K s"
  by (simp add: reqs_inv_def ring_size_def) (simp add: upd_tgt_def)

lemma reqs_inv_upd_ch:
  assumes "reqs_inv K s" and "c < nch s \<Longrightarrow> reqs_ok (ring_size s) c (K' c) (f (chan s c))"
    and "\<And>d. d \<noteq> c \<Longrightarrow> K' d = K d"
  shows "reqs_inv K' (upd_ch c f s)"
proof (cases "c < nch s")
  case True
  then show ?thesis using assms by (simp add: reqs_inv_def)
next
  case False
  then have "upd_ch c f s = s" by (simp add: upd_defs list_update_beyond)
  then show ?thesis using assms False by (auto simp: reqs_inv_def)
qed

lemma reqs_inv_upd_ch_same [simp]:
  assumes "ch_req_ring (f (chan s c)) = ch_req_ring (chan s c)" "ch_free_reqs (f (chan s c)) = ch_free_reqs (chan s c)"
  shows "reqs_inv K s \<Longrightarrow> reqs_inv K (upd_ch c f s)"
proof (rule reqs_inv_upd_ch)
  assume i: "reqs_inv K s" "c < nch s"
  moreover have "owned (f (chan s c)) = owned (chan s c)" using assms by (simp add: owned_def)
  ultimately show "reqs_ok (ring_size s) c (K c) (f (chan s c))"
    using assms by (auto simp: reqs_inv_def reqs_ok_def)
qed auto

lemma reqs_inv_upd_tx [simp]: "reqs_inv K s \<Longrightarrow> reqs_inv K (upd_tx c i f s)"
  by (simp add: upd_tx_def)

lemma owned_update:
  "i < length (ch_req_ring ch) \<Longrightarrow>
   owned (ch\<lparr>ch_req_ring := (ch_req_ring ch)[i := r]\<rparr>) =
     (if req_scmnd r = None then owned ch - {i} else insert i (owned ch))"
  by (auto simp: owned_def nth_list_update)

lemma owned_upd_ch [simp]:
  "ch_req_ring (f (chan s c)) = ch_req_ring (chan s c) \<Longrightarrow> owned (chan (upd_ch c f s) d) = owned (chan s d)"
  by (cases "c < nch s") (simp_all add: owned_def, simp add: upd_defs list_update_beyond)

lemma owned_upd_tx [simp]: "owned (chan (upd_tx c i f s) d) = owned (chan s d)"
  by (simp add: upd_tx_def)

lemma owned_unclaim:
  "owned (chan (upd_req c i (\<lambda>r. r\<lparr>req_scmnd := None\<rparr>) s) d) \<subseteq> owned (chan s d)"
proof (cases "c < nch s")
  case True
  have "req_scmnd (ch_req_ring (chan s c) ! x) \<noteq> None"
    if "req_scmnd ((ch_req_ring (chan s c))[i := (ch_req_ring (chan s c) ! i)\<lparr>req_scmnd := None\<rparr>] ! x) \<noteq> None" for x
    using that by (cases "x = i \<and> i < length (ch_req_ring (chan s c))") (auto simp: nth_list_update list_update_beyond)
  with True show ?thesis by (auto simp: owned_def)
qed (simp add: upd_defs list_update_beyond)

subsection \<open>Claiming and freeing\<close>

lemma claim_req:
  assumes "reqs_inv K s" and "c < nch s"
  obtains (none) s' where "srp_claim_req c i sdev scmnd s = (None, s')" "s' = s \<or> s' = fault Bad_Pointer s"
      "i < ring_size s \<Longrightarrow> s' = s"
      "i < ring_size s \<Longrightarrow> sdev = None \<Longrightarrow> scmnd = None \<Longrightarrow> req_scmnd (ch_req_ring (chan s c) ! i) = None"
  | (claimed) m where
      "srp_claim_req c i sdev scmnd s = (Some m, upd_req c i (\<lambda>r. r\<lparr>req_scmnd := None\<rparr>) s)"
      "i < ring_size s" "req_scmnd (ch_req_ring (chan s c) ! i) = Some m"
      "scmnd = None \<or> scmnd = Some m" "sdev = None \<or> sdev = Some (sc_device (st_cmds s m))"
      "reqs_inv (K(c := insert i (K c))) (upd_req c i (\<lambda>r. r\<lparr>req_scmnd := None\<rparr>) s)"
      "outstanding s = add_mset m (outstanding (upd_req c i (\<lambda>r. r\<lparr>req_scmnd := None\<rparr>) s))"
proof -
  let ?ch = "chan s c" and ?s = "upd_req c i (\<lambda>r. r\<lparr>req_scmnd := None\<rparr>) s"
  have ok: "reqs_ok (ring_size s) c (K c) ?ch" using assms by (simp add: reqs_inv_def)
  then have len: "length (ch_req_ring ?ch) = ring_size s" by (simp add: reqs_ok_def)
  show thesis
  proof (cases "\<exists>m. srp_claim_req c i sdev scmnd s = (Some m, ?s)")
    case False
    then show thesis
      by (intro none [of "if i < ring_size s then s else fault Bad_Pointer s"])
         (auto simp: srp_claim_req_def len split: option.splits if_splits)
  next
    case True
    then obtain m where cl: "srp_claim_req c i sdev scmnd s = (Some m, ?s)" by blast
    then have i: "i < ring_size s" and m: "req_scmnd (ch_req_ring ?ch ! i) = Some m"
      and who: "scmnd = None \<or> scmnd = Some m" "sdev = None \<or> sdev = Some (sc_device (st_cmds s m))"
      by (auto simp: srp_claim_req_def len split: option.splits if_splits)
    have o: "i \<in> owned ?ch" using i m len by (simp add: owned_def)
    have "reqs_inv (K(c := insert i (K c))) ?s"
      unfolding upd_req_def
    proof (rule reqs_inv_upd_ch [OF assms(1)])
      have ow: "owned (?ch\<lparr>ch_req_ring := (ch_req_ring ?ch)[i := (ch_req_ring ?ch ! i)\<lparr>req_scmnd := None\<rparr>]\<rparr>) = owned ?ch - {i}"
        using i len by (simp add: owned_update)
      show "reqs_ok (ring_size s) c ((K(c := insert i (K c))) c)
          (?ch\<lparr>ch_req_ring := (ch_req_ring ?ch)[i := (ch_req_ring ?ch ! i)\<lparr>req_scmnd := None\<rparr>]\<rparr>)"
        using ok o i unfolding reqs_ok_def ow by (auto simp: nth_list_update)
    qed simp
    moreover have "outstanding s = add_mset m (outstanding ?s)"
      using outstanding_upd_req [OF assms(2), of i "\<lambda>r. r\<lparr>req_scmnd := None\<rparr>"] i m len by simp
    ultimately show thesis using claimed cl i m who by blast
  qed
qed

lemma unmap_req_frame [simp]:
  "st_done (srp_unmap_req V c i m s) = st_done s"
  "st_cmds (srp_unmap_req V c i m s) = st_cmds s"
  "st_fault (srp_unmap_req V c i m s) = st_fault s"
  "static (srp_unmap_req V c i m s) = static s"
  "outstanding (srp_unmap_req V c i m s) = outstanding s"
  "reqs_inv K s \<Longrightarrow> reqs_inv K (srp_unmap_req V c i m s)"
  by (simp_all add: srp_unmap_req_def Let_def split: prod.split)

lemma free_req_frame [simp]:
  "st_done (srp_free_req V c i m d s) = st_done s"
  "st_cmds (srp_free_req V c i m d s) = st_cmds s"
  "st_fault (srp_free_req V c i m d s) = st_fault s"
  "static (srp_free_req V c i m d s) = static s"
  "outstanding (srp_free_req V c i m d s) = outstanding s"
  by (simp_all add: srp_free_req_def)

lemma owned_unmap_req [simp]: "owned (chan (srp_unmap_req V c i m s) d) = owned (chan s d)"
  by (simp add: srp_unmap_req_def Let_def split: prod.split)

lemma owned_free_req [simp]: "owned (chan (srp_free_req V c i m x s) d) = owned (chan s d)"
  by (simp add: srp_free_req_def)

lemma chan_unmap_req:
  "c < nch s \<Longrightarrow> \<exists>p. chan (srp_unmap_req V c i m s) d = (if d = c then (chan s c)\<lparr>ch_fr_pool := p\<rparr> else chan s d)"
  by (auto simp: srp_unmap_req_def Let_def split: prod.split)

lemma free_req_inv:
  assumes "reqs_inv K s" and "c < nch s" and "i \<in> K c"
  shows "reqs_inv (K(c := K c - {i})) (srp_free_req V c i m d s)"
  unfolding srp_free_req_def
proof (rule reqs_inv_upd_ch)
  let ?s = "srp_unmap_req V c i m s"
  show "reqs_inv K ?s" using assms(1) by simp
  then have ok: "reqs_ok (ring_size ?s) c (K c) (chan ?s c)"
    using assms(2) staticD(3) [OF unmap_req_frame(4), of V c i m s] by (simp add: reqs_inv_def)
  let ?ch = "(chan ?s c)\<lparr>ch_req_lim := s32 (ch_req_lim (chan ?s c) + d), ch_free_reqs := ch_free_reqs (chan ?s c) @ [i]\<rparr>"
  have "owned ?ch = owned (chan ?s c)" by (simp add: owned_def)
  with ok assms(3) show "reqs_ok (ring_size ?s) c ((K(c := K c - {i})) c) ?ch"
    by (auto simp: reqs_ok_def)
qed simp

section \<open>Operations that only complete commands\<close>

text \<open>\<open>settled s s'\<close>: on the way from \<open>s\<close> to \<open>s'\<close> some commands have been completed, each of them was held
  before and is not held any more, and nothing else happened to the requests.\<close>

definition settled :: "'e srp_state \<Rightarrow> 'e srp_state \<Rightarrow> bool" where
  "settled s s' \<longleftrightarrow> static s' = static s \<and> (st_fault s \<noteq> None \<longrightarrow> st_fault s' \<noteq> None) \<and>
     (\<forall>K. reqs_inv K s \<longrightarrow> reqs_inv K s' \<and>
       (\<forall>d < nch s. owned (chan s' d) \<subseteq> owned (chan s d)) \<and>
       (\<exists>ds. st_done s' = st_done s @ ds \<and> outstanding s = outstanding s' + mset ds))"

named_theorems settles \<open>operations that only complete commands\<close>

lemma settled_refl [simp]: "settled s s"
  by (auto simp: settled_def)

lemma settledI:
  assumes "static s' = static s" "st_fault s \<noteq> None \<Longrightarrow> st_fault s' \<noteq> None"
    "\<And>K. reqs_inv K s \<Longrightarrow> reqs_inv K s' \<and> (\<forall>d < nch s. owned (chan s' d) \<subseteq> owned (chan s d)) \<and>
      (\<exists>ds. st_done s' = st_done s @ ds \<and> outstanding s = outstanding s' + mset ds)"
  shows "settled s s'"
  using assms unfolding settled_def by blast

lemma settledD:
  assumes "settled s s'" "reqs_inv K s"
  obtains ds where "reqs_inv K s'" "st_done s' = st_done s @ ds" "outstanding s = outstanding s' + mset ds"
    "\<forall>d < nch s. owned (chan s' d) \<subseteq> owned (chan s d)"
  using assms unfolding settled_def by blast

lemma settled_static: "settled s s' \<Longrightarrow> static s' = static s"
  by (simp add: settled_def)

lemma settled_nch: "settled s s' \<Longrightarrow> nch s' = nch s"
  by (rule staticD(3) [OF settled_static])

lemma settled_fault: "settled s s' \<Longrightarrow> st_fault s \<noteq> None \<Longrightarrow> st_fault s' \<noteq> None"
  by (simp add: settled_def)

lemma settled_trans:
  assumes "settled r s" "settled s t"
  shows "settled r t"
proof (rule settledI)
  show "static t = static r" using assms by (simp add: settled_def)
  show "st_fault t \<noteq> None" if "st_fault r \<noteq> None" using settled_fault [OF assms(2) settled_fault [OF assms(1) that]] .
  fix K assume "reqs_inv K r"
  from assms(1) this obtain ds where s: "reqs_inv K s" "st_done s = st_done r @ ds" "outstanding r = outstanding s + mset ds"
    "\<forall>d < nch r. owned (chan s d) \<subseteq> owned (chan r d)" by (rule settledD)
  from assms(2) s(1) obtain es where t: "reqs_inv K t" "st_done t = st_done s @ es" "outstanding s = outstanding t + mset es"
    "\<forall>d < nch s. owned (chan t d) \<subseteq> owned (chan s d)" by (rule settledD)
  have "\<forall>d < nch r. owned (chan t d) \<subseteq> owned (chan r d)"
    using s(4) t(4) settled_nch [OF assms(1)] by (metis subset_trans)
  then show "reqs_inv K t \<and> (\<forall>d < nch r. owned (chan t d) \<subseteq> owned (chan r d)) \<and> (\<exists>ds. st_done t = st_done r @ ds \<and> outstanding r = outstanding t + mset ds)"
    using s t by (intro conjI exI [of _ "ds @ es"]) (simp_all add: ac_simps)
qed

lemma settled_frame:
  assumes "static t = static s" "st_done t = st_done s" "outstanding t = outstanding s"
    "st_fault s \<noteq> None \<Longrightarrow> st_fault t \<noteq> None" "\<And>K. reqs_inv K s \<Longrightarrow> reqs_inv K t"
    "\<And>d. owned (chan t d) = owned (chan s d)"
  shows "settled s t"
  using assms by (intro settledI) auto

lemma settled_upd [settles]:
  "settled r s \<Longrightarrow> settled r (upd_cmd m g s)"
  "settled r s \<Longrightarrow> settled r (upd_hw h s)"
  "settled r s \<Longrightarrow> settled r (fault x s)"
  "settled r s \<Longrightarrow> settled r (upd_tx c i f s)"
  "settled r s \<Longrightarrow> settled r (upd_tgt (\<lambda>t. t\<lparr>tgt_tl_err_work := b\<rparr>) s)"
  "settled r s \<Longrightarrow> settled r (upd_tgt (\<lambda>t. t\<lparr>tgt_qp_in_error := b\<rparr>) s)"
  "settled r s \<Longrightarrow> settled r (upd_tgt (\<lambda>t. t\<lparr>tgt_zero_req_lim := z t\<rparr>) s)"
  "settled r s \<Longrightarrow> settled r (upd_tgt (\<lambda>t. t\<lparr>tgt_can_queue := q t, tgt_cmd_per_lun := q' t\<rparr>) s)"
  "settled r s \<Longrightarrow> settled r (upd_tgt (\<lambda>t. t\<lparr>tgt_rq_tmo_jiffies := u\<rparr>) s)"
  by (erule settled_trans, rule settled_frame; simp)+

lemma settled_upd_ch [settles]:
  assumes "settled r s" "ch_req_ring (f (chan s c)) = ch_req_ring (chan s c)"
    "ch_free_reqs (f (chan s c)) = ch_free_reqs (chan s c)"
  shows "settled r (upd_ch c f s)"
  using assms(1) by (rule settled_trans) (rule settled_frame; simp add: assms)

lemma settled_fold [settles]:
  assumes "\<And>x s. x \<in> set xs \<Longrightarrow> settled s (f x s)" and "settled r s"
  shows "settled r (fold f xs s)"
  using assms
proof (induction xs arbitrary: s)
  case (Cons x xs)
  then have "settled r (f x s)" by (meson list.set_intros(1) settled_trans)
  then show ?case using Cons by simp
qed simp

text \<open>Claim a request, do something else, free it and call \<^verbatim>\<open>scsi_done()\<close>: the way every command is completed.\<close>

lemma claim_and_finish:
  assumes claim: "srp_claim_req c i sdev scmnd s = (Some m, s1)" and c: "c < nch s"
    and step: "settled s1 s2"
  shows "settled s (scsi_done m (srp_free_req V c i m d s2))"
proof -
  have st1: "static s1 = static s" and f1: "st_fault s1 = st_fault s" and d1: "st_done s1 = st_done s"
    using claim by (auto simp: srp_claim_req_def split: if_splits option.splits)
  have "reqs_inv K (srp_free_req V c i m d s2) \<and> (\<forall>d < nch s. owned (chan s2 d) \<subseteq> owned (chan s d)) \<and>
      (\<exists>ds. st_done s2 @ [m] = st_done s @ ds \<and> outstanding s = outstanding s2 + mset ds)"
    if inv: "reqs_inv K s" for K
    using inv c
  proof (cases rule: claim_req [where i = i and sdev = sdev and scmnd = scmnd])
    case (none s')
    then show ?thesis using claim by simp
  next
    case (claimed m')
    then have s1: "s1 = upd_req c i (\<lambda>r. r\<lparr>req_scmnd := None\<rparr>) s" "m' = m" using claim by simp_all
    have i: "i \<notin> K c"
    proof -
      have "reqs_ok (ring_size s) c (K c) (chan s c)" using inv c by (simp add: reqs_inv_def)
      moreover have "i \<in> owned (chan s c)" using claimed(2,3) calculation by (simp add: owned_def reqs_ok_def)
      ultimately show ?thesis by (auto simp: reqs_ok_def)
    qed
    have "reqs_inv (K(c := insert i (K c))) s1" using claimed(6) s1 by simp
    with step obtain ds where s2: "reqs_inv (K(c := insert i (K c))) s2"
      "st_done s2 = st_done s1 @ ds" "outstanding s1 = outstanding s2 + mset ds"
      "\<forall>d < nch s1. owned (chan s2 d) \<subseteq> owned (chan s1 d)" by (rule settledD)
    have "\<forall>d < nch s. owned (chan s2 d) \<subseteq> owned (chan s d)"
      using s2(4) owned_unclaim [of c i s] s1(1) staticD(3) [OF st1] by (metis subset_trans)
    moreover have "c < nch s2" using settled_nch [OF step] staticD(3) [OF st1] c by simp
    from free_req_inv [OF s2(1) this, of i V m d] have "reqs_inv K (srp_free_req V c i m d s2)"
      using i by (simp add: fun_upd_idem)
    ultimately show ?thesis using s2 claimed(7) s1 d1 by (intro conjI exI [of _ "ds @ [m]"]) simp_all
  qed
  then show ?thesis
    using settled_static [OF step] st1 f1 settled_fault [OF step] by (intro settledI) simp_all
qed

lemma settled_finish_req [settles]:
  assumes "c < nch s"
  shows "settled s (srp_finish_req V c sdev result i s)"
proof (cases "srp_claim_req c i sdev None s")
  case (Pair r s1)
  show ?thesis
  proof (cases r)
    case None
    then have "s1 = s \<or> s1 = fault Bad_Pointer s"
      using Pair by (auto simp: srp_claim_req_def split: if_splits option.splits)
    then show ?thesis using Pair None by (auto simp: srp_finish_req_def intro: settles)
  next
    case (Some m)
    let ?g = "\<lambda>x. x\<lparr>sc_quiet := True, sc_result := result\<rparr>"
    have "settled s (scsi_done m (srp_free_req V c i m 0 s1))"
      using claim_and_finish [OF Pair [unfolded Some] assms settled_refl] .
    then have "settled s (upd_cmd m ?g (scsi_done m (srp_free_req V c i m 0 s1)))" by (rule settles)
    moreover have "upd_cmd m ?g (scsi_done m t) = scsi_done m (upd_cmd m ?g t)" for t :: "'a srp_state"
      by (simp add: upd_cmd_def scsi_done_def)
    ultimately show ?thesis using Pair Some by (simp add: srp_finish_req_def)
  qed
qed

lemma settled_finish_fold:
  "c < nch s \<Longrightarrow> settled s (fold (srp_finish_req V c sdev result) is s)"
proof (induction "is" arbitrary: s)
  case (Cons i "is")
  have f: "settled s (srp_finish_req V c sdev result i s)" by (rule settled_finish_req [OF Cons.prems])
  have "settled (srp_finish_req V c sdev result i s) (fold (srp_finish_req V c sdev result) is (srp_finish_req V c sdev result i s))"
    by (rule Cons.IH) (simp add: settled_nch [OF f] Cons.prems)
  then show ?case using settled_trans [OF f] by simp
qed simp

lemma settled_finish_reqs [settles]:
  "c < nch s \<Longrightarrow> settled s (srp_finish_reqs V sdev result c s)"
  by (simp add: srp_finish_reqs_def settled_finish_fold)

lemma settled_fold_ch:
  assumes "\<And>c s. c < nch s \<Longrightarrow> settled s (f c s)" and "\<And>c. c \<in> set cs \<Longrightarrow> c < nch s"
  shows "settled s (fold f cs s)"
  using assms(2)
proof (induction cs arbitrary: s)
  case (Cons c cs)
  have f: "settled s (f c s)" by (rule assms(1)) (simp add: Cons.prems)
  have "settled (f c s) (fold f cs (f c s))"
    by (rule Cons.IH) (simp add: settled_nch [OF f] Cons.prems)
  then show ?case using settled_trans [OF f] by simp
qed simp

lemma settled_terminate_io:
  "tgt_ch_count (st_target s) \<le> nch s \<Longrightarrow> settled s (srp_terminate_io V s)"
  unfolding srp_terminate_io_def by (rule settled_fold_ch) (auto intro: settled_finish_reqs)

lemma settled_handle_qp_err [settles]: "settled r s \<Longrightarrow> settled r (srp_handle_qp_err w c s)"
  by (auto simp: srp_handle_qp_err_def intro!: settles)

lemma settled_handle_send [settles]: "settled r s \<Longrightarrow> settled r (srp_handle_send c wc s)"
  by (auto simp: srp_handle_send_def intro!: settles split: option.split)

lemma settled_send_completion [settles]: "settled r s \<Longrightarrow> settled r (srp_send_completion V c s)"
  by (auto simp: srp_send_completion_def intro!: settles split: option.split prod.split)

lemma settled_put_tx_iu [settles]: "settled r s \<Longrightarrow> settled r (srp_put_tx_iu c i ty s)"
  by (auto simp: srp_put_tx_iu_def intro!: settles)

lemma settled_get_tx_iu [settles]: "settled r s \<Longrightarrow> settled r (snd (srp_get_tx_iu V c ty s))"
  by (auto simp: srp_get_tx_iu_def Let_def intro!: settles split: list.split)

lemma settled_post_send [settles]: "settled r s \<Longrightarrow> settled r (snd (srp_post_send V c i len s))"
  by (auto simp: srp_post_send_def Let_def intro!: settles split: option.split prod.split)

lemma settled_post_recv [settles]: "settled r s \<Longrightarrow> settled r (snd (srp_post_recv V c i s))"
  by (auto simp: srp_post_recv_def Let_def intro!: settles split: option.split prod.split)

lemma settled_add_credits [settles]: "settled r s \<Longrightarrow> settled r (srp_add_credits c d s)"
  by (auto simp: srp_add_credits_def intro!: settles)

lemma settled_copy_sense [settles]: "settled r s \<Longrightarrow> settled r (srp_copy_sense m rsp s)"
  by (auto simp: srp_copy_sense_def Let_def intro!: settles)

lemma settled_claim_none:
  "srp_claim_req c i sdev scmnd s = (None, s1) \<Longrightarrow> settled s s1"
  by (auto simp: srp_claim_req_def intro: settles split: if_splits option.splits)

lemma settled_process_rsp [settles]:
  assumes "c < nch s"
  shows "settled s (srp_process_rsp V c rsp s)"
proof (cases "rsp_tag rsp AND ucast SRP_TAG_TSK_MGMT \<noteq> 0")
  case True
  then show ?thesis by (auto simp: srp_process_rsp_def Let_def intro!: settles)
next
  case False
  let ?i = "unat (srp_tag_idx (ucast (rsp_tag rsp)))"
  obtain r s1 where cl: "(if int ?i < tgt_req_ring_size (st_target s) then srp_claim_req c ?i None None s else (None, s)) = (r, s1)"
    by (meson surj_pair)
  show ?thesis
  proof (cases r)
    case None
    then have "settled s s1" using cl settled_claim_none by (auto split: if_splits)
    then show ?thesis unfolding srp_process_rsp_def Let_def cl None using False by (simp add: settles)
  next
    case (Some m)
    then have c1: "srp_claim_req c ?i None None s = (Some m, s1)" using cl by (auto split: if_splits)
    let ?s2 = "upd_cmd m (\<lambda>x. x\<lparr>sc_result := uint (rsp_status rsp)\<rparr>) s1"
    let ?s3 = "if rsp_flags rsp AND SRP_RSP_FLAG_SNSVALID \<noteq> 0 then srp_copy_sense m rsp ?s2 else ?s2"
    let ?s4 = "case srp_rsp_resid rsp of None \<Rightarrow> ?s3 | Some r \<Rightarrow> upd_cmd m (\<lambda>x. x\<lparr>sc_resid := r\<rparr>) ?s3"
    let ?d = "u32_to_int (be32_to_cpu (rsp_req_lim_delta rsp))"
    let ?g = "\<lambda>x. x\<lparr>sc_scribble := None\<rparr>"
    have "settled s1 ?s4" by (auto intro!: settles split: option.split)
    from claim_and_finish [OF c1 assms this]
    have "settled s (upd_cmd m ?g (scsi_done m (srp_free_req V c ?i m ?d ?s4)))" by (rule settles)
    moreover have "upd_cmd m ?g (scsi_done m t) = scsi_done m (upd_cmd m ?g t)" for t :: "'a srp_state"
      by (simp add: upd_cmd_def scsi_done_def)
    ultimately show ?thesis unfolding srp_process_rsp_def Let_def cl Some using False by simp
  qed
qed

lemma settled_response_common [settles]: "settled r s \<Longrightarrow> settled r (snd (srp_response_common V c d b s))"
proof -
  assume a: "settled r s"
  obtain o1 s1 where g: "srp_get_tx_iu V c SRP_IU_RSP (srp_add_credits c d s) = (o1, s1)" by (meson surj_pair)
  have "settled r s1" using settled_get_tx_iu [OF settled_add_credits [OF a], of V c SRP_IU_RSP c d] g by simp
  show ?thesis
  proof (cases o1)
    case None
    then show ?thesis using \<open>settled r s1\<close> by (simp add: srp_response_common_def g)
  next
    case (Some i)
    let ?s = "upd_tx c i (\<lambda>iu. iu\<lparr>iu_num_sge := 1, iu_buf := write_bytes 0 b (iu_buf iu)\<rparr>) s1"
    obtain e s2 where p: "srp_post_send V c i (int (length b)) ?s = (e, s2)" by (meson surj_pair)
    have "settled r ?s" using \<open>settled r s1\<close> by (rule settles)
    then have "settled r (snd (srp_post_send V c i (int (length b)) ?s))" by (rule settles)
    then have "settled r s2" using p by simp
    then show ?thesis
      unfolding srp_response_common_def g Some option.case prod.case p by (simp add: settles)
  qed
qed

lemma settled_handle_recv:
  assumes "c < nch s"
  shows "settled s (srp_handle_recv V c wc s)"
proof (cases "find_iu (wc_wr_id wc) (ch_rx_ring (chan s c))")
  case None
  then show ?thesis by (auto simp: srp_handle_recv_def intro: settles)
next
  case (Some i)
  let ?s0 = "upd_ch c (\<lambda>ch. ch\<lparr>ch_rx_ring := (ch_rx_ring ch)[i := (ch_rx_ring ch ! i)\<lparr>iu_buf :=
      write_bytes 0 (wc_data wc) (iu_buf (ch_rx_ring ch ! i))\<rparr>]\<rparr>) s"
  have s0: "settled s ?s0" by (rule settles) simp_all
  have c0: "c < nch ?s0" using assms by simp
  note rsp = settled_trans [OF s0 settled_process_rsp [OF c0]]
  show ?thesis
    unfolding srp_handle_recv_def Some option.case Let_def
    by (rule settled_post_recv)
       (auto intro: rsp s0 simp: srp_process_cred_req_def srp_process_aer_req_def intro!: settled_response_common)
qed

lemma settled_recv_completion:
  assumes "c < nch s"
  shows "settled s (srp_recv_completion V c wcs s)"
  using assms
proof (induction wcs arbitrary: s)
  case (Cons wc wcs)
  let ?t = "if wc_success wc then srp_handle_recv V c wc s else srp_handle_qp_err (wc_wr_id wc) c s"
  have t: "settled s ?t"
    using settled_handle_recv [OF Cons.prems] by (auto intro: settled_handle_qp_err)
  have "settled ?t (srp_recv_completion V c wcs ?t)"
    by (rule Cons.IH) (simp only: settled_nch [OF t] Cons.prems)
  then show ?case using settled_trans [OF t] by (simp add: srp_recv_completion_def)
qed (simp add: srp_recv_completion_def)

section \<open>Queueing a command\<close>

text \<open>\<open>accepts m s s'\<close>: the driver has taken on the command \<open>m\<close>, and possibly completed it.\<close>

definition accepts :: "nat \<Rightarrow> 'e srp_state \<Rightarrow> 'e srp_state \<Rightarrow> bool" where
  "accepts m s s' \<longleftrightarrow> static s' = static s \<and> (st_fault s \<noteq> None \<longrightarrow> st_fault s' \<noteq> None) \<and>
     (\<forall>K. reqs_inv K s \<longrightarrow> reqs_inv K s' \<and>
       (\<exists>ds. st_done s' = st_done s @ ds \<and> add_mset m (outstanding s) = outstanding s' + mset ds))"

lemma accepts_done: "settled s t \<Longrightarrow> accepts m s (scsi_done m t)"
proof -
  assume a: "settled s t"
  have "reqs_inv K t \<and> (\<exists>ds. st_done t @ [m] = st_done s @ ds \<and> add_mset m (outstanding s) = outstanding t + mset ds)"
    if "reqs_inv K s" for K
  proof -
    from a that obtain ds where "reqs_inv K t" "st_done t = st_done s @ ds" "outstanding s = outstanding t + mset ds"
      by (rule settledD)
    then show ?thesis by (intro conjI exI [of _ "ds @ [m]"]) simp_all
  qed
  then show ?thesis using settled_static [OF a] settled_fault [OF a] by (simp add: accepts_def)
qed

lemma accepts_held:
  assumes "settled s s1" "static s2 = static s1" "st_done s2 = st_done s1"
    "st_fault s1 \<noteq> None \<Longrightarrow> st_fault s2 \<noteq> None"
    "\<And>K. reqs_inv K s1 \<Longrightarrow> reqs_inv K s2 \<and> outstanding s2 = add_mset m (outstanding s1)"
  shows "accepts m s s2"
proof -
  have "reqs_inv K s2 \<and> (\<exists>ds. st_done s2 = st_done s @ ds \<and> add_mset m (outstanding s) = outstanding s2 + mset ds)"
    if "reqs_inv K s" for K
  proof -
    from assms(1) that obtain ds where "reqs_inv K s1" "st_done s1 = st_done s @ ds" "outstanding s = outstanding s1 + mset ds"
      by (rule settledD)
    then show ?thesis using assms(3,5) by (intro conjI exI [of _ ds]) simp_all
  qed
  then show ?thesis using assms(2,4) settled_static [OF assms(1)] settled_fault [OF assms(1)] by (simp add: accepts_def)
qed

text \<open>\<open>holding m c i s t\<close>: since \<open>s\<close>, the request \<open>i\<close> has been taken for the command \<open>m\<close>.\<close>

definition holding :: "nat \<Rightarrow> nat \<Rightarrow> nat \<Rightarrow> 'e srp_state \<Rightarrow> 'e srp_state \<Rightarrow> bool" where
  "holding m c i s t \<longleftrightarrow> static t = static s \<and> st_done t = st_done s \<and>
     (st_fault s \<noteq> None \<longrightarrow> st_fault t \<noteq> None) \<and>
     (\<forall>K. reqs_inv K s \<longrightarrow> reqs_inv K t \<and> outstanding t = add_mset m (outstanding s) \<and>
       i < length (ch_req_ring (chan t c)) \<and> req_scmnd (ch_req_ring (chan t c) ! i) = Some m \<and>
       (\<forall>d < nch s. owned (chan t d) - (if d = c then {i} else {}) \<subseteq> owned (chan s d)))"

lemma holding_frame:
  assumes "holding m c i s t" "static u = static t" "st_done u = st_done t" "outstanding u = outstanding t"
    "st_fault t \<noteq> None \<Longrightarrow> st_fault u \<noteq> None" "\<And>K. reqs_inv K t \<Longrightarrow> reqs_inv K u"
    "\<And>d. ch_req_ring (chan u d) = ch_req_ring (chan t d)"
  shows "holding m c i s u"
proof -
  have "owned (chan u d) = owned (chan t d)" for d by (simp add: owned_def assms(7))
  then show ?thesis using assms by (simp add: holding_def)
qed

lemma reqs_ok_cong:
  "ch_req_ring a = ch_req_ring b \<Longrightarrow> ch_free_reqs a = ch_free_reqs b \<Longrightarrow> reqs_ok n c K a = reqs_ok n c K b"
  by (simp add: reqs_ok_def owned_def)

lemma holding_start:
  assumes c: "c < nch s" and f: "ch_free_reqs (chan s c) = i # is"
    and t: "static t = static s" "st_done t = st_done s" "outstanding t = outstanding s"
      "st_fault s \<noteq> None \<Longrightarrow> st_fault t \<noteq> None"
      "\<And>d. ch_req_ring (chan t d) = ch_req_ring (chan s d)"
      "\<And>d. ch_free_reqs (chan t d) = (if d = c then is else ch_free_reqs (chan s d))"
  shows "holding m c i s (upd_req c i (\<lambda>r. r\<lparr>req_scmnd := Some m, req_cmd := j\<rparr>) t)"
proof -
  let ?f = "\<lambda>r. r\<lparr>req_scmnd := Some m, req_cmd := j\<rparr>"
  let ?ch = "chan s c"
  let ?u = "upd_req c i ?f t"
  have ct: "c < nch t" "nch t = nch s" using c staticD(3) [OF t(1)] by simp_all
  have "reqs_inv K ?u \<and> outstanding ?u = add_mset m (outstanding s) \<and> i < length (ch_req_ring ?ch) \<and>
      (\<forall>d < nch s. owned (chan ?u d) - (if d = c then {i} else {}) \<subseteq> owned (chan s d))"
    if inv: "reqs_inv K s" for K
  proof -
    have ok: "reqs_ok (ring_size s) c (K c) ?ch" using inv c by (simp add: reqs_inv_def)
    then have i: "i < ring_size s" "i < length (ch_req_ring ?ch)" "req_scmnd (ch_req_ring ?ch ! i) = None" "i \<notin> K c" "i \<notin> set is"
      using f by (auto simp: reqs_ok_def owned_def)
    have o: "owned (chan ?u c) = insert i (owned ?ch)"
      using i(2) ct t(5) by (auto simp: owned_def nth_list_update)
    have "reqs_ok (ring_size s) c (K c) (chan ?u c)"
      using ok i f ct t(5,6) unfolding reqs_ok_def o by (auto simp: nth_list_update)
    moreover have "reqs_ok (ring_size s) d (K d) (chan ?u d)" if "d < nch s" "d \<noteq> c" for d
    proof -
      have "reqs_ok (ring_size s) d (K d) (chan s d)" using inv that by (simp add: reqs_inv_def)
      then show ?thesis using that ct t(5,6) reqs_ok_cong [of "chan ?u d" "chan s d"] by simp
    qed
    ultimately have "reqs_inv K ?u"
      unfolding reqs_inv_def using ct ring_size_static [OF t(1)] by simp
    moreover have "outstanding ?u = add_mset m (outstanding s)"
      using outstanding_upd_req [OF ct(1), of i ?f] i(2,3) t(3,5) by simp
    moreover have "\<forall>d < nch s. owned (chan ?u d) - (if d = c then {i} else {}) \<subseteq> owned (chan s d)"
      using o ct t(5) by (auto simp: owned_def)
    ultimately show ?thesis using i(2) by simp
  qed
  then show ?thesis using ct t by (simp add: holding_def)
qed

lemma holding_replace:
  assumes h: "holding m c i s t" and c: "c < nch t"
    and r: "req_scmnd r = req_scmnd (ch_req_ring (chan t c) ! i)" "req_tag r = req_tag (ch_req_ring (chan t c) ! i)"
    and f: "ch_req_ring (f (chan t c)) = (ch_req_ring (chan t c))[i := r]"
      "ch_free_reqs (f (chan t c)) = ch_free_reqs (chan t c)"
  shows "holding m c i s (upd_ch c f t)"
proof -
  have o: "owned (f (chan t c)) = owned (chan t c)" if i: "i < length (ch_req_ring (chan t c))"
    using i r(1) f(1) by (auto simp: owned_def nth_list_update)
  have "reqs_inv K (upd_ch c f t) \<and> outstanding (upd_ch c f t) = outstanding t"
    if inv: "reqs_inv K t" and i: "i < length (ch_req_ring (chan t c))" for K
  proof
    note o = o [OF i]
    show "reqs_inv K (upd_ch c f t)"
    proof (rule reqs_inv_upd_ch [OF inv])
      have ok: "reqs_ok (ring_size t) c (K c) (chan t c)" using inv c by (simp add: reqs_inv_def)
      show "reqs_ok (ring_size t) c (K c) (f (chan t c))"
        using ok r(2) f i unfolding reqs_ok_def o by (auto simp: nth_list_update)
    qed simp
    have "ch_cmds (f (chan t c)) + opt_mset (req_scmnd (ch_req_ring (chan t c) ! i)) = ch_cmds (chan t c) + opt_mset (req_scmnd r)"
      using map_filter_update [OF i, of req_scmnd r] f(1) by (simp add: ch_cmds_def)
    then show "outstanding (upd_ch c f t) = outstanding t"
      using outstanding_upd_ch [OF c, of f] r(1) by simp
  qed
  moreover have "owned (chan (upd_ch c f t) d) = owned (chan t d)" if "i < length (ch_req_ring (chan t c))" for d
    using o [OF that] c by simp
  ultimately show ?thesis using h c r(1) f(1) by (auto simp: holding_def nth_list_update)
qed

lemma holding_undo:
  assumes h: "holding m c i s t" and c: "c < nch t"
  shows "settled s (srp_queue_undo c i j t)"
proof -
  let ?put = "srp_put_tx_iu c j SRP_IU_CMD t"
  let ?f = "\<lambda>r. r\<lparr>req_scmnd := None\<rparr>"
  let ?u = "srp_queue_undo c i j t"
  have cp: "c < nch ?put" using c by (simp add: srp_put_tx_iu_def)
  have "reqs_inv K ?u \<and> outstanding ?u = outstanding s \<and> (\<forall>d < nch s. owned (chan ?u d) \<subseteq> owned (chan s d))"
    if inv: "reqs_inv K s" for K
  proof -
    have t: "reqs_inv K t" "outstanding t = add_mset m (outstanding s)"
      "i < length (ch_req_ring (chan t c))" "req_scmnd (ch_req_ring (chan t c) ! i) = Some m"
      using h inv by (simp_all add: holding_def)
    have p: "reqs_inv K ?put" "outstanding ?put = outstanding t" "ch_req_ring (chan ?put c) = ch_req_ring (chan t c)"
      using t(1) c by (simp_all add: srp_put_tx_iu_def)
    have ok: "reqs_ok (ring_size ?put) c (K c) (chan ?put c)" using p(1) cp by (simp add: reqs_inv_def)
    let ?g = "\<lambda>ch. (ch\<lparr>ch_req_ring := (ch_req_ring ch)[i := ?f (ch_req_ring ch ! i)], ch_free_reqs := i # ch_free_reqs ch\<rparr>)"
    have u: "?u = upd_ch c ?g ?put" using cp by (simp add: srp_queue_undo_def upd_defs)
    have i: "i \<in> owned (chan ?put c)" using t(3,4) p(3) by (simp add: owned_def)
    have "reqs_inv K (upd_ch c ?g ?put)"
    proof (rule reqs_inv_upd_ch [OF p(1)])
      have o: "owned (?g (chan ?put c)) = owned (chan ?put c) - {i}"
        using t(3) p(3) by (auto simp: owned_def nth_list_update)
      show "reqs_ok (ring_size ?put) c (K c) (?g (chan ?put c))"
        using ok i unfolding reqs_ok_def o by (auto simp: nth_list_update)
    qed simp
    moreover have "outstanding (upd_req c i ?f ?put) + {#m#} = outstanding ?put"
      using outstanding_upd_req [OF cp, of i ?f] t(3,4) p(3) by simp
    then have "outstanding ?u = outstanding s" using t(2) p(2) by (simp add: srp_queue_undo_def)
    moreover have "owned (chan ?u d) = owned (chan t d) - (if d = c then {i} else {})" for d
    proof -
      have "owned (chan ?put d) = owned (chan t d)" by (simp add: srp_put_tx_iu_def)
      then show ?thesis using cp t(3) p(3) by (auto simp: u owned_def nth_list_update)
    qed
    moreover have "\<forall>d < nch s. owned (chan t d) - (if d = c then {i} else {}) \<subseteq> owned (chan s d)"
      using h inv by (simp add: holding_def)
    ultimately show ?thesis using u by simp
  qed
  moreover have "static ?u = static s" "st_done ?u = st_done s" "st_fault s \<noteq> None \<Longrightarrow> st_fault ?u \<noteq> None"
    using h by (simp_all add: holding_def srp_queue_undo_def srp_put_tx_iu_def)
  ultimately show ?thesis by (intro settledI) simp_all
qed

lemma map_data_keeps:
  assumes "srp_map_data V cfg cmd scmnd req iu p h = Some (len, req', iu', p', h')"
  shows "req_scmnd req' = req_scmnd req \<and> req_tag req' = req_tag req \<and> req_cmd req' = req_cmd req"
proof (cases "sc_sglist scmnd")
  case None
  then show ?thesis using assms by (auto simp: srp_map_data_def Let_def)
next
  case (Some sgl)
  obtain scat h1 where dma: "ib_dma_map_sg V cmd sgl (sc_dir scmnd) h = (scat, h1)" by (meson surj_pair)
  show ?thesis
  proof (cases "srp_map_sg V cfg scat \<lparr>mc_state = zeroed_map_state, mc_fr_pool = p, mc_hw = h1\<rparr>")
    case None
    show ?thesis using assms
      by (simp only: srp_map_data_def Let_def Some dma option.case prod.case None split: if_splits) auto
  next
    case c: (Some c)
    show ?thesis using assms
      by (simp only: srp_map_data_def Let_def Some dma option.case prod.case c split: if_splits) auto
  qed
qed

lemma holding_map_req:
  assumes "holding m c i s t" and "c < nch t"
  shows "holding m c i s (snd (srp_map_req V c i j m' t))"
proof (cases "srp_map_data V (map_cfg_of t c) m' (st_cmds t m') (ch_req_ring (chan t c) ! i) (ch_tx_ring (chan t c) ! j)
             (ch_fr_pool (chan t c)) (st_hw t)")
  case None
  then show ?thesis by (simp add: srp_map_req_def Let_def) (rule holding_frame [OF assms(1)]; simp)
next
  case (Some r)
  obtain len req iu p h where r: "r = (len, req, iu, p, h)" by (cases r)
  have k: "req_scmnd req = req_scmnd (ch_req_ring (chan t c) ! i)" "req_tag req = req_tag (ch_req_ring (chan t c) ! i)"
    using map_data_keeps [OF Some [unfolded r]] by simp_all
  let ?f = "\<lambda>ch. ch\<lparr>ch_req_ring := (ch_req_ring ch)[i := req], ch_tx_ring := (ch_tx_ring ch)[j := iu], ch_fr_pool := p\<rparr>"
  have "holding m c i s (upd_ch c ?f t)" by (rule holding_replace [OF assms k]) simp_all
  then have "holding m c i s (upd_hw h (upd_ch c ?f t))" by (rule holding_frame) simp_all
  then show ?thesis using Some r by (simp add: srp_map_req_def Let_def)
qed

lemma holding_post_send:
  assumes "holding m c i s t" and "c < nch t"
  shows "holding m c i s (snd (srp_post_send V c j len t))"
  unfolding srp_post_send_def Let_def
  by (simp split: option.split prod.split, intro conjI allI impI;
      rule holding_frame [OF assms(1)]; simp add: assms(2))

lemma holding_unmap_req:
  assumes "holding m c i s t" and "c < nch t"
  shows "holding m c i s (srp_unmap_req V c i' m' t)"
proof (rule holding_frame [OF assms(1)])
  show "ch_req_ring (chan (srp_unmap_req V c i' m' t) d) = ch_req_ring (chan t d)" for d
    using chan_unmap_req [OF assms(2), of V i' m' d] by (auto split: if_splits)
qed simp_all

text \<open>The possible results of \<^verbatim>\<open>srp_queuecommand()\<close>: the command has been accepted, a pointer was
  bad, or the command has to be queued again.\<close>

definition queue_result :: "nat \<Rightarrow> int \<Rightarrow> 'e srp_state \<Rightarrow> 'e srp_state \<Rightarrow> bool" where
  "queue_result m ret s s' \<longleftrightarrow>
     (if ret = 0 then accepts m s s' \<or> (settled s s' \<and> st_fault s' \<noteq> None)
      else settled s s' \<and> ret = SCSI_MLQUEUE_HOST_BUSY)"

lemma queue_err:
  assumes "settled s t" and "srp_queue_err m t = (ret, s')"
  shows "queue_result m ret s s'"
  using assms accepts_done [OF assms(1), of m]
  by (auto simp: srp_queue_err_def queue_result_def SCSI_MLQUEUE_HOST_BUSY_def split: if_splits)

lemma issue_cmd:
  assumes "settled s s2" "c < nch s2" "srp_issue_cmd V c j m s2 = (ret, s')"
  shows "queue_result m ret s s'"
proof (cases "ch_free_reqs (chan s2 c)")
  case Nil
  then show ?thesis using assms(3) settled_upd(3) [OF assms(1), of Bad_Pointer]
    by (auto simp: srp_issue_cmd_def queue_result_def)
next
  case f: (Cons i "is")
  let ?tag = "req_tag (ch_req_ring (chan s2 c) ! i)"
  let ?s4 = "upd_tx c j (\<lambda>iu. iu\<lparr>iu_buf := srp_build_cmd (st_mod s2) (st_cmds s2 m) ?tag (iu_buf iu)\<rparr>)
    (upd_cmd m (\<lambda>x. x\<lparr>sc_scribble := Some (c, i)\<rparr>) (upd_ch c (\<lambda>ch. ch\<lparr>ch_free_reqs := is\<rparr>) s2))"
  let ?s5 = "upd_req c i (\<lambda>r. r\<lparr>req_scmnd := Some m, req_cmd := Some j\<rparr>) ?s4"
  have h5: "holding m c i s2 ?s5"
    by (rule holding_start [OF assms(2) f]) (use assms(2) in simp_all)
  obtain len s6 where m6: "srp_map_req V c i j m ?s5 = (len, s6)" by (meson surj_pair)
  note issue = assms(3) [unfolded srp_issue_cmd_def f list.case Let_def m6 prod.case]
  have h6: "holding m c i s2 s6" using holding_map_req [OF h5, of V j m] assms(2) m6 by simp
  have c6: "c < nch s6" using h6 assms(2) staticD(3) by (metis holding_def)
  show ?thesis
  proof (cases "len < 0")
    case True
    let ?g = "\<lambda>x. x\<lparr>sc_result := (if len = - ENOMEM then DID_OK * 2 ^ 16 + QUEUE_FULL * 2 else DID_ERROR * 2 ^ 16)\<rparr>"
    have "holding m c i s2 (upd_cmd m ?g s6)" by (rule holding_frame [OF h6]) simp_all
    then have "settled s2 (srp_queue_undo c i j (upd_cmd m ?g s6))" using c6 by (intro holding_undo) simp_all
    from settled_trans [OF assms(1) this] show ?thesis
      by (rule queue_err) (use issue True in simp)
  next
    case False
    obtain r s7 where p7: "srp_post_send V c j len s6 = (r, s7)" by (meson surj_pair)
    have h7: "holding m c i s2 s7" using holding_post_send [OF h6 c6, of V j len] p7 by simp
    have c7: "c < nch s7" using h7 assms(2) staticD(3) by (metis holding_def)
    show ?thesis
    proof (cases "r = 0")
      case True
      then show ?thesis using issue False p7 accepts_held [OF assms(1), of s7 m] h7
        by (simp add: holding_def queue_result_def)
    next
      case r: False
      have "settled s2 (srp_queue_undo c i j (srp_unmap_req V c i m s7))"
        using holding_unmap_req [OF h7 c7] c7 staticD(3) [OF unmap_req_frame(4), of V c i m s7]
        by (intro holding_undo) simp_all
      from settled_trans [OF assms(1) this] show ?thesis
        by (rule queue_err) (use issue False p7 r in simp)
    qed
  qed
qed

lemma queuecommand:
  assumes "srp_queuecommand V cpu rst blocked m s = (ret, s')"
  shows "queue_result m ret s s'"
proof -
  let ?s1 = "upd_cmd m (\<lambda>x. x\<lparr>sc_result := srp_chkready rst\<rparr>) s"
  have s1: "settled s ?s1" by (rule settles) simp
  show ?thesis
  proof (cases "srp_chkready rst \<noteq> 0 \<or> blocked")
    case True
    have "settled s (upd_cmd m (\<lambda>x. x\<lparr>sc_quiet := True\<rparr>) ?s1)" using s1 by (rule settles)
    then show ?thesis by (rule queue_err) (use assms True in \<open>simp add: srp_queuecommand_def\<close>)
  next
    case ready: False
    show ?thesis
    proof (cases "srp_map_cpu_to_ch cpu (st_target s)")
      case None
      then show ?thesis using assms ready settled_upd(3) [OF s1, of Bad_Pointer]
        by (auto simp: srp_queuecommand_def queue_result_def)
    next
      case (Some c)
      then have c: "c < nch s" by (auto simp: srp_map_cpu_to_ch_def split: if_splits)
      obtain o2 s2 where g: "srp_get_tx_iu V c SRP_IU_CMD ?s1 = (o2, s2)" by (meson surj_pair)
      have s2: "settled s s2" using settled_get_tx_iu [OF s1, of V c SRP_IU_CMD] g by simp
      then have c2: "c < nch s2" using c settled_nch by metis
      show ?thesis
      proof (cases o2)
        case None
        then show ?thesis using assms ready Some g queue_err [OF s2] by (simp add: srp_queuecommand_def)
      next
        case j: (Some j)
        then show ?thesis using assms ready Some g issue_cmd [OF s2 c2] by (simp add: srp_queuecommand_def)
      qed
    qed
  qed
qed

end
