(* ===== verification/SRP_Cm.thy ===== *)
theory SRP_Cm
  imports SRP_Requests
begin

text \<open>
  Connection management events and waiting: the allocation of the rings of a channel, the handlers the
  RDMA core calls (\<^verbatim>\<open>srp_cm_rep_handler()\<close>, \<^verbatim>\<open>srp_ib_cm_handler()\<close>, \<^verbatim>\<open>srp_rdma_cm_handler()\<close>), sleeping on a
  completion while such calls happen, and the SCSI error handlers that wait for a task management response.
\<close>

section \<open>Information unit buffers and request data\<close>

definition srp_alloc_iu :: "'e verbs \<Rightarrow> nat \<Rightarrow> dma_dir \<Rightarrow> 'e hw \<Rightarrow> srp_iu option \<times> 'e hw" where
  "srp_alloc_iu V sz direction h =
     (case kzalloc V (v_sizeof V T_srp_iu) h of
        (None, h1) \<Rightarrow> (None, h1)
      | (Some p, h1) \<Rightarrow>
          (case kzalloc V sz h1 of
             (None, h2) \<Rightarrow> (None, kfree p h2)
           | (Some b, h2) \<Rightarrow>
               (case ib_dma_map_single V b sz direction h2 of
                  (None, h3) \<Rightarrow> (None, kfree p (kfree b h3))
                | (Some a, h3) \<Rightarrow>
                    (Some \<lparr>iu_self = p, iu_dma = a, iu_mem = b, iu_buf = zeros sz, iu_size = sz,
                           iu_direction = direction, iu_num_sge = 0,
                           iu_sge = replicate (1 + SRP_MAX_IMM_SGE) \<lparr>sge_addr = 0, sge_length = 0, sge_lkey = 0\<rparr>\<rparr>,
                     h3))))"

definition srp_free_iu :: "srp_iu \<Rightarrow> 'e hw \<Rightarrow> 'e hw" where
  "srp_free_iu iu h = kfree (iu_self iu) (kfree (iu_mem iu) (release (R_dma (iu_dma iu)) h))"

text \<open>The loops that fill a ring: how many units could be allocated, and whether that was all of them.\<close>

fun srp_alloc_ius :: "'e verbs \<Rightarrow> nat \<Rightarrow> nat \<Rightarrow> dma_dir \<Rightarrow> 'e hw \<Rightarrow> bool \<times> srp_iu list \<times> 'e hw" where
  "srp_alloc_ius V 0 sz dir h = (True, [], h)"
| "srp_alloc_ius V (Suc n) sz dir h =
     (case srp_alloc_iu V sz dir h of
        (None, h1) \<Rightarrow> (False, [], h1)
      | (Some iu, h1) \<Rightarrow> (case srp_alloc_ius V n sz dir h1 of (ok, ius, h2) \<Rightarrow> (ok, iu # ius, h2)))"

definition srp_free_nth :: "srp_iu list \<Rightarrow> nat \<Rightarrow> 'e hw \<Rightarrow> 'e hw" where
  "srp_free_nth ius i h = (if i < length ius then srp_free_iu (ius ! i) h else h)"

abbreviation kfree_opt :: "nat option \<Rightarrow> 'e hw \<Rightarrow> 'e hw" where
  "kfree_opt p h \<equiv> (case p of None \<Rightarrow> h | Some q \<Rightarrow> kfree q h)"

definition srp_alloc_iu_bufs :: "'e verbs \<Rightarrow> nat \<Rightarrow> 'e srp_state \<Rightarrow> int \<times> 'e srp_state" where
  "srp_alloc_iu_bufs V c s =
     (let n = nat (tgt_queue_size (st_target s));
          no_ring = (\<lambda>rx tx h s. (- ENOMEM, upd_hw (kfree_opt rx (kfree_opt tx h))
            (upd_ch c (\<lambda>ch. ch\<lparr>ch_tx_mem := None, ch_tx_ring := [], ch_rx_mem := None, ch_rx_ring := []\<rparr>) s)));
          undo = (\<lambda>rx_mem rx tx_mem tx h s. no_ring (Some rx_mem) (Some tx_mem)
            (fold (\<lambda>i h. srp_free_nth tx i (srp_free_nth rx i h)) [0..<n] h) s)
      in case kzalloc V (n * 8) (st_hw s) of
        (None, h1) \<Rightarrow> no_ring None (ch_tx_mem (chan s c)) h1 s
      | (Some rxm, h1) \<Rightarrow>
          (case kzalloc V (n * 8) h1 of
             (None, h2) \<Rightarrow> no_ring (Some rxm) None h2 s
           | (Some txm, h2) \<Rightarrow>
               (case srp_alloc_ius V n (nat (ch_max_ti_iu_len (chan s c) mod 2 ^ 64)) DMA_FROM_DEVICE h2 of
                  (False, rx, h3) \<Rightarrow> undo rxm rx txm [] h3 s
                | (True, rx, h3) \<Rightarrow>
                    (case srp_alloc_ius V n (unat (tgt_max_iu_len (st_target s))) DMA_TO_DEVICE h3 of
                       (ok, tx, h4) \<Rightarrow>
                         (let s1 = upd_ch c (\<lambda>ch. ch\<lparr>ch_free_tx := rev [0..<length tx] @ ch_free_tx ch\<rparr>) s
                          in if ok
                             then (0, upd_hw h4 (upd_ch c (\<lambda>ch. ch\<lparr>ch_rx_mem := Some rxm, ch_rx_ring := rx,
                                    ch_tx_mem := Some txm, ch_tx_ring := tx\<rparr>) s1))
                             else undo rxm rx txm tx h4 s1)))))"

definition zeroed_request :: srp_request where
  "zeroed_request = \<lparr>req_scmnd = None, req_cmd = None, req_mdescs = [], req_indirect_desc = [],
     req_indirect_dma_addr = 0, req_nmdesc = 0, req_tag = 0, req_mem = []\<rparr>"

text \<open>The body of the loop of \<^verbatim>\<open>srp_alloc_req_data()\<close>: whether the request is complete, and the request.\<close>

definition srp_alloc_request :: "'e verbs \<Rightarrow> srp_device \<Rightarrow> srp_target_port \<Rightarrow> u32 \<Rightarrow> 'e hw \<Rightarrow>
    bool \<times> srp_request \<times> 'e hw" where
  "srp_alloc_request V dev t tag h =
     (case kzalloc V (unat (tgt_cmd_sg_cnt t) * 8) h of
        (None, h1) \<Rightarrow> (False, zeroed_request, h1)
      | (Some p1, h1) \<Rightarrow>
          (case kzalloc V (nat (dev_max_pages_per_mr dev) * 8) h1 of
             (None, h2) \<Rightarrow> (False, zeroed_request\<lparr>req_mem := [p1]\<rparr>, h2)
           | (Some p2, h2) \<Rightarrow>
               (case kzalloc V (unat (tgt_indirect_size t)) h2 of
                  (None, h3) \<Rightarrow> (False, zeroed_request\<lparr>req_mem := [p1, p2]\<rparr>, h3)
                | (Some p3, h3) \<Rightarrow>
                    (case ib_dma_map_single V p3 (unat (tgt_indirect_size t)) DMA_TO_DEVICE h3 of
                       (None, h4) \<Rightarrow> (False, zeroed_request\<lparr>req_mem := [p1, p2, p3]\<rparr>, h4)
                     | (Some a, h4) \<Rightarrow>
                         (True, zeroed_request\<lparr>req_mem := [p1, p2, p3], req_indirect_dma_addr := a, req_tag := tag\<rparr>, h4)))))"

text \<open>The loop: how many requests are complete, the ring, and the new environment.\<close>

fun srp_alloc_requests :: "'e verbs \<Rightarrow> srp_device \<Rightarrow> srp_target_port \<Rightarrow> nat \<Rightarrow> nat \<Rightarrow> nat \<Rightarrow> 'e hw \<Rightarrow>
    nat \<times> srp_request list \<times> 'e hw" where
  "srp_alloc_requests V dev t c i 0 h = (0, [], h)"
| "srp_alloc_requests V dev t c i (Suc n) h =
     (case srp_alloc_request V dev t (build_srp_tag (of_nat c) (of_nat i)) h of
        (False, r, h1) \<Rightarrow> (0, r # replicate n zeroed_request, h1)
      | (True, r, h1) \<Rightarrow> (case srp_alloc_requests V dev t c (Suc i) n h1 of (k, rs, h2) \<Rightarrow> (Suc k, r # rs, h2)))"

definition srp_alloc_req_data :: "'e verbs \<Rightarrow> nat \<Rightarrow> 'e srp_state \<Rightarrow> int \<times> 'e srp_state" where
  "srp_alloc_req_data V c s =
     (let n = nat (tgt_req_ring_size (st_target s)) in
      case kzalloc V (n * v_sizeof V T_srp_request) (st_hw s) of
        (None, h1) \<Rightarrow>
          (- ENOMEM, upd_hw h1 (upd_ch c (\<lambda>ch. ch\<lparr>ch_free_reqs := [], ch_req_mem := None, ch_req_ring := []\<rparr>) s))
      | (Some p, h1) \<Rightarrow>
          (case srp_alloc_requests V (st_dev s) (st_target s) c 0 n h1 of
             (k, rs, h2) \<Rightarrow>
               (if k = n then 0 else - ENOMEM,
                upd_hw h2 (upd_ch c (\<lambda>ch. ch\<lparr>ch_free_reqs := [0..<k], ch_req_mem := Some p, ch_req_ring := rs\<rparr>) s))))"

definition srp_free_request :: "srp_request \<Rightarrow> 'e hw \<Rightarrow> 'e hw" where
  "srp_free_request r h =
     fold kfree (drop 2 (req_mem r))
       ((if req_indirect_dma_addr r \<noteq> 0 then release (R_dma (req_indirect_dma_addr r)) else id)
         (fold kfree (take 2 (req_mem r)) h))"

definition srp_free_req_data :: "nat \<Rightarrow> 'e srp_state \<Rightarrow> 'e srp_state" where
  "srp_free_req_data c s =
     (case ch_req_mem (chan s c) of
        None \<Rightarrow> s
      | Some p \<Rightarrow>
          upd_ch c (\<lambda>ch. ch\<lparr>ch_req_mem := None, ch_req_ring := []\<rparr>)
            (upd_hw (kfree p (fold srp_free_request (ch_req_ring (chan s c)) (st_hw s))) s))"

section \<open>Connection management events\<close>

definition srp_target_is_topspin :: "srp_params \<Rightarrow> srp_target_port \<Rightarrow> bool" where
  "srp_target_is_topspin P t \<longleftrightarrow> topspin_workarounds P \<and>
     (take 3 (tgt_ioc_guid t) = [0x00, 0x05, 0xad] \<or> take 3 (tgt_ioc_guid t) = [0x00, 0x1b, 0x0d])"

definition srp_compute_rq_tmo :: "srp_params \<Rightarrow> u8 \<Rightarrow> u8 \<Rightarrow> u32" where
  "srp_compute_rq_tmo P timeout retry_cnt =
     (let T_tr_ns = 4096 * push_bit (unat timeout) 1 :: u64;
          max_compl_time_ms = (ucast retry_cnt * 4 * T_tr_ns) div 1000000
      in ucast (msecs_to_jiffies P (ucast (max_compl_time_ms + 1000))))"

text \<open>The loop that posts the receive buffers; it ends at the first error.\<close>

fun srp_post_recvs :: "'e verbs \<Rightarrow> nat \<Rightarrow> nat list \<Rightarrow> 'e srp_state \<Rightarrow> int \<times> 'e srp_state" where
  "srp_post_recvs V c [] s = (0, s)"
| "srp_post_recvs V c (i # is) s =
     (case srp_post_recv V c i s of (ret, s1) \<Rightarrow> if ret \<noteq> 0 then (ret, s1) else srp_post_recvs V c is s1)"

text \<open>The part of \<^verbatim>\<open>srp_cm_rep_handler()\<close> that brings the queue pair into the ready to send state.\<close>

definition srp_move_qp_rts :: "'e verbs \<Rightarrow> nat \<Rightarrow> nat \<Rightarrow> nat \<Rightarrow> 'e srp_state \<Rightarrow> int \<times> 'e srp_state" where
  "srp_move_qp_rts V c cm_id qp s =
     (case ib_cm_init_qp_attr V cm_id IB_QPS_RTR (st_hw s) of
        ((ret, _, _), h1) \<Rightarrow>
          if ret \<noteq> 0 then (ret, upd_hw h1 s)
          else case verb V (Ib_modify_qp qp IB_QPS_RTR) h1 of
            (ret, h2) \<Rightarrow>
              if ret \<noteq> 0 then (ret, upd_hw h2 s)
              else case ib_cm_init_qp_attr V cm_id IB_QPS_RTS h2 of
                ((ret, timeout, retry), h3) \<Rightarrow>
                  if ret \<noteq> 0 then (ret, upd_hw h3 s)
                  else
                    (let s1 = upd_tgt (\<lambda>t. t\<lparr>tgt_rq_tmo_jiffies := srp_compute_rq_tmo (st_mod s) timeout retry\<rparr>) s
                     in case verb V (Ib_modify_qp qp IB_QPS_RTS) h3 of
                       (ret, h4) \<Rightarrow>
                         if ret \<noteq> 0 then (ret, upd_hw h4 s1)
                         else case verb V (Ib_send_cm_rtu cm_id) h4 of (ret, h5) \<Rightarrow> (ret, upd_hw h5 s1)))"

text \<open>\<open>cm_id\<close> is not used with the RDMA/CM.\<close>

definition srp_cm_rep_handler :: "'e verbs \<Rightarrow> nat option \<Rightarrow> srp_login_rsp \<Rightarrow> nat \<Rightarrow> 'e srp_state \<Rightarrow> 'e srp_state" where
  "srp_cm_rep_handler V cm_id lrsp c s =
     (case
        (if lrsp_opcode lrsp \<noteq> SRP_LOGIN_RSP then (- ECONNRESET, s)
         else
           (let s1 = upd_ch c (\<lambda>ch. ch\<lparr>
                  ch_max_ti_iu_len := u32_to_int (be32_to_cpu (lrsp_max_ti_iu_len lrsp)),
                  ch_max_it_iu_len := be32_to_cpu (lrsp_max_it_iu_len lrsp),
                  ch_buf_fmt := be16_to_cpu (lrsp_buf_fmt lrsp),
                  ch_req_lim := u32_to_int (be32_to_cpu (lrsp_req_lim_delta lrsp))\<rparr>) s;
                can = min (s32 (ch_req_lim (chan s1 c) - SRP_TSK_MGMT_SQ_SIZE)) (tgt_can_queue (st_target s1));
                s2 = upd_tgt (\<lambda>t. t\<lparr>tgt_can_queue := can, tgt_cmd_per_lun := min can (tgt_cmd_per_lun t)\<rparr>) s1
            in case (if ch_rx_mem (chan s2 c) = None then srp_alloc_iu_bufs V c s2 else (0, s2)) of
                 (ret, s3) \<Rightarrow>
                   if ret \<noteq> 0 then (ret, s3)
                   else case srp_post_recvs V c [0..<nat (tgt_queue_size (st_target s3))] s3 of
                     (ret, s4) \<Rightarrow>
                       if ret \<noteq> 0 \<or> tgt_using_rdma_cm (st_target s4) then (ret, s4)
                       else case kzalloc V (v_sizeof V T_ib_qp_attr) (st_hw s4) of
                         (None, h) \<Rightarrow> (- ENOMEM, upd_hw h s4)
                       | (Some attr, h) \<Rightarrow>
                           (case (cm_id, ch_qp (chan s4 c)) of
                              (Some i, Some qp) \<Rightarrow>
                                (case srp_move_qp_rts V c i qp (upd_hw h s4) of
                                   (ret, s5) \<Rightarrow> (ret, upd_hw (kfree attr (st_hw s5)) s5))
                            | _ \<Rightarrow> (- EINVAL, fault Bad_Pointer (upd_hw h s4))))) of
      (ret, s') \<Rightarrow> upd_ch c (\<lambda>ch. ch\<lparr>ch_status := ret\<rparr>) s')"

definition IB_CM_REJ_STALE_CONN :: nat where "IB_CM_REJ_STALE_CONN = 10"
definition IB_CM_REJ_PORT_CM_REDIRECT :: nat where "IB_CM_REJ_PORT_CM_REDIRECT = 24"
definition IB_CM_REJ_PORT_REDIRECT :: nat where "IB_CM_REJ_PORT_REDIRECT = 25"

text \<open>The members of \<^verbatim>\<open>struct ib_class_port_info\<close> that are used of the additional rejection information:
  \<^verbatim>\<open>redirect_gid\<close>, \<^verbatim>\<open>redirect_lid\<close>, \<^verbatim>\<open>redirect_pkey\<close> and \<^verbatim>\<open>redirect_qp\<close>.\<close>

definition srp_ib_cm_rej_handler ::
    "'e verbs \<Rightarrow> nat \<Rightarrow> u8 list \<Rightarrow> nat \<Rightarrow> 'e srp_state \<Rightarrow> 'e srp_state" where
  "srp_ib_cm_rej_handler V reason ari c s =
     (if reason = IB_CM_REJ_PORT_CM_REDIRECT
      then let lid = field 28 2 ari; pkey = field 30 2 ari; qp = field 32 4 ari;
               s1 = (case ch_cm_id (chan s c) of
                       None \<Rightarrow> fault Bad_Pointer s
                     | Some i \<Rightarrow> upd_hw (snd (verb V (Set_remote_cm_qpn i (be32_to_cpu qp AND 0x00ffffff)) (st_hw s))) s)
           in upd_ch c (\<lambda>ch. ch\<lparr>ch_path := (ch_path ch)\<lparr>path_dlid := lid, path_pkey := pkey, path_dgid := field 8 16 ari\<rparr>,
                ch_status := (if be16_to_cpu lid \<noteq> 0 then SRP_DLID_REDIRECT else SRP_PORT_REDIRECT)\<rparr>) s1
      else if reason = IB_CM_REJ_PORT_REDIRECT
      then if srp_target_is_topspin (st_mod s) (st_target s)
           then upd_ch c (\<lambda>ch. ch\<lparr>ch_path := (ch_path ch)\<lparr>path_dgid := take 16 ari\<rparr>, ch_status := SRP_PORT_REDIRECT\<rparr>) s
           else upd_ch c (\<lambda>ch. ch\<lparr>ch_status := - ECONNRESET\<rparr>) s
      else if reason = IB_CM_REJ_STALE_CONN
      then upd_ch c (\<lambda>ch. ch\<lparr>ch_status := SRP_STALE_CONN\<rparr>) s
      else upd_ch c (\<lambda>ch. ch\<lparr>ch_status := - ECONNRESET\<rparr>) s)"

abbreviation complete_done :: "nat \<Rightarrow> 'e srp_state \<Rightarrow> 'e srp_state" where
  "complete_done c s \<equiv> upd_ch c (\<lambda>ch. ch\<lparr>ch_done := True\<rparr>) s"

abbreviation set_status :: "nat \<Rightarrow> int \<Rightarrow> 'e srp_state \<Rightarrow> 'e srp_state" where
  "set_status c st s \<equiv> upd_ch c (\<lambda>ch. ch\<lparr>ch_status := st\<rparr>) s"

abbreviation queue_tl_err :: "'e srp_state \<Rightarrow> 'e srp_state" where
  "queue_tl_err s \<equiv> upd_tgt (\<lambda>t. t\<lparr>tgt_tl_err_work := True\<rparr>) s"

fun srp_ib_cm_handler :: "'e verbs \<Rightarrow> nat \<Rightarrow> ib_cm_event \<Rightarrow> 'e srp_state \<Rightarrow> 'e srp_state" where
  "srp_ib_cm_handler V c IB_CM_REQ_ERROR s = complete_done c (set_status c (- ECONNRESET) s)"
| "srp_ib_cm_handler V c (IB_CM_REP_RECEIVED data) s =
     complete_done c (srp_cm_rep_handler V (ch_cm_id (chan s c)) (dec_login_rsp data) c s)"
| "srp_ib_cm_handler V c (IB_CM_REJ_RECEIVED reason ari data) s =
     complete_done c (srp_ib_cm_rej_handler V reason ari c s)"
| "srp_ib_cm_handler V c IB_CM_DREQ_RECEIVED s =
     (let s1 = upd_ch c (\<lambda>ch. ch\<lparr>ch_connected := False\<rparr>) s
      in queue_tl_err (case ch_cm_id (chan s c) of
           None \<Rightarrow> fault Bad_Pointer s1
         | Some i \<Rightarrow> upd_hw (snd (verb V (Ib_send_cm_drep i) (st_hw s1))) s1))"
| "srp_ib_cm_handler V c IB_CM_TIMEWAIT_EXIT s = complete_done c (set_status c 0 s)"
| "srp_ib_cm_handler V c IB_CM_MRA_RECEIVED s = s"
| "srp_ib_cm_handler V c IB_CM_DREQ_ERROR s = s"
| "srp_ib_cm_handler V c IB_CM_DREP_RECEIVED s = s"
| "srp_ib_cm_handler V c (IB_CM_other_event n) s = s"

definition srp_rdma_cm_rej_handler :: "int \<Rightarrow> nat \<Rightarrow> 'e srp_state \<Rightarrow> 'e srp_state" where
  "srp_rdma_cm_rej_handler status c s =
     set_status c (if status = int IB_CM_REJ_STALE_CONN then SRP_STALE_CONN else - ECONNRESET) s"

fun srp_rdma_cm_handler :: "'e verbs \<Rightarrow> nat \<Rightarrow> rdma_cm_event \<Rightarrow> 'e srp_state \<Rightarrow> 'e srp_state" where
  "srp_rdma_cm_handler V c RDMA_CM_EVENT_ADDR_RESOLVED s = complete_done c (set_status c 0 s)"
| "srp_rdma_cm_handler V c RDMA_CM_EVENT_ADDR_ERROR s = complete_done c (set_status c (- ENXIO) s)"
| "srp_rdma_cm_handler V c RDMA_CM_EVENT_ROUTE_RESOLVED s = complete_done c (set_status c 0 s)"
| "srp_rdma_cm_handler V c RDMA_CM_EVENT_ROUTE_ERROR s = complete_done c (set_status c (- EHOSTUNREACH) s)"
| "srp_rdma_cm_handler V c RDMA_CM_EVENT_UNREACHABLE s = complete_done c (set_status c (- EHOSTUNREACH) s)"
| "srp_rdma_cm_handler V c RDMA_CM_EVENT_CONNECT_ERROR s = complete_done c (set_status c (- ECONNRESET) s)"
| "srp_rdma_cm_handler V c (RDMA_CM_EVENT_ESTABLISHED data) s =
     complete_done c (srp_cm_rep_handler V None (dec_login_rsp data) c s)"
| "srp_rdma_cm_handler V c (RDMA_CM_EVENT_REJECTED status data) s =
     complete_done c (srp_rdma_cm_rej_handler status c s)"
| "srp_rdma_cm_handler V c RDMA_CM_EVENT_DISCONNECTED s =
     (if ch_connected (chan s c)
      then queue_tl_err (complete_done c (set_status c 0 (case ch_cm_id (chan s c) of
             None \<Rightarrow> fault Bad_Pointer s
           | Some i \<Rightarrow> upd_hw (snd (verb V (Rdma_disconnect i) (st_hw s))) s)))
      else s)"
| "srp_rdma_cm_handler V c RDMA_CM_EVENT_TIMEWAIT_EXIT s = complete_done c (set_status c 0 s)"
| "srp_rdma_cm_handler V c (RDMA_CM_other_event n) s = s"

definition srp_path_rec_completion :: "int \<Rightarrow> ib_sa_path_rec \<Rightarrow> nat \<Rightarrow> 'e srp_state \<Rightarrow> 'e srp_state" where
  "srp_path_rec_completion status pathrec c s =
     upd_ch c (\<lambda>ch. ch\<lparr>ch_status := status, ch_path := (if status \<noteq> 0 then ch_path ch else pathrec), ch_done := True\<rparr>) s"

section \<open>Waiting\<close>

text \<open>A call into the driver concerns a channel that has not been freed.\<close>

definition srp_upcall :: "'e verbs \<Rightarrow> nat \<times> upcall \<Rightarrow> 'e srp_state \<Rightarrow> 'e srp_state" where
  "srp_upcall V cu s = (case cu of (c, u) \<Rightarrow>
     if c < nch s \<and> ch_target (chan s c)
     then (case u of
         Path_Rec_Completion status rec \<Rightarrow> srp_path_rec_completion status rec c s
       | Ib_Cm_Event ev \<Rightarrow> srp_ib_cm_handler V c ev s
       | Rdma_Cm_Event ev \<Rightarrow> srp_rdma_cm_handler V c ev s
       | Recv_Completion wcs \<Rightarrow> srp_recv_completion V c wcs s)
     else fault Bad_Pointer s)"

definition srp_sleep :: "'e verbs \<Rightarrow> nat \<Rightarrow> 'e srp_state \<Rightarrow> 'e srp_state" where
  "srp_sleep V c s = (case sleep V c (st_hw s) of (us, h) \<Rightarrow> fold (srp_upcall V) us (upd_hw h s))"

abbreviation ERESTARTSYS :: int where "ERESTARTSYS \<equiv> 512"

abbreviation init_done :: "nat \<Rightarrow> 'e srp_state \<Rightarrow> 'e srp_state" where
  "init_done c s \<equiv> upd_ch c (\<lambda>ch. ch\<lparr>ch_done := False\<rparr>) s"

definition wait_done_interruptible :: "'e verbs \<Rightarrow> nat \<Rightarrow> 'e srp_state \<Rightarrow> int \<times> 'e srp_state" where
  "wait_done_interruptible V c s =
     (let s1 = srp_sleep V c s
      in if ch_done (chan s1 c) then (0, init_done c s1) else (- ERESTARTSYS, s1))"

text \<open>\<^verbatim>\<open>wait_for_completion()\<close> does not return before the completion.\<close>

definition wait_done :: "'e verbs \<Rightarrow> nat \<Rightarrow> 'e srp_state \<Rightarrow> 'e srp_state" where
  "wait_done V c s =
     (let s1 = srp_sleep V c s in if ch_done (chan s1 c) then init_done c s1 else fault Hang s1)"

section \<open>SCSI error handling\<close>

definition srp_send_tsk_mgmt ::
    "'e verbs \<Rightarrow> nat \<Rightarrow> u64 \<Rightarrow> u64 \<Rightarrow> u8 \<Rightarrow> 'e srp_state \<Rightarrow> int \<times> 'e srp_state" where
  "srp_send_tsk_mgmt V c tag lun func s =
     (if \<not> ch_connected (chan s c) \<or> tgt_qp_in_error (st_target s) then (- 1, s)
      else
        (case srp_get_tx_iu V c SRP_IU_TSK_MGMT (upd_ch c (\<lambda>ch. ch\<lparr>ch_tsk_mgmt_done := False\<rparr>) s) of
           (None, s1) \<Rightarrow> (- 1, s1)
         | (Some i, s1) \<Rightarrow>
             (let tm = enc_tsk_mgmt \<lparr>tm_opcode = SRP_TSK_MGMT, tm_tag = tag OR ucast SRP_TAG_TSK_MGMT,
                         tm_lun = int_to_scsilun (st_mod s1) lun, tm_tsk_mgmt_func = func, tm_task_tag = tag\<rparr>;
                  s2 = upd_tx c i (\<lambda>iu. iu\<lparr>iu_num_sge := 1, iu_buf := write_bytes 0 tm (iu_buf iu)\<rparr>) s1
              in case srp_post_send V c i (int (length tm)) s2 of
                   (r, s3) \<Rightarrow>
                     if r \<noteq> 0 then (- 1, srp_put_tx_iu c i SRP_IU_TSK_MGMT s3)
                     else let s4 = srp_sleep V c s3
                          in if ch_tsk_mgmt_done (chan s4 c) then (0, s4) else (- 1, s4))))"

datatype eh_result = SUCCESS | FAILED | FAST_IO_FAIL

text \<open>\<open>rst\<close> is the state of the remote port when the task management function has ended.\<close>

definition srp_abort :: "'e verbs \<Rightarrow> srp_rport_state \<Rightarrow> nat \<Rightarrow> 'e srp_state \<Rightarrow> eh_result \<times> 'e srp_state" where
  "srp_abort V rst m s =
     (case sc_scribble (st_cmds s m) of
        None \<Rightarrow> (SUCCESS, s)
      | Some (rc, i) \<Rightarrow>
          if rc < nch s \<and> i < length (ch_req_ring (chan s rc))
          then (let tag = req_tag (ch_req_ring (chan s rc) ! i); c = unat (srp_tag_ch tag)
             in if tgt_ch_count (st_target s) \<le> c then (SUCCESS, s)
                else if c \<noteq> rc then (SUCCESS, fault Bad_Pointer s)
                else (case srp_claim_req c i None (Some m) s of
                    (None, s1) \<Rightarrow> (SUCCESS, s1)
                  | (Some _, s1) \<Rightarrow>
                      (case srp_send_tsk_mgmt V c (ucast tag) (sc_lun (st_cmds s m)) SRP_TSK_ABORT_TASK s1 of
                         (r, s2) \<Rightarrow>
                           (if r = 0 then SUCCESS else if rst = SRP_RPORT_LOST then FAST_IO_FAIL else FAILED,
                            scsi_done m (upd_cmd m (\<lambda>x. x\<lparr>sc_quiet := True, sc_result := DID_ABORT * 2 ^ 16\<rparr>)
                              (srp_free_req V c i m 0 s2))))))
          else (SUCCESS, fault Bad_Pointer s))"

text \<open>The loops of \<^verbatim>\<open>srp_reset_device()\<close>: the inner one uses the variable of the outer one, which therefore
  continues at \<^verbatim>\<open>req_ring_size + 1\<close>.\<close>

partial_function (option) srp_reset_loop ::
    "'e verbs \<Rightarrow> nat \<Rightarrow> nat \<Rightarrow> 'e srp_state \<Rightarrow> 'e srp_state option" where
  "srp_reset_loop V sdev i s =
     (if i < tgt_ch_count (st_target s)
      then srp_reset_loop V sdev (ring_size s + 1) (srp_finish_reqs V (Some sdev) (DID_RESET * 2 ^ 16) i s)
      else Some s)"

definition srp_reset_device :: "'e verbs \<Rightarrow> nat \<Rightarrow> 'e srp_state \<Rightarrow> eh_result \<times> 'e srp_state" where
  "srp_reset_device V m s =
     (case srp_send_tsk_mgmt V 0 (ucast SRP_TAG_NO_REQ) (sc_lun (st_cmds s m)) SRP_TSK_LUN_RESET s of
        (r, s1) \<Rightarrow>
          if r \<noteq> 0 then (FAILED, s1)
          else if ch_tsk_mgmt_status (chan s1 0) \<noteq> 0 then (FAILED, s1)
          else case srp_reset_loop V (sc_device (st_cmds s m)) 0 s1 of
            None \<Rightarrow> (FAILED, fault Hang s1)
          | Some s2 \<Rightarrow> (SUCCESS, s2))"

definition srp_slave_configure :: "int \<Rightarrow> bool \<Rightarrow> srp_target_port \<Rightarrow> u32 option" where
  "srp_slave_configure hz is_disk t =
     (if is_disk then Some (max (word_of_int (30 * hz)) (tgt_rq_tmo_jiffies t)) else None)"

end
