(* ===== verification/SRP_Connect.thy ===== *)
theory SRP_Connect
  imports SRP_Cm
begin

text \<open>
  The life of an RDMA channel: creating and destroying its connection identifier, completion queues, queue
  pair and memory registration pool, resolving the path to the target, the SRP login, and
  the callbacks \<^verbatim>\<open>srp_rport_reconnect()\<close>, \<^verbatim>\<open>srp_terminate_io()\<close> and \<^verbatim>\<open>srp_rport_delete()\<close> that the transport class calls.
\<close>

section \<open>Creating and destroying a channel\<close>

definition release_opt :: "(nat \<Rightarrow> resource) \<Rightarrow> nat option \<Rightarrow> 'e hw \<Rightarrow> 'e hw" where
  "release_opt R x h = (case x of None \<Rightarrow> h | Some n \<Rightarrow> release (R n) h)"

definition srp_init_ib_qp :: "'e verbs \<Rightarrow> nat \<Rightarrow> srp_target_port \<Rightarrow> 'e hw \<Rightarrow> int \<times> 'e hw" where
  "srp_init_ib_qp V qp t h =
     (case kzalloc V (v_sizeof V T_ib_qp_attr) h of
        (None, h1) \<Rightarrow> (- ENOMEM, h1)
      | (Some attr, h1) \<Rightarrow>
          (case verb V (Ib_find_cached_pkey (be16_to_cpu (tgt_pkey t))) h1 of
             (ret, h2) \<Rightarrow>
               if ret \<noteq> 0 then (ret, kfree attr h2)
               else case verb V (Ib_modify_qp qp IB_QPS_INIT) h2 of (ret, h3) \<Rightarrow> (ret, kfree attr h3)))"

definition srp_new_ib_cm_id :: "'e verbs \<Rightarrow> nat \<Rightarrow> 'e srp_state \<Rightarrow> int \<times> 'e srp_state" where
  "srp_new_ib_cm_id V c s =
     (case create V (Ib_create_cm_id c) (st_hw s) of
        (Inl err, h) \<Rightarrow> (err, upd_hw h s)
      | (Inr new_cm_id, h) \<Rightarrow>
          (let t = st_target s
           in (0, upd_ch c (\<lambda>ch. ch\<lparr>ch_cm_id := Some new_cm_id,
                 ch_path := (ch_path ch)\<lparr>path_sgid := tgt_sgid t, path_dgid := tgt_orig_dgid t,
                   path_pkey := tgt_pkey t, path_service_id := tgt_service_id t\<rparr>\<rparr>)
               (upd_hw (release_opt R_cm_id (ch_cm_id (chan s c)) h) s))))"

definition srp_new_rdma_cm_id :: "'e verbs \<Rightarrow> nat \<Rightarrow> 'e srp_state \<Rightarrow> int \<times> 'e srp_state" where
  "srp_new_rdma_cm_id V c s =
     (case create V (Rdma_create_id c) (st_hw s) of
        (Inl err, h) \<Rightarrow> (err, upd_hw h s)
      | (Inr new_cm_id, h) \<Rightarrow>
          (let destroy = (\<lambda>i s. upd_hw (release (R_cm_id i) (st_hw s)) s);
               s1 = init_done c (upd_hw h s)
           in case verb V (Rdma_resolve_addr new_cm_id (tgt_dst (st_target s))) (st_hw s1) of
                (ret, h1) \<Rightarrow>
                  if ret \<noteq> 0 then (ret, destroy new_cm_id (upd_hw h1 s1))
                  else case wait_done_interruptible V c (upd_hw h1 s1) of
                    (ret, s2) \<Rightarrow>
                      if ret < 0 then (ret, destroy new_cm_id s2)
                      else if ch_status (chan s2 c) \<noteq> 0 then (ch_status (chan s2 c), destroy new_cm_id s2)
                      else (0, (case ch_cm_id (chan s2 c) of None \<Rightarrow> id | Some old \<Rightarrow> destroy old)
                                 (upd_ch c (\<lambda>ch. ch\<lparr>ch_cm_id := Some new_cm_id\<rparr>) s2))))"

definition srp_new_cm_id :: "'e verbs \<Rightarrow> nat \<Rightarrow> 'e srp_state \<Rightarrow> int \<times> 'e srp_state" where
  "srp_new_cm_id V c s =
     (if tgt_using_rdma_cm (st_target s) then srp_new_rdma_cm_id V c s else srp_new_ib_cm_id V c s)"

definition srp_alloc_fmr_pool :: "'e verbs \<Rightarrow> srp_device \<Rightarrow> srp_target_port \<Rightarrow> 'e hw \<Rightarrow> (int + nat) \<times> 'e hw" where
  "srp_alloc_fmr_pool V dev t h =
     create V (Ib_create_fmr_pool (tgt_can_queue t)
       (if tgt_can_queue t < 0 then - ((- tgt_can_queue t) div 4) else tgt_can_queue t div 4)
       (dev_max_pages_per_mr dev) (ilog2 (nat (dev_mr_page_size dev)))) h"

definition srp_alloc_fr_pool :: "'e verbs \<Rightarrow> srp_device \<Rightarrow> srp_target_port \<Rightarrow> 'e hw \<Rightarrow> (int + srp_fr_pool) \<times> 'e hw" where
  "srp_alloc_fr_pool V dev t h = srp_create_fr_pool V (tgt_can_queue t) (dev_max_pages_per_mr dev) h"

definition srp_destroy_qp :: "'e verbs \<Rightarrow> nat \<Rightarrow> 'e srp_state \<Rightarrow> 'e srp_state" where
  "srp_destroy_qp V c s =
     (case ch_qp (chan s c) of
        None \<Rightarrow> fault Bad_Pointer s
      | Some qp \<Rightarrow>
          (let s2 = (case verb V (Ib_modify_qp qp IB_QPS_ERR) (st_hw s) of
                 (ret, h1) \<Rightarrow>
                   if ret \<noteq> 0 then upd_hw h1 s
                   else let s1 = init_done c (upd_hw h1 s) in
                     case ib_post_recv V qp SRP_LAST_WR_ID \<lparr>sge_addr = 0, sge_length = 0, sge_lkey = 0\<rparr> (st_hw s1) of
                       (ret, h2) \<Rightarrow> if ret = 0 then wait_done V c (upd_hw h2 s1) else upd_hw h2 s1)
           in upd_hw (release (R_qp qp) (st_hw s2)) s2))"

text \<open>The queue pair of \<^verbatim>\<open>srp_create_ch_ib()\<close>.\<close>

definition srp_create_qp :: "'e verbs \<Rightarrow> nat option \<Rightarrow> srp_target_port \<Rightarrow> nat \<Rightarrow> nat \<Rightarrow> int \<Rightarrow> 'e hw \<Rightarrow> (int + nat) \<times> 'e hw" where
  "srp_create_qp V cm_id t send_cq recv_cq m h =
     (let max_send_wr = m * tgt_queue_size t; max_recv_wr = tgt_queue_size t + 1
      in if tgt_using_rdma_cm t
         then create V (Rdma_create_qp (case cm_id of None \<Rightarrow> 0 | Some i \<Rightarrow> i) send_cq recv_cq max_send_wr max_recv_wr) h
         else case create V (Ib_create_qp send_cq recv_cq max_send_wr max_recv_wr) h of
           (Inl err, h1) \<Rightarrow> (Inl err, h1)
         | (Inr qp, h1) \<Rightarrow>
             (case srp_init_ib_qp V qp t h1 of
                (ret, h2) \<Rightarrow> if ret \<noteq> 0 then (Inl ret, release (R_qp qp) h2) else (Inr qp, h2)))"

text \<open>The memory registration pool of \<^verbatim>\<open>srp_create_ch_ib()\<close>.\<close>

definition srp_replace_pool :: "'e verbs \<Rightarrow> nat \<Rightarrow> 'e srp_state \<Rightarrow> int \<times> 'e srp_state" where
  "srp_replace_pool V c s =
     (let dev = st_dev s in
      if dev_use_fast_reg dev \<and> dev_has_fr dev
      then case srp_alloc_fr_pool V dev (st_target s) (st_hw s) of
          (Inl err, h) \<Rightarrow> (err, upd_hw h s)
        | (Inr pool, h) \<Rightarrow>
            (0, upd_ch c (\<lambda>ch. ch\<lparr>ch_fr_pool := Some pool\<rparr>)
                  (upd_hw (srp_destroy_fr_pool (ch_fr_pool (chan s c)) h) s))
      else if \<not> dev_use_fast_reg dev \<and> dev_has_fmr dev
      then case srp_alloc_fmr_pool V dev (st_target s) (st_hw s) of
          (Inl err, h) \<Rightarrow> (err, upd_hw h s)
        | (Inr pool, h) \<Rightarrow>
            (0, upd_ch c (\<lambda>ch. ch\<lparr>ch_fmr_pool := Some pool\<rparr>)
                  (upd_hw (release_opt R_fmr_pool (ch_fmr_pool (chan s c)) h) s))
      else (0, s))"

definition srp_create_ch_ib :: "'e verbs \<Rightarrow> nat \<Rightarrow> 'e srp_state \<Rightarrow> int \<times> 'e srp_state" where
  "srp_create_ch_ib V c s =
     (let t = st_target s; dev = st_dev s; ch = chan s c; m = 1 + (if dev_use_fast_reg dev then 1 else 0) in
      case kzalloc V (v_sizeof V T_ib_qp_init_attr) (st_hw s) of
        (None, h1) \<Rightarrow> (- ENOMEM, upd_hw h1 s)
      | (Some init_attr, h1) \<Rightarrow>
          (case create V (Ib_create_cq (tgt_queue_size t + 1) (ch_comp_vector ch)) h1 of
             (Inl err, h2) \<Rightarrow> (err, upd_hw (kfree init_attr h2) s)
           | (Inr recv_cq, h2) \<Rightarrow>
               (case create V (Ib_create_cq (m * tgt_queue_size t) (ch_comp_vector ch)) h2 of
                  (Inl err, h3) \<Rightarrow> (err, upd_hw (kfree init_attr (release (R_cq recv_cq) h3)) s)
                | (Inr send_cq, h3) \<Rightarrow>
                    (let err_send_cq = (\<lambda>h. kfree init_attr (release (R_cq recv_cq) (release (R_cq send_cq) h)))
                     in case verb V (Ib_req_notify_cq recv_cq) h3 of (_, h4) \<Rightarrow>
                     (case srp_create_qp V (ch_cm_id ch) t send_cq recv_cq m h4 of
                        (Inl err, h5) \<Rightarrow> (err, upd_hw (err_send_cq h5) s)
                      | (Inr qp, h5) \<Rightarrow>
                          (case srp_replace_pool V c (upd_hw h5 s) of
                             (ret, s1) \<Rightarrow>
                               if ret \<noteq> 0 then (ret, upd_hw (err_send_cq (release (R_qp qp) (st_hw s1))) s1)
                               else
                                 (let s2 = (if ch_qp (chan s1 c) \<noteq> None then srp_destroy_qp V c s1 else s1);
                                      h6 = release_opt R_cq (ch_send_cq (chan s2 c))
                                             (release_opt R_cq (ch_recv_cq (chan s2 c)) (st_hw s2))
                                  in (0, upd_ch c (\<lambda>ch. ch\<lparr>ch_qp := Some qp, ch_recv_cq := Some recv_cq,
                                           ch_send_cq := Some send_cq\<rparr>)
                                       (upd_hw (kfree init_attr h6) s2))))))))) "

definition srp_free_ring :: "nat option \<Rightarrow> srp_iu list \<Rightarrow> 'e hw \<Rightarrow> 'e hw" where
  "srp_free_ring mem ius h = (case mem of None \<Rightarrow> h | Some p \<Rightarrow> kfree p (fold srp_free_iu ius h))"

definition srp_free_ch_ib :: "'e verbs \<Rightarrow> nat \<Rightarrow> 'e srp_state \<Rightarrow> 'e srp_state" where
  "srp_free_ch_ib V c s =
     (if \<not> ch_target (chan s c) then s
      else
        (let s1 = upd_ch c (\<lambda>ch. ch\<lparr>ch_cm_id := None\<rparr>)
                    (upd_hw (release_opt R_cm_id (ch_cm_id (chan s c)) (st_hw s)) s)
         in if ch_qp (chan s1 c) = None then s1
            else
              (let ch = chan s1 c;
                   s2 = upd_hw (if dev_use_fast_reg (st_dev s1) then srp_destroy_fr_pool (ch_fr_pool ch) (st_hw s1)
                          else release_opt R_fmr_pool (ch_fmr_pool ch) (st_hw s1)) s1;
                   s3 = srp_destroy_qp V c s2;
                   h = release_opt R_cq (ch_recv_cq ch) (release_opt R_cq (ch_send_cq ch) (st_hw s3));
                   h1 = srp_free_ring (ch_tx_mem ch) (ch_tx_ring ch) (srp_free_ring (ch_rx_mem ch) (ch_rx_ring ch) h)
               in upd_ch c (\<lambda>ch. ch\<lparr>ch_target := False, ch_qp := None, ch_send_cq := None, ch_recv_cq := None,
                    ch_rx_mem := None, ch_rx_ring := [], ch_tx_mem := None, ch_tx_ring := []\<rparr>) (upd_hw h1 s3))))"

section \<open>Path resolution and login\<close>

definition srp_ib_lookup_path :: "'e verbs \<Rightarrow> nat \<Rightarrow> 'e srp_state \<Rightarrow> int \<times> 'e srp_state" where
  "srp_ib_lookup_path V c s =
     (let s1 = upd_ch c (\<lambda>ch. ch\<lparr>ch_path := (ch_path ch)\<lparr>path_numb_path := 1\<rparr>, ch_done := False\<rparr>) s
      in case verb V (Ib_sa_path_rec_get (ch_path (chan s1 c))) (st_hw s1) of
           (query_id, h) \<Rightarrow>
             if query_id < 0 then (query_id, upd_hw h s1)
             else case wait_done_interruptible V c (upd_hw h s1) of
               (ret, s2) \<Rightarrow> if ret < 0 then (ret, s2) else (ch_status (chan s2 c), s2))"

definition srp_rdma_lookup_path :: "'e verbs \<Rightarrow> nat \<Rightarrow> 'e srp_state \<Rightarrow> int \<times> 'e srp_state" where
  "srp_rdma_lookup_path V c s =
     (let s1 = init_done c s
      in case ch_cm_id (chan s c) of
           None \<Rightarrow> (- EINVAL, fault Bad_Pointer s1)
         | Some cm_id \<Rightarrow>
             (case verb V (Rdma_resolve_route cm_id) (st_hw s1) of
                (ret, h) \<Rightarrow>
                  if ret \<noteq> 0 then (ret, upd_hw h s1)
                  else case wait_done_interruptible V c (upd_hw h s1) of (_, s2) \<Rightarrow> (ch_status (chan s2 c), s2)))"

definition srp_lookup_path :: "'e verbs \<Rightarrow> nat \<Rightarrow> 'e srp_state \<Rightarrow> int \<times> 'e srp_state" where
  "srp_lookup_path V c s =
     (if tgt_using_rdma_cm (st_target s) then srp_rdma_lookup_path V c s else srp_ib_lookup_path V c s)"

definition srp_get_subnet_timeout :: "'e verbs \<Rightarrow> 'e hw \<Rightarrow> u8 \<times> 'e hw" where
  "srp_get_subnet_timeout V h = (case ib_query_port V h of ((ret, t), h1) \<Rightarrow> (if ret = 0 then t else 18, h1))"

text \<open>The initiator and target port identifiers of the login request.\<close>

definition srp_port_ids :: "srp_params \<Rightarrow> be64 \<Rightarrow> srp_target_port \<Rightarrow> u8 list \<times> u8 list" where
  "srp_port_ids P node_guid t =
     (let interface_id = drop 8 (tgt_sgid t);
          (ipi, tpi) =
            (if tgt_io_class t = SRP_REV10_IB_IO_CLASS
             then (interface_id @ tgt_initiator_ext t, tgt_ioc_guid t @ tgt_id_ext t)
             else (tgt_initiator_ext t @ interface_id, tgt_id_ext t @ tgt_ioc_guid t))
      in (if srp_target_is_topspin P t then zeros 8 @ node_guid else ipi, tpi))"

definition srp_login_request :: "srp_params \<Rightarrow> be64 \<Rightarrow> srp_target_port \<Rightarrow> bool \<Rightarrow> srp_login_req" where
  "srp_login_request P node_guid t multich =
     (case srp_port_ids P node_guid t of (ipi, tpi) \<Rightarrow>
       \<lparr>lreq_opcode = SRP_LOGIN_REQ, lreq_tag = 0,
        lreq_req_it_iu_len = cpu_to_be32 (tgt_max_iu_len t),
        lreq_req_buf_fmt = cpu_to_be16 (SRP_BUF_FORMAT_DIRECT OR SRP_BUF_FORMAT_INDIRECT OR SRP_BUF_FORMAT_IMM),
        lreq_req_flags = (if multich then SRP_MULTICHAN_MULTI else SRP_MULTICHAN_SINGLE),
        lreq_initiator_port_id = ipi, lreq_target_port_id = tpi\<rparr>)"

definition srp_login_request_rdma :: "srp_login_req \<Rightarrow> srp_login_req_rdma" where
  "srp_login_request_rdma r =
     \<lparr>rreq_tag = lreq_tag r, rreq_req_buf_fmt = lreq_req_buf_fmt r, rreq_req_flags = lreq_req_flags r,
      rreq_opcode = lreq_opcode r, rreq_req_it_iu_len = lreq_req_it_iu_len r,
      rreq_initiator_port_id = lreq_initiator_port_id r, rreq_target_port_id = lreq_target_port_id r\<rparr>"

definition srp_send_req :: "'e verbs \<Rightarrow> nat \<Rightarrow> bool \<Rightarrow> 'e srp_state \<Rightarrow> int \<times> 'e srp_state" where
  "srp_send_req V c multich s =
     (case srp_get_subnet_timeout V (st_hw s) of (subnet_timeout, h1) \<Rightarrow>
      (case kzalloc V (v_sizeof V T_srp_conn_req) h1 of
         (None, h2) \<Rightarrow> (- ENOMEM, upd_hw h2 s)
       | (Some p, h2) \<Rightarrow>
           (let t = st_target s; lreq = srp_login_request (st_mod s) (st_node_guid s) t multich;
                param = \<lparr>cp_flow_control = 1, cp_retry_count = word_of_int (tgt_tl_retry_count t),
                  cp_responder_resources = 4, cp_rnr_retry_count = 7\<rparr>
            in case ch_cm_id (chan s c) of
                 None \<Rightarrow> (- EINVAL, fault Bad_Pointer (upd_hw h2 s))
               | Some cm_id \<Rightarrow>
                   if tgt_using_rdma_cm t
                   then (case verb V (Rdma_connect cm_id param (enc_login_req_rdma (srp_login_request_rdma lreq))) h2 of
                           (status, h3) \<Rightarrow> (status, upd_hw (kfree p h3) s))
                   else if ch_qp (chan s c) = None then (- EINVAL, fault Bad_Pointer (upd_hw h2 s))
                   else (case verb V (Ib_send_cm_req cm_id (ch_path (chan s c)) (tgt_service_id t) param 15
                                   (subnet_timeout + 2) (subnet_timeout + 2) (enc_login_req lreq)) h2 of
                           (status, h3) \<Rightarrow> (status, upd_hw (kfree p h3) s)))))"

text \<open>The loop of \<^verbatim>\<open>srp_connect_ch()\<close>.\<close>

partial_function (option) srp_connect_loop ::
    "'e verbs \<Rightarrow> nat \<Rightarrow> bool \<Rightarrow> 'e srp_state \<Rightarrow> (int \<times> 'e srp_state) option" where
  "srp_connect_loop V c multich s =
     (case srp_send_req V c multich (init_done c s) of
        (ret, s1) \<Rightarrow>
          if ret \<noteq> 0 then Some (ret, s1)
          else case wait_done_interruptible V c s1 of
            (ret, s2) \<Rightarrow>
              if ret < 0 then Some (ret, s2)
              else let status = ch_status (chan s2 c) in
                if status = 0 then Some (0, upd_ch c (\<lambda>ch. ch\<lparr>ch_connected := True\<rparr>) s2)
                else if status = SRP_PORT_REDIRECT
                then (case srp_lookup_path V c s2 of
                        (ret, s3) \<Rightarrow> if ret \<noteq> 0 then Some (ret, s3) else srp_connect_loop V c multich s3)
                else if status = SRP_DLID_REDIRECT then srp_connect_loop V c multich s2
                else if status = SRP_STALE_CONN then Some (- ECONNRESET, set_status c (- ECONNRESET) s2)
                else Some (status, s2))"

definition srp_connect_ch :: "'e verbs \<Rightarrow> nat \<Rightarrow> bool \<Rightarrow> 'e srp_state \<Rightarrow> int \<times> 'e srp_state" where
  "srp_connect_ch V c multich s =
     (case srp_lookup_path V c s of
        (ret, s1) \<Rightarrow>
          if ret \<noteq> 0 then (ret, s1)
          else case srp_connect_loop V c multich s1 of
            None \<Rightarrow> (- EINVAL, fault Hang s1)
          | Some r \<Rightarrow> r)"

section \<open>The callbacks of the transport class\<close>

definition srp_disconnect_ch :: "'e verbs \<Rightarrow> nat \<Rightarrow> 'e srp_state \<Rightarrow> 'e srp_state" where
  "srp_disconnect_ch V c s =
     (let s1 = upd_ch c (\<lambda>ch. ch\<lparr>ch_connected := False\<rparr>) s
      in case ch_cm_id (chan s1 c) of
           None \<Rightarrow> s1
         | Some i \<Rightarrow> upd_hw (snd (verb V (if tgt_using_rdma_cm (st_target s) then Rdma_disconnect i else Ib_send_cm_dreq i)
                                 (st_hw s1))) s1)"

definition srp_disconnect_target :: "'e verbs \<Rightarrow> 'e srp_state \<Rightarrow> 'e srp_state" where
  "srp_disconnect_target V s = fold (srp_disconnect_ch V) [0..<tgt_ch_count (st_target s)] s"

definition srp_connected_ch :: "srp_target_port \<Rightarrow> nat" where
  "srp_connected_ch t = length (filter ch_connected (take (tgt_ch_count t) (tgt_ch t)))"

definition srp_queue_remove_work :: "srp_target_port \<Rightarrow> bool \<times> srp_target_port" where
  "srp_queue_remove_work t =
     (if tgt_state t \<noteq> SRP_TARGET_REMOVED
      then (True, t\<lparr>tgt_state := SRP_TARGET_REMOVED, tgt_remove_work := True\<rparr>) else (False, t))"

definition srp_rport_delete :: "'e srp_state \<Rightarrow> 'e srp_state" where
  "srp_rport_delete s = upd_tgt (\<lambda>t. snd (srp_queue_remove_work t)) s"

text \<open>A function that returns a status, applied to channels one after the other with the statuses added up.\<close>

fun sum_status :: "(nat \<Rightarrow> 'e srp_state \<Rightarrow> int \<times> 'e srp_state) \<Rightarrow> nat list \<Rightarrow> int \<times> 'e srp_state \<Rightarrow> int \<times> 'e srp_state" where
  "sum_status f [] (ret, s) = (ret, s)"
| "sum_status f (c # cs) (ret, s) = (case f c s of (r, s1) \<Rightarrow> sum_status f cs (s32 (ret + r), s1))"

text \<open>The queue pair of a channel is created anew and all its information units become free.\<close>

definition srp_renew_ch :: "'e verbs \<Rightarrow> nat \<Rightarrow> 'e srp_state \<Rightarrow> int \<times> 'e srp_state" where
  "srp_renew_ch V c s =
     (case srp_create_ch_ib V c s of
        (ret, s1) \<Rightarrow>
          (let n = nat (tgt_queue_size (st_target s1))
           in if n \<le> length (ch_tx_ring (chan s1 c))
              then (ret, upd_ch c (\<lambda>ch. ch\<lparr>ch_free_tx := rev [0..<n]\<rparr>) s1)
              else (ret, fault Bad_Pointer s1)))"

fun srp_connect_all :: "'e verbs \<Rightarrow> nat list \<Rightarrow> bool \<Rightarrow> 'e srp_state \<Rightarrow> int \<times> 'e srp_state" where
  "srp_connect_all V [] multich s = (0, s)"
| "srp_connect_all V (c # cs) multich s =
     (case srp_connect_ch V c multich s of
        (ret, s1) \<Rightarrow> if ret \<noteq> 0 then (ret, s1) else srp_connect_all V cs True s1)"

definition srp_rport_reconnect :: "'e verbs \<Rightarrow> 'e srp_state \<Rightarrow> int \<times> 'e srp_state" where
  "srp_rport_reconnect V s =
     (let s1 = srp_disconnect_target V s; cs = [0..<tgt_ch_count (st_target s)]
      in if tgt_state (st_target s1) = SRP_TARGET_SCANNING then (- ENODEV, s1)
         else case sum_status (srp_new_cm_id V) cs (0, s1) of
           (ret, s2) \<Rightarrow>
             (case sum_status (srp_renew_ch V) cs
                     (ret, fold (srp_finish_reqs V None (DID_RESET * 2 ^ 16)) cs s2) of
                (ret, s3) \<Rightarrow>
                  (let s4 = upd_tgt (\<lambda>t. t\<lparr>tgt_qp_in_error := False\<rparr>) s3
                   in if ret \<noteq> 0 then (ret, s4) else srp_connect_all V cs False s4)))"

definition ib_srp_transport_functions ::
    "'e verbs \<Rightarrow> int \<Rightarrow> int \<Rightarrow> int \<Rightarrow> 'e srp_state srp_function_template" where
  "ib_srp_transport_functions V rd fi dl =
     \<lparr>has_rport_state = True, reset_timer_if_blocked = True,
      f_reconnect_delay = Some rd, f_fast_io_fail_tmo = Some fi, f_dev_loss_tmo = Some dl,
      f_reconnect = Some (srp_rport_reconnect V), f_terminate_rport_io = Some (srp_terminate_io V),
      f_rport_delete = Some srp_rport_delete\<rparr>"

section \<open>Work items and removal\<close>

definition srp_tl_err_work ::
    "int \<Rightarrow> scsi_core \<Rightarrow> 'e srp_state xport \<Rightarrow> 'e srp_state xport" where
  "srp_tl_err_work hz C x =
     (let x1 = x\<lparr>xp_lld := upd_tgt (\<lambda>t. t\<lparr>tgt_tl_err_work := False\<rparr>) (xp_lld x)\<rparr>
      in if tgt_rport (st_target (xp_lld x)) then srp_start_tl_fail_timers hz C x1 else x1)"

definition srp_reset_host ::
    "int \<Rightarrow> scsi_core \<Rightarrow> 'e srp_state srp_function_template \<Rightarrow> int \<Rightarrow> 'e srp_state xport \<Rightarrow>
     eh_result \<times> 'e srp_state xport" where
  "srp_reset_host hz C F lock_res x =
     (case srp_reconnect_rport hz C F lock_res x of (r, x1) \<Rightarrow> (if r = 0 then SUCCESS else FAILED, x1))"

text \<open>The part of \<^verbatim>\<open>srp_remove_target()\<close> that concerns the channels, after the SCSI host has been removed.\<close>

definition srp_remove_channels :: "'e verbs \<Rightarrow> 'e srp_state \<Rightarrow> 'e srp_state" where
  "srp_remove_channels V s =
     (let cs = [0..<tgt_ch_count (st_target s)];
          s1 = fold (srp_free_ch_ib V) cs (srp_disconnect_target V s);
          s2 = fold srp_free_req_data cs (upd_tgt (\<lambda>t. t\<lparr>tgt_tl_err_work := False\<rparr>) s1)
      in upd_tgt (\<lambda>t. t\<lparr>tgt_mq_map := [], tgt_mq_mem := None, tgt_ch := [], tgt_ch_mem := None\<rparr>)
           (upd_hw (kfree_opt (tgt_ch_mem (st_target s2)) (kfree_opt (tgt_mq_mem (st_target s2)) (st_hw s2))) s2))"

text \<open>\<^verbatim>\<open>srp_remove_target()\<close> from the call of \<^verbatim>\<open>srp_stop_rport_timers()\<close> on.\<close>

definition srp_remove_target ::
    "'e verbs \<Rightarrow> scsi_core \<Rightarrow> 'e srp_state srp_function_template \<Rightarrow> 'e srp_state xport \<Rightarrow> 'e srp_state xport" where
  "srp_remove_target V C F x =
     (let x1 = srp_stop_rport_timers C F x in x1\<lparr>xp_lld := srp_remove_channels V (xp_lld x1)\<rparr>)"

end
