(* ===== verification/SRP_Strings.thy ===== *)
theory SRP_Strings
  imports SRP_Text
begin

text \<open>
  More of the kernel string library, for the options of the driver: \<^verbatim>\<open>simple_strtoull\<close>, \<^verbatim>\<open>simple_strtol\<close>, \<^verbatim>\<open>strsep\<close>, the conversions
  \<^verbatim>\<open>%hhx\<close> and \<^verbatim>\<open>%hu\<close> of \<^verbatim>\<open>sscanf\<close>, the patterns of \<^verbatim>\<open>match_token\<close>, and that these functions read back
  hexadecimal numbers.
\<close>

section \<open>The simple conversions and strsep\<close>

text \<open>\<^verbatim>\<open>simple_strtoull()\<close> skips the prefix of the radix, takes the digits and wraps around; it returns the number and
  what is left of the string. \<^verbatim>\<open>simple_strtol()\<close> takes a minus sign first.\<close>

definition fixup_base :: "nat \<Rightarrow> string \<Rightarrow> nat \<times> string" where
  "fixup_base b s =
     (if b = 0 then fixup_radix s
      else if b = 16 \<and> 1 < length s \<and> s ! 0 = CHR ''0'' \<and> is_x (s ! 1) then (16, drop 2 s)
      else (b, s))"

definition simple_strtoull :: "nat \<Rightarrow> string \<Rightarrow> u64 \<times> string" where
  "simple_strtoull b s =
     (let (base, ds) = fixup_base b s; (v, k, rest) = parse_digits base 0 0 ds in (of_nat v, rest))"

definition simple_strtol :: "nat \<Rightarrow> string \<Rightarrow> int \<times> string" where
  "simple_strtol b s =
     (if s \<noteq> [] \<and> hd s = CHR ''-'' then case simple_strtoull b (tl s) of (v, rest) \<Rightarrow> (sint (- v), rest)
      else case simple_strtoull b s of (v, rest) \<Rightarrow> (sint v, rest))"

text \<open>All the strings that repeated calls of \<^verbatim>\<open>strsep()\<close> return.\<close>

fun strsep_all :: "string \<Rightarrow> string \<Rightarrow> string list" where
  "strsep_all seps [] = [[]]"
| "strsep_all seps (c # cs) =
     (if c \<in> set seps then [] # strsep_all seps cs
      else case strsep_all seps cs of [] \<Rightarrow> [[c]] | t # ts \<Rightarrow> (c # t) # ts)"

lemma strsep_all_append:
  "set xs \<inter> set seps = {} \<Longrightarrow> c \<in> set seps \<Longrightarrow> strsep_all seps (xs @ c # ys) = xs # strsep_all seps ys"
  by (induction xs) auto

lemma strsep_all_last: "set xs \<inter> set seps = {} \<Longrightarrow> strsep_all seps xs = [xs]"
  by (induction xs) auto

section \<open>Scanning\<close>

definition isspace :: "char \<Rightarrow> bool" where
  "isspace c \<longleftrightarrow> (let n = of_char c :: nat in 9 \<le> n \<and> n \<le> 13 \<or> n = 32 \<or> n = 160)"

text \<open>An unsigned conversion of \<^verbatim>\<open>sscanf()\<close>: spaces are skipped and there must be a digit.\<close>

definition sscanf_unsigned :: "nat \<Rightarrow> string \<Rightarrow> u64 option" where
  "sscanf_unsigned b s =
     (case dropWhile isspace s of
        [] \<Rightarrow> None
      | c # cs \<Rightarrow> (case digit_val c of
          None \<Rightarrow> None
        | Some d \<Rightarrow> if d < b then Some (fst (simple_strtoull b (c # cs))) else None))"

definition sscanf_hhx :: "string \<Rightarrow> u8 option" where
  "sscanf_hhx s = map_option ucast (sscanf_unsigned 16 s)"

definition sscanf_colon_hu :: "string \<Rightarrow> u16 option" where
  "sscanf_colon_hu s = (case s of [] \<Rightarrow> None | c # cs \<Rightarrow> if c = CHR '':'' then map_option ucast (sscanf_unsigned 10 cs) else None)"

text \<open>The patterns of \<^verbatim>\<open>match_token()\<close> that occur: a literal text and one argument. The argument extends to the end
  of the string, or there is no match.\<close>

datatype match_arg = Arg_s | Arg_d | Arg_u | Arg_x

definition match_arg :: "match_arg \<Rightarrow> string \<Rightarrow> bool" where
  "match_arg a s =
     (let all = (\<lambda>rest. rest = [] \<and> s \<noteq> [])
      in case a of Arg_s \<Rightarrow> s \<noteq> [] | Arg_d \<Rightarrow> all (snd (simple_strtol 0 s)) | Arg_u \<Rightarrow> all (snd (simple_strtoull 0 s))
         | Arg_x \<Rightarrow> all (snd (simple_strtoull 16 s)))"

fun match_token :: "string \<Rightarrow> ('t \<times> string \<times> match_arg) list \<Rightarrow> ('t \<times> string) option" where
  "match_token s [] = None"
| "match_token s ((t, lit, a) # table) =
     (if take (length lit) s = lit \<and> match_arg a (drop (length lit) s) then Some (t, drop (length lit) s)
      else match_token s table)"

section \<open>Hexadecimal numbers\<close>

lemma digits_hex_digits: "list_all (\<lambda>c. \<exists>d. digit_val c = Some d \<and> d < 16) (hex_digits w n)"
  by (induction w arbitrary: n) (auto simp: digit_val_char)

lemma parse_hex_digits: "parse_digits 16 0 0 (hex_digits w n) = (n mod 16 ^ w, w, [])"
proof (induction w arbitrary: n)
  case (Suc w)
  have "16 * (n div 16 mod 16 ^ w) + n mod 16 = n mod 16 ^ Suc w"
    by (simp add: mod_mult2_eq [of n 16 "16 ^ w", symmetric] mult.commute)
  then show ?case by (simp add: parse_digits_append [OF digits_hex_digits] Suc mult.commute)
qed simp

lemma set_hex_digits: "c \<in> set (hex_digits w n) \<Longrightarrow> digit_val c \<noteq> None"
  using digits_hex_digits [of w n] by (auto simp: list_all_iff)

lemma is_x_no_digit: "is_x c \<Longrightarrow> digit_val c = None"
  by (auto simp: is_x_def)

lemma strtoull_hex: "simple_strtoull 16 (hex_digits w n) = (of_nat (n mod 16 ^ w), [])"
proof -
  have "\<not> is_x (hex_digits w n ! 1)" if "1 < length (hex_digits w n)"
    using set_hex_digits [of "hex_digits w n ! 1" w n] nth_mem [OF that] is_x_no_digit by auto
  then have "fixup_base 16 (hex_digits w n) = (16, hex_digits w n)" by (auto simp: fixup_base_def)
  then show ?thesis by (simp add: simple_strtoull_def parse_hex_digits)
qed

lemma strtoull_0x_hex: "simple_strtoull 16 (''0x'' @ hex_digits w n) = (of_nat (n mod 16 ^ w), [])"
  by (simp add: simple_strtoull_def fixup_base_def is_x_def parse_hex_digits)

end
