(* ===== verification/SRP_Options.thy ===== *)
theory SRP_Options
  imports SRP_Channel SRP_Strings
begin

text \<open>
  The text interface of the driver: the options that are written to \<^verbatim>\<open>add_target\<close>
  (\<^verbatim>\<open>srp_parse_options()\<close>), the attributes of the SCSI host (\<^verbatim>\<open>show_id_ext()\<close> and the others) and the module
  parameters for the timeouts (\<^verbatim>\<open>srp_tmo_set()\<close>, \<^verbatim>\<open>srp_tmo_get()\<close>).

  \<^verbatim>\<open>in4_pton()\<close> of the kernel is a parameter: it gives the four bytes of an IPv4 address and
  the rest of the string, or fails.
\<close>

type_synonym in4_pton = "string \<Rightarrow> (u8 list \<times> string) option"

section \<open>Tokens\<close>

definition SRP_OPT_ERR :: int where "SRP_OPT_ERR = 0"
definition SRP_OPT_ID_EXT :: int where "SRP_OPT_ID_EXT = 1"
definition SRP_OPT_IOC_GUID :: int where "SRP_OPT_IOC_GUID = 2"
definition SRP_OPT_DGID :: int where "SRP_OPT_DGID = 4"
definition SRP_OPT_PKEY :: int where "SRP_OPT_PKEY = 8"
definition SRP_OPT_SERVICE_ID :: int where "SRP_OPT_SERVICE_ID = 16"
definition SRP_OPT_MAX_SECT :: int where "SRP_OPT_MAX_SECT = 32"
definition SRP_OPT_MAX_CMD_PER_LUN :: int where "SRP_OPT_MAX_CMD_PER_LUN = 64"
definition SRP_OPT_IO_CLASS :: int where "SRP_OPT_IO_CLASS = 128"
definition SRP_OPT_INITIATOR_EXT :: int where "SRP_OPT_INITIATOR_EXT = 256"
definition SRP_OPT_CMD_SG_ENTRIES :: int where "SRP_OPT_CMD_SG_ENTRIES = 512"
definition SRP_OPT_ALLOW_EXT_SG :: int where "SRP_OPT_ALLOW_EXT_SG = 1024"
definition SRP_OPT_SG_TABLESIZE :: int where "SRP_OPT_SG_TABLESIZE = 2048"
definition SRP_OPT_COMP_VECTOR :: int where "SRP_OPT_COMP_VECTOR = 4096"
definition SRP_OPT_TL_RETRY_COUNT :: int where "SRP_OPT_TL_RETRY_COUNT = 8192"
definition SRP_OPT_QUEUE_SIZE :: int where "SRP_OPT_QUEUE_SIZE = 16384"
definition SRP_OPT_IP_DEST :: int where "SRP_OPT_IP_DEST = 32768"

lemmas srp_opt_defs = SRP_OPT_ERR_def SRP_OPT_ID_EXT_def SRP_OPT_IOC_GUID_def SRP_OPT_DGID_def SRP_OPT_PKEY_def
  SRP_OPT_SERVICE_ID_def SRP_OPT_MAX_SECT_def SRP_OPT_MAX_CMD_PER_LUN_def SRP_OPT_IO_CLASS_def
  SRP_OPT_INITIATOR_EXT_def SRP_OPT_CMD_SG_ENTRIES_def SRP_OPT_ALLOW_EXT_SG_def SRP_OPT_SG_TABLESIZE_def
  SRP_OPT_COMP_VECTOR_def SRP_OPT_TL_RETRY_COUNT_def SRP_OPT_QUEUE_SIZE_def SRP_OPT_IP_DEST_def

definition srp_opt_mandatory :: "int list" where
  "srp_opt_mandatory =
     [SRP_OPT_ID_EXT OR SRP_OPT_IOC_GUID OR SRP_OPT_DGID OR SRP_OPT_PKEY OR SRP_OPT_SERVICE_ID,
      SRP_OPT_ID_EXT OR SRP_OPT_IOC_GUID OR SRP_OPT_IP_DEST]"

definition srp_opt_tokens :: "(int \<times> string \<times> match_arg) list" where
  "srp_opt_tokens =
     [(SRP_OPT_ID_EXT, ''id_ext='', Arg_s), (SRP_OPT_IOC_GUID, ''ioc_guid='', Arg_s), (SRP_OPT_DGID, ''dgid='', Arg_s),
      (SRP_OPT_PKEY, ''pkey='', Arg_x), (SRP_OPT_SERVICE_ID, ''service_id='', Arg_s), (SRP_OPT_MAX_SECT, ''max_sect='', Arg_d),
      (SRP_OPT_MAX_CMD_PER_LUN, ''max_cmd_per_lun='', Arg_d), (SRP_OPT_IO_CLASS, ''io_class='', Arg_x),
      (SRP_OPT_INITIATOR_EXT, ''initiator_ext='', Arg_s), (SRP_OPT_CMD_SG_ENTRIES, ''cmd_sg_entries='', Arg_u),
      (SRP_OPT_ALLOW_EXT_SG, ''allow_ext_sg='', Arg_u), (SRP_OPT_SG_TABLESIZE, ''sg_tablesize='', Arg_u),
      (SRP_OPT_COMP_VECTOR, ''comp_vector='', Arg_u), (SRP_OPT_TL_RETRY_COUNT, ''tl_retry_count='', Arg_u),
      (SRP_OPT_QUEUE_SIZE, ''queue_size='', Arg_d), (SRP_OPT_IP_DEST, ''dest='', Arg_s)]"

definition SCSI_MAX_SG_CHAIN_SEGMENTS :: int where "SCSI_MAX_SG_CHAIN_SEGMENTS = 2048"

section \<open>Arguments\<close>

text \<open>\<^verbatim>\<open>match_number()\<close> of the kernel, which \<^verbatim>\<open>match_int()\<close> and \<^verbatim>\<open>match_hex()\<close> call with the base 0 and 16: a copy of the argument
  is made, and the number must fit an \<^verbatim>\<open>int\<close>.\<close>

definition match_number :: "'e verbs \<Rightarrow> nat \<Rightarrow> string \<Rightarrow> 'e hw \<Rightarrow> (int + int) \<times> 'e hw" where
  "match_number V base s h =
     (case kzalloc V (length s + 1) h of
        (None, h1) \<Rightarrow> (Inl (- ENOMEM), h1)
      | (Some p, h1) \<Rightarrow>
          (case simple_strtol base s of (v, rest) \<Rightarrow>
             (if length rest = length s then Inl (- EINVAL)
              else if \<not> int_range v then Inl (- ERANGE) else Inr v, kfree p h1)))"

text \<open>An option with a number: every error becomes \<^verbatim>\<open>-EINVAL\<close>; \<open>f\<close> gives the new target port if the number is allowed.\<close>

definition opt_number :: "'e verbs \<Rightarrow> nat \<Rightarrow> string \<Rightarrow> (int \<Rightarrow> srp_target_port option) \<Rightarrow> srp_target_port \<Rightarrow> 'e hw \<Rightarrow>
    int \<times> srp_target_port \<times> 'e hw" where
  "opt_number V base s f t h =
     (case match_number V base s h of
        (Inl _, h1) \<Rightarrow> (- EINVAL, t, h1)
      | (Inr v, h1) \<Rightarrow> (case f v of None \<Rightarrow> (- EINVAL, t, h1) | Some t1 \<Rightarrow> (0, t1, h1)))"

text \<open>An option with a text, which is copied by \<^verbatim>\<open>match_strdup()\<close>.\<close>

definition opt_text :: "'e verbs \<Rightarrow> string \<Rightarrow> (srp_target_port \<Rightarrow> int \<times> srp_target_port) \<Rightarrow> srp_target_port \<Rightarrow> 'e hw \<Rightarrow>
    int \<times> srp_target_port \<times> 'e hw" where
  "opt_text V s f t h =
     (case kzalloc V (length s + 1) h of
        (None, h1) \<Rightarrow> (- ENOMEM, t, h1)
      | (Some p, h1) \<Rightarrow> (case f t of (ret, t1) \<Rightarrow> (ret, t1, kfree p h1)))"

definition parse_be64 :: "string \<Rightarrow> be64" where
  "parse_be64 s = cpu_to_be64 (fst (simple_strtoull 16 s))"

text \<open>The loop over the 16 bytes of a GID; it ends at the first error.\<close>

fun srp_parse_gid :: "nat list \<Rightarrow> string \<Rightarrow> u8 list \<Rightarrow> int \<times> u8 list" where
  "srp_parse_gid [] s gid = (0, gid)"
| "srp_parse_gid (i # is) s gid =
     (case sscanf_hhx (take 2 (drop (i * 2) s)) of
        None \<Rightarrow> (- EINVAL, gid)
      | Some b \<Rightarrow> srp_parse_gid is s (gid[i := b]))"

text \<open>\<open>sin\<close> are the bytes of the \<^verbatim>\<open>struct sockaddr_in\<close>: the family, the port and the address. \<^verbatim>\<open>AF_INET\<close> is 2.\<close>

definition srp_parse_in :: "in4_pton \<Rightarrow> string \<Rightarrow> u8 list \<Rightarrow> bool \<times> u8 list" where
  "srp_parse_in pton s sin =
     (case pton s of
        None \<Rightarrow> (False, sin)
      | Some (addr, rest) \<Rightarrow>
          (let sin1 = write_bytes 4 addr sin
           in case sscanf_colon_hu rest of
                None \<Rightarrow> (False, sin1)
              | Some dst_port \<Rightarrow> (True, write_bytes 2 (cpu_to_be16 dst_port) (write_bytes 0 [2, 0] sin1))))"

section \<open>Options\<close>

text \<open>The \<^verbatim>\<open>switch\<close> of \<^verbatim>\<open>srp_parse_options()\<close>; \<open>opt_mask\<close> includes the token.\<close>

definition srp_parse_option ::
    "'e verbs \<Rightarrow> in4_pton \<Rightarrow> int \<Rightarrow> string \<Rightarrow> int \<Rightarrow> srp_target_port \<Rightarrow> 'e hw \<Rightarrow> int \<times> srp_target_port \<times> 'e hw" where
  "srp_parse_option V pton token arg opt_mask t h =
     (let num = (\<lambda>ok f. opt_number V 0 arg (\<lambda>v. if ok v then Some (f v) else None) t h);
          hex = (\<lambda>ok f. opt_number V 16 arg (\<lambda>v. if ok v then Some (f v) else None) t h);
          text = (\<lambda>f. opt_text V arg f t h)
      in if token = SRP_OPT_ID_EXT then text (\<lambda>t. (0, t\<lparr>tgt_id_ext := parse_be64 arg\<rparr>))
         else if token = SRP_OPT_IOC_GUID then text (\<lambda>t. (0, t\<lparr>tgt_ioc_guid := parse_be64 arg\<rparr>))
         else if token = SRP_OPT_DGID then text (\<lambda>t.
           if length arg \<noteq> 32 then (- EINVAL, t)
           else case srp_parse_gid [0..<16] arg (tgt_orig_dgid t) of
             (ret, gid) \<Rightarrow> (ret, t\<lparr>tgt_dst := write_bytes 8 gid (tgt_dst t)\<rparr>))
         else if token = SRP_OPT_PKEY then
           hex (\<lambda>v. True) (\<lambda>v. t\<lparr>tgt_dst := write_bytes 24 (cpu_to_be16 (word_of_int v)) (tgt_dst t)\<rparr>)
         else if token = SRP_OPT_SERVICE_ID then text (\<lambda>t. (0, t\<lparr>tgt_dst := write_bytes 0 (parse_be64 arg) (tgt_dst t)\<rparr>))
         else if token = SRP_OPT_IP_DEST then text (\<lambda>t.
           case srp_parse_in pton arg (tgt_dst t) of
             (ok, dst) \<Rightarrow> if ok then (0, t\<lparr>tgt_dst := dst, tgt_using_rdma_cm := True\<rparr>) else (- EINVAL, t\<lparr>tgt_dst := dst\<rparr>))
         else if token = SRP_OPT_MAX_SECT then num (\<lambda>v. True) (\<lambda>v. t\<lparr>tgt_max_sectors := v\<rparr>)
         else if token = SRP_OPT_QUEUE_SIZE then num (\<lambda>v. 1 \<le> v) (\<lambda>v. t\<lparr>tgt_can_queue := v,
           tgt_queue_size := s32 (v + SRP_RSP_SQ_SIZE + SRP_TSK_MGMT_SQ_SIZE),
           tgt_cmd_per_lun := (if opt_mask AND SRP_OPT_MAX_CMD_PER_LUN = 0 then v else tgt_cmd_per_lun t)\<rparr>)
         else if token = SRP_OPT_MAX_CMD_PER_LUN then num (\<lambda>v. 1 \<le> v) (\<lambda>v. t\<lparr>tgt_cmd_per_lun := v\<rparr>)
         else if token = SRP_OPT_IO_CLASS then
           hex (\<lambda>v. v = uint SRP_REV10_IB_IO_CLASS \<or> v = uint SRP_REV16A_IB_IO_CLASS) (\<lambda>v. t\<lparr>tgt_io_class := word_of_int v\<rparr>)
         else if token = SRP_OPT_INITIATOR_EXT then text (\<lambda>t. (0, t\<lparr>tgt_initiator_ext := parse_be64 arg\<rparr>))
         else if token = SRP_OPT_CMD_SG_ENTRIES then num (\<lambda>v. 1 \<le> v \<and> v \<le> 255) (\<lambda>v. t\<lparr>tgt_cmd_sg_cnt := word_of_int v\<rparr>)
         else if token = SRP_OPT_ALLOW_EXT_SG then num (\<lambda>v. True) (\<lambda>v. t\<lparr>tgt_allow_ext_sg := (v \<noteq> 0)\<rparr>)
         else if token = SRP_OPT_SG_TABLESIZE then
           num (\<lambda>v. 1 \<le> v \<and> v \<le> SCSI_MAX_SG_CHAIN_SEGMENTS) (\<lambda>v. t\<lparr>tgt_sg_tablesize := word_of_int v\<rparr>)
         else if token = SRP_OPT_COMP_VECTOR then num (\<lambda>v. 0 \<le> v) (\<lambda>v. t\<lparr>tgt_comp_vector := v\<rparr>)
         else if token = SRP_OPT_TL_RETRY_COUNT then num (\<lambda>v. 2 \<le> v \<and> v \<le> 7) (\<lambda>v. t\<lparr>tgt_tl_retry_count := v\<rparr>)
         else (- EINVAL, t, h))"

definition srp_match_option :: "string \<Rightarrow> int \<times> string" where
  "srp_match_option s = (case match_token s srp_opt_tokens of None \<Rightarrow> (SRP_OPT_ERR, []) | Some r \<Rightarrow> r)"

fun srp_parse_loop ::
    "'e verbs \<Rightarrow> in4_pton \<Rightarrow> string list \<Rightarrow> int \<Rightarrow> srp_target_port \<Rightarrow> 'e hw \<Rightarrow> int \<times> int \<times> srp_target_port \<times> 'e hw" where
  "srp_parse_loop V pton [] opt_mask t h = (0, opt_mask, t, h)"
| "srp_parse_loop V pton (p # ps) opt_mask t h =
     (if p = [] then srp_parse_loop V pton ps opt_mask t h
      else case srp_match_option p of (token, arg) \<Rightarrow>
        (case srp_parse_option V pton token arg (opt_mask OR token) t h of
           (ret, t1, h1) \<Rightarrow>
             if ret \<noteq> 0 then (ret, opt_mask OR token, t1, h1)
             else srp_parse_loop V pton ps (opt_mask OR token) t1 h1))"

definition srp_parse_options ::
    "'e verbs \<Rightarrow> in4_pton \<Rightarrow> string \<Rightarrow> srp_target_port \<Rightarrow> 'e hw \<Rightarrow> int \<times> srp_target_port \<times> 'e hw" where
  "srp_parse_options V pton buf t h =
     (case kzalloc V (length buf + 1) h of
        (None, h1) \<Rightarrow> (- ENOMEM, t, h1)
      | (Some options, h1) \<Rightarrow>
          (case srp_parse_loop V pton (strsep_all [CHR '','', CHR 0x0A] buf) 0 t h1 of
             (ret, opt_mask, t1, h2) \<Rightarrow>
               (if ret \<noteq> 0 then ret
                else if list_ex (\<lambda>m. opt_mask AND m = m) srp_opt_mandatory then 0 else - EINVAL,
                t1, kfree options h2)))"

section \<open>Attributes\<close>

definition ENOENT :: int where "ENOENT = 2"

abbreviation show_x64 :: "be64 \<Rightarrow> string" where
  "show_x64 b \<equiv> ''0x'' @ hex_digits 16 (unat (be64_to_cpu b)) @ [CHR 0x0A]"

abbreviation show_d :: "int \<Rightarrow> string" where
  "show_d v \<equiv> dec_of_int v @ [CHR 0x0A]"

text \<open>\<^verbatim>\<open>%pI6\<close>: eight groups of four hexadecimal digits.\<close>

fun show_pI6 :: "u8 list \<Rightarrow> string" where
  "show_pI6 [a, b] = hex_digits 2 (unat a) @ hex_digits 2 (unat b)"
| "show_pI6 (a # b # bs) = hex_digits 2 (unat a) @ hex_digits 2 (unat b) @ '':'' @ show_pI6 bs"
| "show_pI6 _ = []"

abbreviation ib_cm_only :: "srp_target_port \<Rightarrow> string \<Rightarrow> int + string" where
  "ib_cm_only t s \<equiv> (if tgt_using_rdma_cm t then Inl (- ENOENT) else Inr s)"

definition show_id_ext :: "srp_target_port \<Rightarrow> string" where "show_id_ext t = show_x64 (tgt_id_ext t)"
definition show_ioc_guid :: "srp_target_port \<Rightarrow> string" where "show_ioc_guid t = show_x64 (tgt_ioc_guid t)"
definition show_service_id :: "srp_target_port \<Rightarrow> int + string" where
  "show_service_id t = ib_cm_only t (show_x64 (tgt_service_id t))"
definition show_pkey :: "srp_target_port \<Rightarrow> int + string" where
  "show_pkey t = ib_cm_only t (''0x'' @ hex_digits 4 (unat (be16_to_cpu (tgt_pkey t))) @ [CHR 0x0A])"
definition show_sgid :: "srp_target_port \<Rightarrow> string" where "show_sgid t = show_pI6 (tgt_sgid t) @ [CHR 0x0A]"
definition show_dgid :: "srp_target_port \<Rightarrow> int + string" where
  "show_dgid t = ib_cm_only t (show_pI6 (path_dgid (ch_path (tgt_ch t ! 0))) @ [CHR 0x0A])"
definition show_orig_dgid :: "srp_target_port \<Rightarrow> int + string" where
  "show_orig_dgid t = ib_cm_only t (show_pI6 (tgt_orig_dgid t) @ [CHR 0x0A])"
definition show_req_lim :: "srp_target_port \<Rightarrow> string" where
  "show_req_lim t = show_d (fold (\<lambda>i req_lim. min req_lim (ch_req_lim (tgt_ch t ! i))) [0..<tgt_ch_count t] (2 ^ 31 - 1))"
definition show_zero_req_lim :: "srp_target_port \<Rightarrow> string" where "show_zero_req_lim t = show_d (tgt_zero_req_lim t)"
definition show_ch_count :: "srp_target_port \<Rightarrow> string" where "show_ch_count t = show_d (int (tgt_ch_count t))"
definition show_comp_vector :: "srp_target_port \<Rightarrow> string" where "show_comp_vector t = show_d (tgt_comp_vector t)"
definition show_tl_retry_count :: "srp_target_port \<Rightarrow> string" where "show_tl_retry_count t = show_d (tgt_tl_retry_count t)"
definition show_cmd_sg_entries :: "srp_target_port \<Rightarrow> string" where "show_cmd_sg_entries t = show_d (uint (tgt_cmd_sg_cnt t))"
definition show_allow_ext_sg :: "srp_target_port \<Rightarrow> string" where
  "show_allow_ext_sg t = (if tgt_allow_ext_sg t then ''true'' else ''false'') @ [CHR 0x0A]"

section \<open>Module parameters for the timeouts\<close>

datatype tmo_param = Reconnect_Delay | Fast_Io_Fail_Tmo | Dev_Loss_Tmo

record tmo_params =
  srp_reconnect_delay :: int
  srp_fast_io_fail_tmo :: int
  srp_dev_loss_tmo :: int

fun tmo_value :: "tmo_param \<Rightarrow> tmo_params \<Rightarrow> int" where
  "tmo_value Reconnect_Delay P = srp_reconnect_delay P"
| "tmo_value Fast_Io_Fail_Tmo P = srp_fast_io_fail_tmo P"
| "tmo_value Dev_Loss_Tmo P = srp_dev_loss_tmo P"

fun tmo_update :: "tmo_param \<Rightarrow> int \<Rightarrow> tmo_params \<Rightarrow> tmo_params" where
  "tmo_update Reconnect_Delay v P = P\<lparr>srp_reconnect_delay := v\<rparr>"
| "tmo_update Fast_Io_Fail_Tmo v P = P\<lparr>srp_fast_io_fail_tmo := v\<rparr>"
| "tmo_update Dev_Loss_Tmo v P = P\<lparr>srp_dev_loss_tmo := v\<rparr>"

definition srp_tmo_get :: "tmo_param \<Rightarrow> tmo_params \<Rightarrow> string" where
  "srp_tmo_get kp P = (if 0 \<le> tmo_value kp P then dec_of_int (tmo_value kp P) else ''off'')"

definition srp_tmo_set :: "int \<Rightarrow> string \<Rightarrow> tmo_param \<Rightarrow> tmo_params \<Rightarrow> int \<times> tmo_params" where
  "srp_tmo_set hz val kp P =
     (case srp_parse_tmo val of
        Inl res \<Rightarrow> (res, P)
      | Inr tmo \<Rightarrow>
          (let Q = tmo_update kp tmo P;
               res = srp_tmo_valid hz (srp_reconnect_delay Q) (srp_fast_io_fail_tmo Q) (srp_dev_loss_tmo Q)
           in if res \<noteq> 0 then (res, P) else (0, Q)))"

end
