(* ===== verification/SRP_Host.thy ===== *)
theory SRP_Host
  imports SRP_Connect SRP_Options
begin

text \<open>
  Bringing a target up: the parameters of an HCA (\<^verbatim>\<open>srp_add_one()\<close>), the module parameters (\<^verbatim>\<open>srp_init_module()\<close>) and
  \<^verbatim>\<open>srp_create_target()\<close> with \<^verbatim>\<open>srp_add_target()\<close>.

  What the kernel knows about the machine is a record \<open>srp_topology\<close>. The results of \<^verbatim>\<open>ib_query_gid()\<close>, \<^verbatim>\<open>scsi_add_host()\<close> and
  \<^verbatim>\<open>srp_rport_add()\<close> and the effect of \<^verbatim>\<open>scsi_scan_target()\<close>, which sends commands through \<^verbatim>\<open>srp_queuecommand()\<close>, are arguments.
\<close>

section \<open>The HCA\<close>

text \<open>The members of \<^verbatim>\<open>struct ib_device_attr\<close> that are used; \<open>attr_mem_mgt_ext\<close> is the flag \<^verbatim>\<open>IB_DEVICE_MEM_MGT_EXTENSIONS\<close>.\<close>

record ib_device_attr =
  attr_page_size_cap :: u64
  attr_max_mr_size :: u64
  attr_max_fast_reg_page_list_len :: u32
  attr_mem_mgt_ext :: bool

definition ffs :: "u32 \<Rightarrow> nat" where
  "ffs w = (case List.find (bit w) [0..<32] of None \<Rightarrow> 0 | Some i \<Rightarrow> i + 1)"

definition srp_mr_page_shift :: "ib_device_attr \<Rightarrow> nat" where
  "srp_mr_page_shift attr = nat (max 12 (int (ffs (ucast (attr_page_size_cap attr))) - 1))"

definition srp_init_device :: "bool \<Rightarrow> bool \<Rightarrow> ib_device_attr \<Rightarrow> nat \<Rightarrow> srp_device" where
  "srp_init_device prefer_fr has_fmr attr mr =
     (let has_fr = attr_mem_mgt_ext attr;
          use_fast_reg = (has_fr \<and> (\<not> has_fmr \<or> prefer_fr));
          mr_page_size = s32 (2 ^ srp_mr_page_shift attr);
          max_pages = min (word_of_int SRP_MAX_PAGES_PER_MR) (attr_max_mr_size attr div ucast (word_of_int mr_page_size :: u32));
          max_pages_per_mr =
            (if use_fast_reg then uint (min (ucast max_pages) (attr_max_fast_reg_page_list_len attr)) else uint max_pages)
      in \<lparr>dev_mr = Some mr, dev_mr_page_mask = NOT (word_of_int mr_page_size - 1), dev_mr_page_size = mr_page_size,
          dev_mr_max_size = s32 (mr_page_size * max_pages_per_mr), dev_max_pages_per_mr = max_pages_per_mr,
          dev_has_fmr = has_fmr, dev_has_fr = has_fr, dev_use_fast_reg = use_fast_reg\<rparr>)"

section \<open>Module parameters\<close>

text \<open>The first part of \<^verbatim>\<open>srp_init_module()\<close>: the new \<^verbatim>\<open>cmd_sg_entries\<close> and \<^verbatim>\<open>indirect_sg_entries\<close>.\<close>

definition srp_init_params :: "u32 \<Rightarrow> u32 \<Rightarrow> u32 \<Rightarrow> u32 \<times> u32" where
  "srp_init_params srp_sg_tablesize cmd_sg_entries indirect_sg_entries =
     (let c1 = (if srp_sg_tablesize \<noteq> 0 \<and> cmd_sg_entries = 0 then srp_sg_tablesize else cmd_sg_entries);
          c2 = (if c1 = 0 then word_of_int SRP_DEF_SG_TABLESIZE else c1);
          c3 = (if 255 < c2 then 255 else c2)
      in (c3, if indirect_sg_entries = 0 then c3 else if indirect_sg_entries < c3 then c3 else indirect_sg_entries))"

section \<open>SCSI device queues\<close>

datatype qdepth_reason = SCSI_QDEPTH_DEFAULT | SCSI_QDEPTH_QFULL | SCSI_QDEPTH_RAMP_UP | SCSI_QDEPTH_other nat

datatype qdepth_call = Scsi_adjust_queue_depth int | Scsi_track_queue_full int

text \<open>The call of the SCSI core that is made, or the error.\<close>

definition srp_change_queue_depth :: "srp_target_port \<Rightarrow> bool \<Rightarrow> int \<Rightarrow> qdepth_reason \<Rightarrow> int + qdepth_call" where
  "srp_change_queue_depth t tagged_supported qdepth reason =
     (if reason = SCSI_QDEPTH_DEFAULT \<or> reason = SCSI_QDEPTH_RAMP_UP
      then let max_depth = (if tagged_supported then tgt_can_queue t else 1)
           in Inr (Scsi_adjust_queue_depth (if max_depth < qdepth then max_depth else qdepth))
      else if reason = SCSI_QDEPTH_QFULL then Inr (Scsi_track_queue_full qdepth)
      else Inl (- EOPNOTSUPP))"

section \<open>A new target port\<close>

record srp_topology =
  online_nodes :: "nat list"
  online_cpus :: "nat list"
  possible_cpus :: "nat list"
  cpu_to_node :: "nat \<Rightarrow> nat"
  nr_cpu_ids :: nat
  num_comp_vectors :: nat

record srp_sg_params =
  cmd_sg_entries :: u32
  indirect_sg_entries :: u32
  allow_ext_sg :: bool
  par_ch_count :: nat

text \<open>The members that are set before the options are parsed. \<^verbatim>\<open>scsi_host_alloc()\<close> clears the others and takes
  \<^verbatim>\<open>can_queue\<close> and \<^verbatim>\<open>cmd_per_lun\<close> from \<^verbatim>\<open>srp_template\<close>; 1024 is its default for \<^verbatim>\<open>max_sectors\<close>.\<close>

definition srp_new_target :: "srp_sg_params \<Rightarrow> u32 \<Rightarrow> u32 \<Rightarrow> srp_target_port" where
  "srp_new_target P lkey rkey =
     \<lparr>tgt_ch = [], tgt_ch_mem = None, tgt_mq_map = [], tgt_mq_mem = None, tgt_ch_count = 0, tgt_lkey = lkey, tgt_rkey = rkey,
      tgt_state = SRP_TARGET_SCANNING, tgt_max_iu_len = 0, tgt_cmd_sg_cnt = cmd_sg_entries P, tgt_indirect_size = 0,
      tgt_allow_ext_sg = allow_ext_sg P, tgt_sgid = zeros 16, tgt_id_ext = zeros 8, tgt_ioc_guid = zeros 8,
      tgt_initiator_ext = zeros 8, tgt_io_class = SRP_REV16A_IB_IO_CLASS,
      tgt_sg_tablesize = (if indirect_sg_entries P \<noteq> 0 then indirect_sg_entries P else cmd_sg_entries P),
      tgt_queue_size = SRP_DEFAULT_QUEUE_SIZE, tgt_req_ring_size = 0, tgt_comp_vector = 0, tgt_tl_retry_count = 2,
      tgt_using_rdma_cm = False, tgt_dst = zeros 32, tgt_rq_tmo_jiffies = 0, tgt_zero_req_lim = 0,
      tgt_tl_err_work = False, tgt_remove_work = False, tgt_rport = False, tgt_qp_in_error = False,
      tgt_can_queue = SRP_DEFAULT_CMD_SQ_SIZE, tgt_cmd_per_lun = SRP_DEFAULT_CMD_SQ_SIZE, tgt_max_sectors = 1024\<rparr>"

text \<open>The target ports of the same host, and the new one, which is not yet one of them.\<close>

definition srp_conn_unique :: "srp_target_port list \<Rightarrow> srp_target_port \<Rightarrow> bool" where
  "srp_conn_unique targets target \<longleftrightarrow> tgt_state target \<noteq> SRP_TARGET_REMOVED \<and>
     list_all (\<lambda>t. \<not> (tgt_id_ext target = tgt_id_ext t \<and> tgt_ioc_guid target = tgt_ioc_guid t \<and>
                      tgt_initiator_ext target = tgt_initiator_ext t)) targets"

text \<open>The members that follow from the options.\<close>

definition srp_target_limits :: "srp_device \<Rightarrow> srp_target_port \<Rightarrow> srp_target_port" where
  "srp_target_limits dev t =
     (let n = (if \<not> dev_has_fmr dev \<and> \<not> dev_has_fr dev \<and> \<not> tgt_allow_ext_sg t \<and> tgt_cmd_sg_cnt t < tgt_sg_tablesize t
               then tgt_cmd_sg_cnt t else tgt_sg_tablesize t)
      in t\<lparr>tgt_sg_tablesize := n, tgt_indirect_size := n * of_nat sizeof_srp_direct_buf,
           tgt_max_iu_len := of_nat sizeof_srp_cmd + of_nat sizeof_srp_indirect_buf + tgt_cmd_sg_cnt t * of_nat sizeof_srp_direct_buf\<rparr>)"

definition srp_ch_count :: "srp_sg_params \<Rightarrow> srp_topology \<Rightarrow> nat" where
  "srp_ch_count P T =
     max (length (online_nodes T))
       (min (if par_ch_count P \<noteq> 0 then par_ch_count P else min (4 * length (online_nodes T)) (num_comp_vectors T))
         (length (online_cpus T)))"

definition zeroed_ch :: srp_rdma_ch where
  "zeroed_ch = \<lparr>ch_free_tx = [], ch_free_reqs = [], ch_req_lim = 0, ch_target = False, ch_send_cq = None, ch_recv_cq = None,
     ch_qp = None, ch_fmr_pool = None, ch_fr_pool = None, ch_done = False, ch_status = 0,
     ch_path = \<lparr>path_sgid = zeros 16, path_dgid = zeros 16, path_pkey = zeros 2, path_service_id = zeros 8,
       path_dlid = zeros 2, path_numb_path = 0\<rparr>,
     ch_cm_id = None, ch_tx_mem = None, ch_tx_ring = [], ch_rx_mem = None, ch_rx_ring = [], ch_req_mem = None, ch_req_ring = [],
     ch_max_ti_iu_len = 0, ch_max_it_iu_len = 0, ch_buf_fmt = 0, ch_comp_vector = 0, ch_tsk_mgmt_done = False,
     ch_tsk_mgmt_status = 0, ch_connected = False\<rparr>"

section \<open>The channels of a target port\<close>

text \<open>The C remainder, which has the sign of the dividend. An HCA has at least one completion vector and the machine at least one
  online node, so that no divisor below is 0.\<close>

definition c_rem :: "int \<Rightarrow> int \<Rightarrow> int" where
  "c_rem a b = (if 0 \<le> a then a mod abs b else - ((- a) mod abs b))"

definition ch_bound :: "nat \<Rightarrow> nat \<Rightarrow> nat \<Rightarrow> nat" where
  "ch_bound node_idx ch_count nodes = node_idx * ch_count div nodes"

definition cv_bound :: "nat \<Rightarrow> srp_topology \<Rightarrow> int \<Rightarrow> int" where
  "cv_bound node_idx T comp_vector =
     c_rem (s32 (int (node_idx * num_comp_vectors T div length (online_nodes T)) + comp_vector)) (int (num_comp_vectors T))"

definition srp_pick_vector :: "int \<Rightarrow> int \<Rightarrow> nat \<Rightarrow> int" where
  "srp_pick_vector cv_start cv_end cpu_idx =
     (if cv_start = cv_end then cv_start else cv_start + c_rem (int cpu_idx) (cv_end - cv_start))"

definition srp_pick_ch :: "nat \<Rightarrow> nat \<Rightarrow> nat \<Rightarrow> nat" where
  "srp_pick_ch ch_start ch_end cpu_idx =
     (if ch_start = ch_end then ch_start else ch_start + cpu_idx mod (ch_end - ch_start))"

text \<open>The part of the loop body before \<^verbatim>\<open>srp_connect_ch()\<close>.\<close>

definition srp_setup_ch :: "'e verbs \<Rightarrow> nat \<Rightarrow> int \<Rightarrow> 'e srp_state \<Rightarrow> int \<times> 'e srp_state" where
  "srp_setup_ch V c cv s =
     (case srp_new_cm_id V c (upd_ch c (\<lambda>ch. ch\<lparr>ch_target := True, ch_comp_vector := cv, ch_free_tx := []\<rparr>) s) of
        (ret, s1) \<Rightarrow>
          if ret \<noteq> 0 then (ret, s1)
          else case srp_create_ch_ib V c s1 of
            (ret, s2) \<Rightarrow> if ret \<noteq> 0 then (ret, s2) else srp_alloc_req_data V c s2)"

text \<open>The ways to leave the loops: to \<^verbatim>\<open>err_disconnect\<close>, to \<^verbatim>\<open>connected\<close> and to the next round. An entry of
  \<^verbatim>\<open>mq_map\<close> is held as its unsigned reading.\<close>

datatype 'e ch_setup =
    Setup_Failed int "'e srp_state"
  | Setup_Connected int "'e srp_state"
  | Setup_Next int bool "'e srp_state"

definition set_mq_map :: "nat \<Rightarrow> nat \<Rightarrow> 'e srp_state \<Rightarrow> 'e srp_state" where
  "set_mq_map cpu v s = upd_tgt (\<lambda>t. t\<lparr>tgt_mq_map := (tgt_mq_map t)[cpu := v]\<rparr>) s"

abbreviation as_entry :: "int \<Rightarrow> nat" where
  "as_entry v \<equiv> nat (v mod 2 ^ 32)"

text \<open>When a channel after the first one cannot be connected, the target port is used with the channels before it. The
  elements of \<^verbatim>\<open>target->ch\<close> from the number of channels on, which are not used any more, are dropped.\<close>

definition srp_drop_ch :: "'e verbs \<Rightarrow> nat \<Rightarrow> nat \<Rightarrow> int \<Rightarrow> 'e srp_state \<Rightarrow> 'e srp_state" where
  "srp_drop_ch V c cpu first_cpu s =
     upd_tgt (\<lambda>t. t\<lparr>tgt_ch_count := c, tgt_ch := take c (tgt_ch t)\<rparr>)
       (set_mq_map cpu (as_entry first_cpu) (srp_free_req_data c (srp_free_ch_ib V c s)))"

fun srp_setup_cpus ::
    "'e verbs \<Rightarrow> srp_topology \<Rightarrow> nat \<Rightarrow> nat \<Rightarrow> nat \<times> nat \<Rightarrow> int \<times> int \<Rightarrow> nat list \<Rightarrow> nat \<Rightarrow> int \<Rightarrow> bool \<Rightarrow>
     'e srp_state \<Rightarrow> 'e ch_setup" where
  "srp_setup_cpus V T node_idx node chs cvs [] cpu_idx first_cpu multich s = Setup_Next first_cpu multich s"
| "srp_setup_cpus V T node_idx node (ch_start, ch_end) (cv_start, cv_end) (cpu # cpus) cpu_idx first_cpu multich s =
     (if cpu_to_node T cpu \<noteq> node
      then srp_setup_cpus V T node_idx node (ch_start, ch_end) (cv_start, cv_end) cpus cpu_idx first_cpu multich s
      else
        (let first = (if first_cpu < 0 then int cpu else first_cpu);
             s1 = set_mq_map cpu (srp_pick_ch ch_start ch_end cpu_idx) s;
             c = ch_start + cpu_idx
         in if ch_end \<le> c
            then srp_setup_cpus V T node_idx node (ch_start, ch_end) (cv_start, cv_end) cpus cpu_idx first multich s1
            else case srp_setup_ch V c (srp_pick_vector cv_start cv_end cpu_idx) s1 of
              (ret, s2) \<Rightarrow>
                if ret \<noteq> 0 then Setup_Failed ret s2
                else case srp_connect_ch V c multich s2 of
                  (ret, s3) \<Rightarrow>
                    if ret \<noteq> 0
                    then if node_idx = 0 \<and> cpu_idx = 0 then Setup_Failed ret s3
                         else Setup_Connected first (srp_drop_ch V c cpu first s3)
                    else srp_setup_cpus V T node_idx node (ch_start, ch_end) (cv_start, cv_end) cpus (cpu_idx + 1) first True s3))"

fun srp_setup_nodes ::
    "'e verbs \<Rightarrow> srp_topology \<Rightarrow> nat \<Rightarrow> nat list \<Rightarrow> int \<Rightarrow> bool \<Rightarrow> 'e srp_state \<Rightarrow> 'e ch_setup" where
  "srp_setup_nodes V T node_idx [] first_cpu multich s = Setup_Next first_cpu multich s"
| "srp_setup_nodes V T node_idx (node # nodes) first_cpu multich s =
     (let n = length (online_nodes T); ch_count = tgt_ch_count (st_target s); comp_vector = tgt_comp_vector (st_target s)
      in case srp_setup_cpus V T node_idx node (ch_bound node_idx ch_count n, ch_bound (node_idx + 1) ch_count n)
                (cv_bound node_idx T comp_vector, cv_bound (node_idx + 1) T comp_vector)
                (online_cpus T) 0 first_cpu multich s of
           Setup_Next first multich s1 \<Rightarrow> srp_setup_nodes V T (node_idx + 1) nodes first multich s1
         | r \<Rightarrow> r)"

text \<open>The code at \<^verbatim>\<open>connected\<close> that completes \<^verbatim>\<open>mq_map\<close>.\<close>

definition srp_finish_map :: "srp_topology \<Rightarrow> int \<Rightarrow> 'e srp_state \<Rightarrow> 'e srp_state" where
  "srp_finish_map T first_cpu s =
     (if first_cpu \<noteq> 0
      then fold (\<lambda>cpu s. if tgt_mq_map (st_target s) ! cpu = 0 then set_mq_map cpu (as_entry first_cpu) s else s) (possible_cpus T) s
      else s)"

section \<open>Adding the target port\<close>

text \<open>\<open>add_host\<close> is the result of \<^verbatim>\<open>scsi_add_host()\<close>, \<open>rport_add\<close> the error of \<^verbatim>\<open>srp_rport_add()\<close> or 0, and \<open>scan\<close> what
  \<^verbatim>\<open>scsi_scan_target()\<close> does to the state. The names given to the SCSI core, the host's list of target ports and
  \<^verbatim>\<open>scsi_remove_host()\<close> on a host without devices are not part of the state.\<close>

definition srp_add_target ::
    "int \<Rightarrow> int \<Rightarrow> ('e srp_state \<Rightarrow> 'e srp_state) \<Rightarrow> 'e srp_state \<Rightarrow> int \<times> 'e srp_state" where
  "srp_add_target add_host rport_add scan s =
     (let s1 = upd_tgt (\<lambda>t. t\<lparr>tgt_state := SRP_TARGET_SCANNING\<rparr>) s
      in if add_host \<noteq> 0 then (- ENODEV, s1)
         else if rport_add \<noteq> 0 then (rport_add, s1)
         else
           (let s2 = scan (upd_tgt (\<lambda>t. t\<lparr>tgt_rport := True\<rparr>) s1); t = st_target s2
            in if srp_connected_ch t < tgt_ch_count t \<or> tgt_qp_in_error t
               then (0, upd_tgt (\<lambda>t. snd (srp_queue_remove_work t)) s2)
               else (0, upd_tgt (\<lambda>t. if tgt_state t = SRP_TARGET_SCANNING then t\<lparr>tgt_state := SRP_TARGET_LIVE\<rparr> else t) s2)))"

text \<open>The code at \<^verbatim>\<open>err_disconnect\<close>.\<close>

definition srp_undo_target :: "'e verbs \<Rightarrow> 'e srp_state \<Rightarrow> 'e srp_state" where
  "srp_undo_target V s =
     (let s1 = fold (\<lambda>i s. srp_free_req_data i (srp_free_ch_ib V i s)) [0..<tgt_ch_count (st_target s)] (srp_disconnect_target V s)
      in upd_hw (kfree_opt (tgt_ch_mem (st_target s1)) (kfree_opt (tgt_mq_mem (st_target s1)) (st_hw s1))) s1)"

text \<open>\<open>env_host_alloc\<close> tells whether \<^verbatim>\<open>scsi_host_alloc()\<close> succeeds.\<close>

record 'e add_env =
  env_host_alloc :: bool
  env_query_gid :: "int \<times> u8 list"
  env_add_host :: int
  env_rport_add :: int
  env_scan :: "'e srp_state \<Rightarrow> 'e srp_state"

text \<open>The part of \<^verbatim>\<open>srp_create_target()\<close> from the allocation of the channels on.\<close>

definition srp_bring_up ::
    "'e verbs \<Rightarrow> srp_topology \<Rightarrow> 'e add_env \<Rightarrow> nat \<Rightarrow> int \<Rightarrow> 'e srp_state \<Rightarrow> int \<times> 'e srp_state" where
  "srp_bring_up V T A n ret_ok s =
     (let s0 = upd_tgt (\<lambda>t. t\<lparr>tgt_ch_count := n\<rparr>) s
      in case kzalloc V (n * v_sizeof V T_srp_rdma_ch) (st_hw s0) of
        (None, h1) \<Rightarrow> (- ENOMEM, upd_hw h1 s0)
      | (Some p, h1) \<Rightarrow>
          (case kzalloc V (nr_cpu_ids T * 4) h1 of
             (None, h2) \<Rightarrow> (- ENOMEM, upd_hw (kfree p h2) s0)
           | (Some q, h2) \<Rightarrow>
               (let s1 = upd_hw h2 (upd_tgt (\<lambda>t. t\<lparr>tgt_ch := replicate n zeroed_ch, tgt_ch_mem := Some p,
                           tgt_mq_map := replicate (nr_cpu_ids T) 0, tgt_mq_mem := Some q\<rparr>) s0);
                    connected = (\<lambda>first_cpu s. case srp_add_target (env_add_host A) (env_rport_add A) (env_scan A) (srp_finish_map T first_cpu s) of
                      (ret, s') \<Rightarrow> if ret \<noteq> 0 then (ret, srp_undo_target V s') else (ret_ok, s'))
                in case srp_setup_nodes V T 0 (online_nodes T) (- 1) False s1 of
                     Setup_Failed ret s2 \<Rightarrow> (ret, srp_undo_target V s2)
                   | Setup_Connected first_cpu s2 \<Rightarrow> connected first_cpu s2
                   | Setup_Next first_cpu _ s2 \<Rightarrow> connected first_cpu s2)))"

text \<open>\<open>s\<close> has the device, the module parameters and the environment; its target port is replaced. The keys are those of
  \<^verbatim>\<open>srp_dev->mr\<close>, \<open>targets\<close> are the other target ports of the host.\<close>

definition srp_create_target ::
    "'e verbs \<Rightarrow> in4_pton \<Rightarrow> srp_topology \<Rightarrow> srp_sg_params \<Rightarrow> 'e add_env \<Rightarrow> u32 \<times> u32 \<Rightarrow> srp_target_port list \<Rightarrow> string \<Rightarrow>
     'e srp_state \<Rightarrow> int \<times> 'e srp_state" where
  "srp_create_target V pton T P A keys targets buf s =
     (if \<not> env_host_alloc A then (- ENOMEM, s)
      else case srp_parse_options V pton buf (srp_new_target P (fst keys) (snd keys)) (st_hw s) of
        (ret, t1, h1) \<Rightarrow>
          (let t2 = t1\<lparr>tgt_req_ring_size := s32 (tgt_queue_size t1 - SRP_TSK_MGMT_SQ_SIZE)\<rparr>;
               s1 = (\<lambda>t. upd_hw h1 (upd_tgt (\<lambda>_. t) s))
           in if ret \<noteq> 0 then (ret, s1 t1)
              else if \<not> srp_conn_unique targets t2 then (- EEXIST, s1 t2)
              else
                (let t3 = srp_target_limits (st_dev s) t2
                 in if fst (env_query_gid A) \<noteq> 0 then (fst (env_query_gid A), s1 t3)
                    else srp_bring_up V T A (srp_ch_count P T) (int (length buf))
                           (s1 (t3\<lparr>tgt_sgid := snd (env_query_gid A)\<rparr>)))))"

end
