(* ===== verification/SRP_Relations.thy ===== *)
theory SRP_Relations
  imports SRP_Connect
begin

text \<open>
  What may happen while the driver waits. A thread of the driver that sleeps lets the RDMA core call
  \<^verbatim>\<open>srp_ib_cm_handler()\<close>, \<^verbatim>\<open>srp_recv_completion()\<close> and the other handlers on any channel. A relation between states that
  is closed under the elementary updates of these handlers is closed under waiting and under every operation that
  waits; this is proved once, in a locale, and used for several relations: commands are only completed
  (\<open>settled\<close>), and links only go down together with a report to the transport class (\<open>links_kept\<close>); a third is in \<open>SRP_Bring_Up\<close>.
\<close>

section \<open>Relations that are kept by the handlers\<close>

named_theorems keeps \<open>operations that stay in a relation on the states\<close>

locale driver_relation =
  fixes V :: "'e verbs" and R :: "'e srp_state \<Rightarrow> 'e srp_state \<Rightarrow> bool"
  assumes R_refl: "R s s"
    and R_trans: "\<lbrakk>R r s; R s t\<rbrakk> \<Longrightarrow> R r t"
    and R_hw: "R s (upd_hw h s)"
    and R_fault: "R s (fault x s)"
    and R_tl_err: "R s (upd_tgt (\<lambda>t. t\<lparr>tgt_tl_err_work := True\<rparr>) s)"
    and R_qp_in_error: "R s (upd_tgt (\<lambda>t. t\<lparr>tgt_qp_in_error := b\<rparr>) s)"
    and R_zero_req_lim: "R s (upd_tgt (\<lambda>t. t\<lparr>tgt_zero_req_lim := z t\<rparr>) s)"
    and R_can_queue: "R s (upd_tgt (\<lambda>t. t\<lparr>tgt_can_queue := q t, tgt_cmd_per_lun := q' t\<rparr>) s)"
    and R_rq_tmo: "R s (upd_tgt (\<lambda>t. t\<lparr>tgt_rq_tmo_jiffies := u\<rparr>) s)"
    and R_ch: "\<lbrakk>ch_req_ring (f (chan s c)) = ch_req_ring (chan s c);
        ch_free_reqs (f (chan s c)) = ch_free_reqs (chan s c);
        ch_connected (chan s c) \<Longrightarrow> ch_connected (f (chan s c))\<rbrakk> \<Longrightarrow> R s (upd_ch c f s)"
    and R_dreq: "R s (upd_tgt (\<lambda>t. t\<lparr>tgt_tl_err_work := True\<rparr>) (upd_ch c (\<lambda>ch. ch\<lparr>ch_connected := False\<rparr>) s))"
    and R_process_rsp: "c < nch s \<Longrightarrow> R s (srp_process_rsp V c rsp s)"
    and R_nch: "R s t \<Longrightarrow> nch t = nch s"
begin

lemma R_upd [keeps]:
  "R r s \<Longrightarrow> R r (upd_hw h s)"
  "R r s \<Longrightarrow> R r (fault x s)"
  "R r s \<Longrightarrow> R r (upd_tgt (\<lambda>t. t\<lparr>tgt_tl_err_work := True\<rparr>) s)"
  "R r s \<Longrightarrow> R r (upd_tgt (\<lambda>t. t\<lparr>tgt_qp_in_error := b\<rparr>) s)"
  "R r s \<Longrightarrow> R r (upd_tgt (\<lambda>t. t\<lparr>tgt_zero_req_lim := z t\<rparr>) s)"
  "R r s \<Longrightarrow> R r (upd_tgt (\<lambda>t. t\<lparr>tgt_can_queue := q t, tgt_cmd_per_lun := q' t\<rparr>) s)"
  "R r s \<Longrightarrow> R r (upd_tgt (\<lambda>t. t\<lparr>tgt_rq_tmo_jiffies := u\<rparr>) s)"
  by (erule R_trans, rule R_hw R_fault R_tl_err R_qp_in_error R_zero_req_lim R_can_queue R_rq_tmo)+

lemma R_upd_ch [keeps]:
  assumes "R r s" "ch_req_ring (f (chan s c)) = ch_req_ring (chan s c)"
    "ch_free_reqs (f (chan s c)) = ch_free_reqs (chan s c)"
    "ch_connected (chan s c) \<Longrightarrow> ch_connected (f (chan s c))"
  shows "R r (upd_ch c f s)"
  using assms(1) by (rule R_trans) (rule R_ch; fact assms(2-))

lemma R_upd_tx [keeps]: "R r s \<Longrightarrow> R r (upd_tx c i f s)"
  unfolding upd_tx_def by (rule keeps) simp_all

lemma R_fold [keeps]:
  assumes "\<And>x s. x \<in> set xs \<Longrightarrow> R s (f x s)" and "R r s"
  shows "R r (fold f xs s)"
  using assms
proof (induction xs arbitrary: s)
  case (Cons x xs)
  then have "R r (f x s)" by (meson list.set_intros(1) R_trans)
  then show ?case using Cons by simp
qed simp

text \<open>Rules for results that come with a status.\<close>

lemma R_if: "\<lbrakk>R r (snd x); R r (snd y)\<rbrakk> \<Longrightarrow> R r (snd (if b then x else y))"
  by simp

lemma R_pair: "R r s \<Longrightarrow> R r (snd (a, s))"
  by simp

lemma R_prod: "\<lbrakk>R r (snd p); \<And>a s. R r s \<Longrightarrow> R r (snd (f a s))\<rbrakk> \<Longrightarrow> R r (snd (case p of (a, s) \<Rightarrow> f a s))"
  by (simp add: split_beta)

lemma R_then: "\<lbrakk>R r (snd p); \<And>a s. R r s \<Longrightarrow> R r (f a s)\<rbrakk> \<Longrightarrow> R r (case p of (a, s) \<Rightarrow> f a s)"
  by (simp add: split_beta)

subsection \<open>Completions\<close>

lemma R_handle_qp_err [keeps]: "R r s \<Longrightarrow> R r (srp_handle_qp_err w c s)"
  by (auto simp: srp_handle_qp_err_def intro!: keeps)

lemma R_handle_send [keeps]: "R r s \<Longrightarrow> R r (srp_handle_send c wc s)"
  by (auto simp: srp_handle_send_def intro!: keeps split: option.split)

lemma R_send_completion [keeps]: "R r s \<Longrightarrow> R r (srp_send_completion V c s)"
  by (auto simp: srp_send_completion_def intro!: keeps R_refl split: option.split prod.split)

lemma R_put_tx_iu [keeps]: "R r s \<Longrightarrow> R r (srp_put_tx_iu c i ty s)"
  by (auto simp: srp_put_tx_iu_def intro!: keeps)

lemma R_get_tx_iu [keeps]: "R r s \<Longrightarrow> R r (snd (srp_get_tx_iu V c ty s))"
  by (auto simp: srp_get_tx_iu_def Let_def intro!: keeps split: list.split)

lemma R_post_send [keeps]: "R r s \<Longrightarrow> R r (snd (srp_post_send V c i len s))"
  by (auto simp: srp_post_send_def Let_def intro!: keeps split: option.split prod.split)

lemma R_post_recv [keeps]: "R r s \<Longrightarrow> R r (snd (srp_post_recv V c i s))"
  by (auto simp: srp_post_recv_def Let_def intro!: keeps split: option.split prod.split)

lemma R_add_credits [keeps]: "R r s \<Longrightarrow> R r (srp_add_credits c d s)"
  by (auto simp: srp_add_credits_def intro!: keeps)

lemma R_response_common [keeps]: "R r s \<Longrightarrow> R r (snd (srp_response_common V c d b s))"
  by (auto simp: srp_response_common_def split_beta intro!: keeps split: option.split)

lemma R_handle_recv:
  assumes "c < nch s"
  shows "R s (srp_handle_recv V c wc s)"
proof (cases "find_iu (wc_wr_id wc) (ch_rx_ring (chan s c))")
  case (Some i)
  define s0 where "s0 = upd_ch c (\<lambda>ch. ch\<lparr>ch_rx_ring := (ch_rx_ring ch)[i := (ch_rx_ring ch ! i)\<lparr>iu_buf :=
    write_bytes 0 (wc_data wc) (iu_buf (ch_rx_ring ch ! i))\<rparr>]\<rparr>) s"
  have s0: "R s s0" unfolding s0_def by (rule R_ch) simp_all
  have "c < nch s0" using assms R_nch [OF s0] by simp
  then have rsp: "R s (srp_process_rsp V c rsp s0)" for rsp by (rule R_trans [OF s0 R_process_rsp])
  show ?thesis unfolding srp_handle_recv_def Some option.case Let_def s0_def [symmetric]
    by (auto intro!: keeps rsp s0 simp: srp_process_cred_req_def srp_process_aer_req_def)
qed (auto simp: srp_handle_recv_def intro!: keeps R_refl)

lemma R_recv_completion:
  assumes "c < nch s"
  shows "R s (srp_recv_completion V c wcs s)"
  unfolding srp_recv_completion_def
  using assms
proof (induction wcs arbitrary: s)
  case (Cons wc wcs)
  let ?s1 = "if wc_success wc then srp_handle_recv V c wc s else srp_handle_qp_err (wc_wr_id wc) c s"
  have s1: "R s ?s1" using R_handle_recv [OF Cons.prems] by (auto intro: keeps R_refl)
  have "c < nch ?s1" using Cons.prems R_nch [OF s1] by simp
  from R_trans [OF s1 Cons.IH [OF this]] show ?case by simp
qed (simp add: R_refl)

subsection \<open>Connection management events\<close>

lemma R_post_recvs [keeps]: "R r s \<Longrightarrow> R r (snd (srp_post_recvs V c is s))"
proof (induction "is" arbitrary: s)
  case (Cons i "is")
  have "R r (snd (srp_post_recv V c i s))" using Cons.prems by (rule keeps)
  then show ?case using Cons.IH by (simp add: split_beta)
qed simp

lemma R_alloc_iu_bufs [keeps]: "R r s \<Longrightarrow> R r (snd (srp_alloc_iu_bufs V c s))"
  by (auto simp: srp_alloc_iu_bufs_def Let_def split_beta intro!: keeps split: option.split bool.split)

lemma R_move_qp_rts [keeps]: "R r s \<Longrightarrow> R r (snd (srp_move_qp_rts V c i qp s))"
  by (auto simp: srp_move_qp_rts_def Let_def split_beta intro!: keeps)

lemma R_cm_rep_handler [keeps]: "R r s \<Longrightarrow> R r (srp_cm_rep_handler V i lrsp c s)"
  unfolding srp_cm_rep_handler_def Let_def
proof (rule R_then, goal_cases)
  case 1
  then show ?case
    by (intro R_if R_pair R_prod) (auto simp: split_beta intro!: keeps split: option.split)
next
  case (2 ret s')
  then show ?case by (intro keeps) simp_all
qed

lemma R_ib_cm_rej_handler [keeps]: "R r s \<Longrightarrow> R r (srp_ib_cm_rej_handler V reason ari c s)"
  by (auto simp: srp_ib_cm_rej_handler_def Let_def intro!: keeps split: option.split)

lemma R_disconnected:
  assumes "R r s"
  shows "R r (upd_tgt (\<lambda>t. t\<lparr>tgt_tl_err_work := True\<rparr>) (upd_hw h (upd_ch c (\<lambda>ch. ch\<lparr>ch_connected := False\<rparr>) s)))"
    "R r (upd_tgt (\<lambda>t. t\<lparr>tgt_tl_err_work := True\<rparr>) (fault x (upd_ch c (\<lambda>ch. ch\<lparr>ch_connected := False\<rparr>) s)))"
proof -
  have "upd_hw h (upd_ch c f s) = upd_ch c f (upd_hw h s)" "fault x (upd_ch c f s) = upd_ch c f (fault x s)" for f
    by (simp_all add: upd_defs fault_def split: option.split)
  then show "R r (upd_tgt (\<lambda>t. t\<lparr>tgt_tl_err_work := True\<rparr>) (upd_hw h (upd_ch c (\<lambda>ch. ch\<lparr>ch_connected := False\<rparr>) s)))"
    "R r (upd_tgt (\<lambda>t. t\<lparr>tgt_tl_err_work := True\<rparr>) (fault x (upd_ch c (\<lambda>ch. ch\<lparr>ch_connected := False\<rparr>) s)))"
    using assms R_trans R_dreq R_upd(1,2) by metis+
qed

lemma R_ib_cm_handler [keeps]: "R r s \<Longrightarrow> R r (srp_ib_cm_handler V c ev s)"
proof (cases ev)
  case IB_CM_DREQ_RECEIVED
  then show "R r s \<Longrightarrow> ?thesis" by (simp add: Let_def R_disconnected split: option.split)
qed (auto intro!: keeps)

lemma R_rdma_cm_handler [keeps]: "R r s \<Longrightarrow> R r (srp_rdma_cm_handler V c ev s)"
  by (cases ev) (auto simp: srp_rdma_cm_rej_handler_def intro!: keeps split: option.split)

lemma R_upcall: "R s (srp_upcall V cu s)"
  by (auto simp: srp_upcall_def srp_path_rec_completion_def intro!: keeps R_refl R_recv_completion
      split: prod.split upcall.split)

subsection \<open>Operations that wait\<close>

lemma R_sleep [keeps]: "R r s \<Longrightarrow> R r (srp_sleep V c s)"
  by (auto simp: srp_sleep_def split_beta intro!: keeps R_upcall)

lemma R_wait [keeps]:
  "R r s \<Longrightarrow> R r (snd (wait_done_interruptible V c s))"
  "R r s \<Longrightarrow> R r (wait_done V c s)"
  by (auto simp: wait_done_interruptible_def wait_done_def Let_def intro!: keeps)

lemma R_send_tsk_mgmt [keeps]: "R r s \<Longrightarrow> R r (snd (srp_send_tsk_mgmt V c tag lun func s))"
  unfolding srp_send_tsk_mgmt_def Let_def split_beta
  by (auto intro!: keeps split: option.split)

lemma R_new_cm_id [keeps]: "R r s \<Longrightarrow> R r (snd (srp_new_cm_id V c s))"
  unfolding srp_new_cm_id_def srp_new_rdma_cm_id_def srp_new_ib_cm_id_def Let_def split_beta
  by (auto intro!: keeps split: option.split sum.split)

lemma R_destroy_qp [keeps]: "R r s \<Longrightarrow> R r (srp_destroy_qp V c s)"
  unfolding srp_destroy_qp_def Let_def split_beta
  by (auto intro!: keeps split: option.split)

lemma R_replace_pool [keeps]: "R r s \<Longrightarrow> R r (snd (srp_replace_pool V c s))"
  unfolding srp_replace_pool_def Let_def split_beta
  by (auto intro!: keeps split: sum.split)

lemma R_create_ch_ib [keeps]: "R r s \<Longrightarrow> R r (snd (srp_create_ch_ib V c s))"
  unfolding srp_create_ch_ib_def Let_def split_beta
  by (auto intro!: keeps split: option.split sum.split)

lemma R_renew_ch [keeps]: "R r s \<Longrightarrow> R r (snd (srp_renew_ch V c s))"
  unfolding srp_renew_ch_def Let_def split_beta by (auto intro!: keeps)

lemma R_lookup_path [keeps]: "R r s \<Longrightarrow> R r (snd (srp_lookup_path V c s))"
  unfolding srp_lookup_path_def srp_rdma_lookup_path_def srp_ib_lookup_path_def Let_def split_beta
  by (auto intro!: keeps split: option.split)

lemma R_send_req [keeps]: "R r s \<Longrightarrow> R r (snd (srp_send_req V c multich s))"
  unfolding srp_send_req_def Let_def split_beta
  by (auto intro!: keeps split: option.split)

lemma R_sum_status [keeps]:
  assumes "\<And>c s. R s (snd (f c s))" and "R r (snd x)"
  shows "R r (snd (sum_status f cs x))"
  using assms(2)
proof (induction cs arbitrary: x)
  case Nil
  then show ?case by (cases x) simp
next
  case (Cons c cs)
  obtain ret s where x: "x = (ret, s)" by fastforce
  have "R r (snd (f c s))" using Cons.prems R_trans [OF _ assms(1)] x by simp
  then show ?case using Cons.IH x by (simp add: split_beta)
qed

text \<open>One round of the loop of \<^verbatim>\<open>srp_connect_ch()\<close>.\<close>

lemma R_connect_round:
  assumes IH: "\<And>s y. loop V c multich s = Some y \<Longrightarrow> R s (snd y)"
    and body: "(case srp_send_req V c multich (init_done c s) of
        (ret, s1) \<Rightarrow>
          if ret \<noteq> 0 then Some (ret, s1)
          else case wait_done_interruptible V c s1 of
            (ret, s2) \<Rightarrow>
              if ret < 0 then Some (ret, s2)
              else let status = ch_status (chan s2 c) in
                if status = 0 then Some (0, upd_ch c (\<lambda>ch. ch\<lparr>ch_connected := True\<rparr>) s2)
                else if status = SRP_PORT_REDIRECT
                then (case srp_lookup_path V c s2 of
                        (ret, s3) \<Rightarrow> if ret \<noteq> 0 then Some (ret, s3) else loop V c multich s3)
                else if status = SRP_DLID_REDIRECT then loop V c multich s2
                else if status = SRP_STALE_CONN then Some (- ECONNRESET, set_status c (- ECONNRESET) s2)
                else Some (status, s2)) = Some x"
  shows "R s (snd x)"
proof -
  obtain r1 s1 where 1: "srp_send_req V c multich (init_done c s) = (r1, s1)" by fastforce
  obtain r2 s2 where 2: "wait_done_interruptible V c s1 = (r2, s2)" by fastforce
  obtain r3 s3 where 3: "srp_lookup_path V c s2 = (r3, s3)" by fastforce
  have "R s (init_done c s)" by (rule R_ch) simp_all
  then have k1: "R s s1" using R_send_req [of s "init_done c s" c multich] 1 by simp
  then have k2: "R s s2" using R_wait(1) [of s s1 c] 2 by simp
  then have k3: "R s s3" using R_lookup_path [of s s2 c] 3 by simp
  have loop: "R s (snd x)" if "R s t" "loop V c multich t = Some x" for t
    using R_trans [OF that(1) IH [OF that(2)]] .
  have "R s (upd_ch c (\<lambda>ch. ch\<lparr>ch_connected := True\<rparr>) s2)" "R s (set_status c (- ECONNRESET) s2)"
    by (rule R_upd_ch [OF k2]; simp)+
  then show ?thesis
    using body by (auto simp: 1 2 3 k1 k2 k3 Let_def intro: loop [OF k2] loop [OF k3] split: if_splits)
qed

lemma R_connect_loop:
  assumes "srp_connect_loop V c multich s = Some x"
  shows "R s (snd x)"
proof -
  have "V = V \<longrightarrow> R s (snd x)"
  proof (rule srp_connect_loop.raw_induct [where P = "\<lambda>V' c multich s x. V' = V \<longrightarrow> R s (snd x)", OF _ assms], rule impI, goal_cases)
    case (1 loop V' c multich s x)
    show ?case by (rule R_connect_round [where loop = loop, OF 1(1) [rule_format, OF _ refl] 1(2) [unfolded 1(3)]])
  qed
  then show ?thesis by simp
qed

lemma R_connect_ch [keeps]:
  assumes "R r s"
  shows "R r (snd (srp_connect_ch V c multich s))"
proof -
  obtain r1 s1 where 1: "srp_lookup_path V c s = (r1, s1)" by fastforce
  have "R r s1" using R_lookup_path [OF assms, of c] 1 by simp
  moreover have "R r (snd x)" if "srp_connect_loop V c multich s1 = Some x" for x
    using R_trans [OF calculation R_connect_loop [OF that]] .
  ultimately show ?thesis
    by (auto simp: srp_connect_ch_def 1 intro: keeps split: option.split)
qed

lemma R_connect_all [keeps]: "R r s \<Longrightarrow> R r (snd (srp_connect_all V cs multich s))"
proof (induction cs arbitrary: s multich)
  case (Cons c cs)
  have "R r (snd (srp_connect_ch V c multich s))" using Cons.prems by (rule keeps)
  then show ?case using Cons.IH by (simp add: split_beta)
qed simp

end

section \<open>Commands are only completed\<close>

interpretation stl: driver_relation V settled for V
proof unfold_locales
  show "settled s (queue_tl_err (upd_ch c (\<lambda>ch. ch\<lparr>ch_connected := False\<rparr>) s))" for s :: "'a srp_state" and c
    by (rule settled_upd(5) [OF settled_upd_ch]) simp_all
qed (auto intro: settles settled_trans dest: settled_nch)

section \<open>Links go down with a report\<close>

text \<open>A channel that is connected stays connected, or the work that tells the transport class about the
  failure (\<^verbatim>\<open>tl_err_work\<close>) has been queued.\<close>

definition links_kept :: "'e srp_state \<Rightarrow> 'e srp_state \<Rightarrow> bool" where
  "links_kept s s' \<longleftrightarrow> nch s' = nch s \<and>
     (tgt_tl_err_work (st_target s) \<longrightarrow> tgt_tl_err_work (st_target s')) \<and>
     (\<forall>c < nch s. ch_connected (chan s c) \<longrightarrow> ch_connected (chan s' c) \<or> tgt_tl_err_work (st_target s'))"

lemma tl_err_upd [simp]:
  "tgt_tl_err_work (st_target (upd_ch c f s)) = tgt_tl_err_work (st_target s)"
  "tgt_tl_err_work (st_target (upd_req c i f' s)) = tgt_tl_err_work (st_target s)"
  "tgt_tl_err_work (st_target (upd_tx c i f'' s)) = tgt_tl_err_work (st_target s)"
  "tgt_tl_err_work (st_target (upd_cmd m g s)) = tgt_tl_err_work (st_target s)"
  "tgt_tl_err_work (st_target (upd_hw h s)) = tgt_tl_err_work (st_target s)"
  "tgt_tl_err_work (st_target (scsi_done m s)) = tgt_tl_err_work (st_target s)"
  "tgt_tl_err_work (st_target (fault x s)) = tgt_tl_err_work (st_target s)"
  "tgt_tl_err_work (st_target (upd_tgt k s)) = tgt_tl_err_work (k (st_target s))"
  by (simp_all add: upd_defs fault_def split: option.split)

lemma links_trans: "\<lbrakk>links_kept r s; links_kept s t\<rbrakk> \<Longrightarrow> links_kept r t"
  by (auto simp: links_kept_def)

lemma connected_upd [simp]:
  "ch_connected (chan (upd_req c i f s) d) = ch_connected (chan s d)"
  "(ch_connected (chan s c) \<Longrightarrow> ch_connected (g (chan s c))) \<Longrightarrow>
     ch_connected (chan s d) \<Longrightarrow> ch_connected (chan (upd_ch c g s) d)"
proof -
  show "ch_connected (chan (upd_req c i f s) d) = ch_connected (chan s d)"
    by (cases "c < nch s") (simp_all, simp add: upd_defs list_update_beyond)
next
  assume "ch_connected (chan s c) \<Longrightarrow> ch_connected (g (chan s c))" "ch_connected (chan s d)"
  then show "ch_connected (chan (upd_ch c g s) d)"
    by (cases "c < nch s") (auto simp: upd_defs list_update_beyond nth_list_update)
qed

lemma links_upd:
  "links_kept s (upd_req c i f' s)"
  "links_kept s (upd_cmd m g s)"
  "links_kept s (upd_hw h s)"
  "links_kept s (scsi_done m s)"
  "links_kept s (fault x s)"
  "(\<And>t. tgt_ch (k t) = tgt_ch t) \<Longrightarrow> (\<And>t. tgt_tl_err_work t \<Longrightarrow> tgt_tl_err_work (k t)) \<Longrightarrow> links_kept s (upd_tgt k s)"
  by (simp_all add: links_kept_def)

lemma links_upd_ch:
  "(ch_connected (chan s c) \<Longrightarrow> ch_connected (f (chan s c))) \<Longrightarrow> links_kept s (upd_ch c f s)"
  by (simp add: links_kept_def)

lemma links_free_req: "links_kept s (srp_free_req V c i m d s)"
  unfolding srp_free_req_def srp_unmap_req_def Let_def split_beta
  by (intro links_trans [OF _ links_upd_ch] links_trans [OF _ links_upd(6)] links_upd) simp_all

lemma links_claim_req: "links_kept s (snd (srp_claim_req c i sdev scmnd s))"
  by (auto simp: srp_claim_req_def intro: links_upd split: option.split) (simp_all add: links_kept_def)

lemma links_step:
  "links_kept r s \<Longrightarrow> links_kept r (upd_cmd m g s)"
  "links_kept r s \<Longrightarrow> links_kept r (scsi_done m s)"
  "links_kept r s \<Longrightarrow> links_kept r (fault x s)"
  "links_kept r s \<Longrightarrow> links_kept r (srp_free_req V c i m d s)"
  "links_kept r s \<Longrightarrow> links_kept r (snd (srp_claim_req c i sdev scmnd s))"
  "links_kept r s \<Longrightarrow> links_kept r (srp_copy_sense m rsp s)"
  by (rule links_trans, assumption,
      auto simp: srp_copy_sense_def Let_def intro: links_upd links_free_req links_claim_req)+

lemma links_step_ch:
  "\<lbrakk>links_kept r s; ch_connected (chan s c) \<Longrightarrow> ch_connected (f (chan s c))\<rbrakk> \<Longrightarrow> links_kept r (upd_ch c f s)"
  by (erule links_trans) (rule links_upd_ch)

lemma links_refl: "links_kept s s"
  by (simp add: links_kept_def)

lemma links_process_rsp: "links_kept s (srp_process_rsp V c rsp s)"
proof -
  have "links_kept s (snd (if b then srp_claim_req c i None None s else (None, s)))" for b i
    by (simp add: links_claim_req links_refl)
  then show ?thesis
    unfolding srp_process_rsp_def Let_def split_beta srp_add_credits_def
    by (auto intro!: links_step links_step_ch links_refl split: option.split)
qed

interpretation lnk: driver_relation V links_kept for V
  by unfold_locales
     (rule links_process_rsp | erule (1) links_trans | simp add: links_kept_def)+

section \<open>Commands after an operation\<close>

lemma settled_abort:
  "settled s (snd (srp_abort V rst m s))"
proof (cases "sc_scribble (st_cmds s m)")
  case (Some p)
  obtain rc i where p: "p = (rc, i)" by fastforce
  let ?tag = "req_tag (ch_req_ring (chan s rc) ! i)"
  let ?c = "unat (srp_tag_ch ?tag)"
  show ?thesis
  proof (cases "rc < nch s \<and> i < length (ch_req_ring (chan s rc)) \<and> ?c < tgt_ch_count (st_target s) \<and> ?c = rc")
    case True
    obtain r s1 where cl: "srp_claim_req rc i None (Some m) s = (r, s1)" by fastforce
    show ?thesis
    proof (cases r)
      case None
      then show ?thesis using True cl Some p settled_claim_none [OF cl [unfolded None]] by (simp add: srp_abort_def Let_def)
    next
      case (Some m')
      then have m': "m' = m" using cl by (auto simp: srp_claim_req_def split: if_splits option.splits)
      let ?g = "\<lambda>x. x\<lparr>sc_quiet := True, sc_result := DID_ABORT * 2 ^ 16\<rparr>"
      obtain r2 s2 where tm: "srp_send_tsk_mgmt V rc (ucast ?tag) (sc_lun (st_cmds s m)) SRP_TSK_ABORT_TASK s1 = (r2, s2)"
        by fastforce
      have "settled s1 s2" using stl.R_send_tsk_mgmt [OF settled_refl] tm by (metis snd_conv)
      then have "settled s (scsi_done m (srp_free_req V rc i m 0 s2))"
        using claim_and_finish cl Some m' True by blast
      then have "settled s (upd_cmd m ?g (scsi_done m (srp_free_req V rc i m 0 s2)))" by (rule settles)
      moreover have "upd_cmd m ?g (scsi_done m t) = scsi_done m (upd_cmd m ?g t)" for t :: "'a srp_state"
        by (simp add: upd_cmd_def scsi_done_def)
      ultimately show ?thesis using True cl Some m' tm \<open>sc_scribble (st_cmds s m) = Some p\<close> p
        by (simp add: srp_abort_def Let_def)
    qed
  next
    case False
    then show ?thesis using Some p by (auto simp: srp_abort_def Let_def intro: settles)
  qed
qed (simp add: srp_abort_def)

end
