(* ===== verification/SRP_Reconnect.thy ===== *)
theory SRP_Reconnect
  imports SRP_Relations
begin

text \<open>
  What \<^verbatim>\<open>ib_srp\<close> promises the transport class: \<^verbatim>\<open>srp_terminate_io()\<close> and a successful \<^verbatim>\<open>srp_rport_reconnect()\<close> leave no
  command with the driver, and after a successful reconnect every channel is connected unless its failure has
  already been reported. The locale \<open>srp_lld\<close> of the transport class is interpreted on these callbacks.
\<close>

section \<open>Finishing the requests of a channel\<close>

lemma map_filter_None: "(\<And>x. x \<in> set xs \<Longrightarrow> f x = None) \<Longrightarrow> List.map_filter f xs = []"
  by (induction xs) simp_all

lemma sum_list_empty: "(\<And>x. x \<in> set xs \<Longrightarrow> f x = {#}) \<Longrightarrow> sum_list (map f xs) = {#}"
  by (induction xs) simp_all

lemma idle_outstanding:
  assumes "\<And>c. c < nch s \<Longrightarrow> owned (chan s c) = {}"
  shows "outstanding s = {#}"
proof -
  have "ch_cmds ch = {#}" if ch: "ch \<in> set (tgt_ch (st_target s))" for ch
  proof -
    obtain c where c: "c < nch s" "ch = chan s c" using ch by (metis in_set_conv_nth)
    have "req_scmnd r = None" if "r \<in> set (ch_req_ring ch)" for r
      using that assms [OF c(1)] c(2) by (auto simp: owned_def in_set_conv_nth)
    then show ?thesis by (simp add: ch_cmds_def map_filter_None)
  qed
  then show ?thesis unfolding outstanding_def by (rule sum_list_empty)
qed

lemma finish_req_owned:
  assumes "c < nch s" "i < length (ch_req_ring (chan s c))"
  shows "i \<notin> owned (chan (srp_finish_req V c None result i s) c)"
  using assms by (simp add: srp_finish_req_def srp_claim_req_def split: option.split) (simp add: owned_def)

lemma finish_fold_owned:
  assumes "reqs_inv K s" "c < nch s" "\<And>i. i \<in> set is \<Longrightarrow> i < ring_size s" "i \<in> set is"
  shows "i \<notin> owned (chan (fold (srp_finish_req V c None result) is s) c)"
  using assms
proof (induction "is" arbitrary: s)
  case (Cons j js)
  let ?s1 = "srp_finish_req V c None result j s"
  let ?t = "fold (srp_finish_req V c None result) js ?s1"
  have s1: "settled s ?s1" by (rule settled_finish_req [OF Cons.prems(2)])
  then have inv1: "reqs_inv K ?s1" using Cons.prems(1) by (elim settledD)
  have c1: "c < nch ?s1" using Cons.prems(2) settled_nch [OF s1] by simp
  have r1: "ring_size ?s1 = ring_size s" by (rule ring_size_static [OF settled_static [OF s1]])
  show ?case
  proof (cases "i \<in> set js")
    case True
    then show ?thesis using Cons.IH [OF inv1 c1 _ True] Cons.prems(3) r1 by simp
  next
    case False
    then have "i = j" using Cons.prems(4) by simp
    moreover have "j < length (ch_req_ring (chan s c))"
      using Cons.prems(1-3) by (simp add: reqs_inv_def reqs_ok_def)
    ultimately have "i \<notin> owned (chan ?s1 c)" using finish_req_owned [OF Cons.prems(2)] by simp
    moreover have "settled ?s1 ?t" by (rule settled_finish_fold [OF c1])
    then have "\<forall>d < nch ?s1. owned (chan ?t d) \<subseteq> owned (chan ?s1 d)" using inv1 by (elim settledD)
    ultimately show ?thesis using c1 by auto
  qed
qed simp

lemma finish_reqs_owned:
  assumes "reqs_inv K s" "c < nch s"
  shows "owned (chan (srp_finish_reqs V None result c s) c) = {}"
proof -
  let ?t = "srp_finish_reqs V None result c s"
  have t: "settled s ?t" by (rule settled_finish_reqs [OF assms(2)])
  then have "reqs_inv K ?t" using assms(1) by (elim settledD)
  then have "owned (chan ?t c) \<subseteq> {..<ring_size s}"
    using assms(2) settled_nch [OF t] ring_size_static [OF settled_static [OF t]]
    by (auto simp: reqs_inv_def reqs_ok_def owned_def)
  moreover have "i \<notin> owned (chan ?t c)" if "i < ring_size s" for i
    unfolding srp_finish_reqs_def
    by (rule finish_fold_owned [OF assms]) (use that in \<open>simp_all add: ring_size_def\<close>)
  ultimately show ?thesis by blast
qed

lemma finish_all_owned:
  assumes "reqs_inv K s" "\<And>c. c \<in> set cs \<Longrightarrow> c < nch s" "c \<in> set cs"
  shows "owned (chan (fold (srp_finish_reqs V None result) cs s) c) = {}"
  using assms
proof (induction cs arbitrary: s)
  case (Cons d ds)
  let ?s1 = "srp_finish_reqs V None result d s"
  let ?t = "fold (srp_finish_reqs V None result) ds ?s1"
  have d: "d < nch s" using Cons.prems(2) by simp
  have s1: "settled s ?s1" by (rule settled_finish_reqs [OF d])
  then have inv1: "reqs_inv K ?s1" using Cons.prems(1) by (elim settledD)
  have n1: "nch ?s1 = nch s" by (rule settled_nch [OF s1])
  show ?case
  proof (cases "c \<in> set ds")
    case True
    then show ?thesis using Cons.IH [OF inv1 _ True] Cons.prems(2) n1 by simp
  next
    case False
    then have c: "c = d" using Cons.prems(3) by simp
    have "settled ?s1 ?t" by (rule settled_fold_ch) (use Cons.prems(2) n1 in \<open>auto intro: settled_finish_reqs\<close>)
    then have "\<forall>d < nch ?s1. owned (chan ?t d) \<subseteq> owned (chan ?s1 d)" using inv1 by (elim settledD)
    then show ?thesis using finish_reqs_owned [OF Cons.prems(1) d] c d n1 by auto
  qed
qed simp

section \<open>The promises to the transport class\<close>

text \<open>The invariant of the driver's state: every channel of the target is in use, and every request is on the
  free list of its channel or in use for a command.\<close>

definition target_inv :: "'e srp_state \<Rightarrow> bool" where
  "target_inv s \<longleftrightarrow> tgt_ch_count (st_target s) = nch s \<and> reqs_inv no_claims s"

text \<open>Every channel is connected, or the failure of a channel has been reported with \<^verbatim>\<open>tl_err_work\<close>.\<close>

definition links_up :: "'e srp_state \<Rightarrow> bool" where
  "links_up s \<longleftrightarrow> (\<forall>c < tgt_ch_count (st_target s). ch_connected (chan s c)) \<or> tgt_tl_err_work (st_target s)"

lemma target_inv_count: "target_inv s \<Longrightarrow> tgt_ch_count (st_target s) = nch s"
  by (simp add: target_inv_def)

lemma target_inv_settled: "settled s s' \<Longrightarrow> target_inv s \<Longrightarrow> target_inv s'"
  using staticD(3,4) [OF settled_static] by (fastforce simp: target_inv_def elim: settledD)

lemma terminate_io_idle:
  assumes "target_inv s"
  shows "target_inv (srp_terminate_io V s)" "outstanding (srp_terminate_io V s) = {#}"
proof -
  have s: "settled s (srp_terminate_io V s)" using assms by (intro settled_terminate_io) (simp add: target_inv_def)
  then show "target_inv (srp_terminate_io V s)" using assms by (rule target_inv_settled)
  show "outstanding (srp_terminate_io V s) = {#}"
  proof (rule idle_outstanding)
    fix c assume "c < nch (srp_terminate_io V s)"
    then have "c \<in> set [0..<tgt_ch_count (st_target s)]" using settled_nch [OF s] assms by (simp add: target_inv_def)
    then show "owned (chan (srp_terminate_io V s) c) = {}"
      unfolding srp_terminate_io_def using assms by (intro finish_all_owned) (auto simp: target_inv_def)
  qed
qed

lemma disconnect_target_settled: "settled s (srp_disconnect_target V s)"
  unfolding srp_disconnect_target_def srp_disconnect_ch_def Let_def
  by (auto intro!: settles settled_refl split: option.split)

lemma settled_qp_ok: "settled s (upd_tgt (\<lambda>t. t\<lparr>tgt_qp_in_error := b\<rparr>) s)"
  by (rule settles) simp

text \<open>The stages of \<^verbatim>\<open>srp_rport_reconnect()\<close>: new identifiers, nothing outstanding, new queue pairs, and
  the logins.\<close>

lemma reconnect_stages:
  obtains s1 r2 s2 s3 r4 s4 where
    "settled s s1" "settled s1 s2"
    "s3 = fold (srp_finish_reqs V None (DID_RESET * 2 ^ 16)) [0..<tgt_ch_count (st_target s)] s2"
    "settled s3 s4"
    "srp_rport_reconnect V s =
       (if tgt_state (st_target s1) = SRP_TARGET_SCANNING then (- ENODEV, s1)
        else if r4 \<noteq> 0 then (r4, s4) else srp_connect_all V [0..<tgt_ch_count (st_target s)] False s4)"
proof -
  let ?cs = "[0..<tgt_ch_count (st_target s)]"
  define s1 where "s1 = srp_disconnect_target V s"
  obtain r2 s2 where 2: "sum_status (srp_new_cm_id V) ?cs (0, s1) = (r2, s2)" by fastforce
  define s3 where "s3 = fold (srp_finish_reqs V None (DID_RESET * 2 ^ 16)) ?cs s2"
  obtain r4 t where 4: "sum_status (srp_renew_ch V) ?cs (r2, s3) = (r4, t)" by fastforce
  have "settled s1 s2" using stl.R_sum_status [of "srp_new_cm_id V" s1 "(0, s1)" ?cs] 2
    by (simp add: stl.R_new_cm_id)
  moreover have "settled s3 t" using stl.R_sum_status [of "srp_renew_ch V" s3 "(r2, s3)" ?cs] 4
    by (simp add: stl.R_renew_ch)
  then have "settled s3 (upd_tgt (\<lambda>t. t\<lparr>tgt_qp_in_error := False\<rparr>) t)" by (rule settled_upd)
  moreover have "srp_rport_reconnect V s =
       (if tgt_state (st_target s1) = SRP_TARGET_SCANNING then (- ENODEV, s1)
        else if r4 \<noteq> 0 then (r4, upd_tgt (\<lambda>t. t\<lparr>tgt_qp_in_error := False\<rparr>) t)
        else srp_connect_all V ?cs False (upd_tgt (\<lambda>t. t\<lparr>tgt_qp_in_error := False\<rparr>) t))"
    unfolding srp_rport_reconnect_def Let_def s1_def [symmetric] 2 prod.case s3_def [symmetric] 4 ..
  ultimately show thesis
    using that [OF disconnect_target_settled, of V s2 s3] s1_def s3_def by blast
qed

lemma connect_loop_connects:
  assumes "srp_connect_loop V c multich s = Some x" "c < nch s" "fst x = 0"
  shows "ch_connected (chan (snd x) c)"
proof -
  have "c < nch s \<longrightarrow> fst x = 0 \<longrightarrow> ch_connected (chan (snd x) c)"
  proof (rule srp_connect_loop.raw_induct [where P = "\<lambda>V c multich s x. c < nch s \<longrightarrow> fst x = 0 \<longrightarrow> ch_connected (chan (snd x) c)", OF _ assms(1)],
      intro impI, goal_cases)
    case (1 loop V c multich s x)
    obtain r1 s1 where e1: "srp_send_req V c multich (init_done c s) = (r1, s1)" by fastforce
    obtain r2 s2 where e2: "wait_done_interruptible V c s1 = (r2, s2)" by fastforce
    obtain r3 s3 where e3: "srp_lookup_path V c s2 = (r3, s3)" by fastforce
    have "settled s (init_done c s)" by (rule settled_upd_ch) simp_all
    then have k1: "settled s s1" using stl.R_send_req [of s "init_done c s" V c multich] e1 by simp
    then have k2: "settled s s2" using stl.R_wait(1) [of s s1 V c] e2 by simp
    then have k3: "settled s s3" using stl.R_lookup_path [of s s2 V c] e3 by simp
    have n: "c < nch s2" "c < nch s3" using settled_nch k2 k3 1(3) by metis+
    have loop: "ch_connected (chan (snd x) c)" if "loop V c multich t = Some x" "c < nch t" for t
      using 1(1) [OF that(1)] that(2) 1(4) by simp
    show ?case
      using 1(2) 1(4) n(1)
      by (auto simp: e1 e2 e3 Let_def intro: loop [OF _ n(1)] loop [OF _ n(2)] split: if_splits)
  qed
  then show ?thesis using assms by simp
qed

lemma connect_ch_connects:
  assumes "srp_connect_ch V c multich s = (0, s')" "c < nch s"
  shows "ch_connected (chan s' c)"
proof -
  obtain r1 s1 where 1: "srp_lookup_path V c s = (r1, s1)" by fastforce
  have "settled s s1" using stl.R_lookup_path [OF settled_refl, of s V c] 1 by simp
  then have "c < nch s1" using assms(2) by (simp add: settled_nch)
  then show ?thesis
    using assms(1) connect_loop_connects [of V c multich s1 "(0, s')"]
    by (auto simp: srp_connect_ch_def 1 split: if_splits option.splits)
qed

lemma connect_all_connects:
  assumes "srp_connect_all V cs multich s = (0, s')" "\<And>c. c \<in> set cs \<Longrightarrow> c < nch s" "c \<in> set cs"
  shows "ch_connected (chan s' c) \<or> tgt_tl_err_work (st_target s')"
  using assms
proof (induction cs arbitrary: s multich)
  case (Cons d ds)
  obtain r1 s1 where 1: "srp_connect_ch V d multich s = (r1, s1)" by fastforce
  have r1: "r1 = 0" and all: "srp_connect_all V ds True s1 = (0, s')"
    using Cons.prems(1) by (auto simp: 1 split: if_splits)
  have n1: "nch s1 = nch s" using stl.R_connect_ch [OF settled_refl, of s V d multich] 1 by (simp add: settled_nch)
  show ?case
  proof (cases "c \<in> set ds")
    case True
    then show ?thesis using Cons.IH [OF all _ True] Cons.prems(2) n1 by simp
  next
    case False
    then have "c = d" "d < nch s" using Cons.prems(2,3) by simp_all
    then have "ch_connected (chan s1 c)" using connect_ch_connects 1 r1 by blast
    moreover have "links_kept s1 s'" using lnk.R_connect_all [OF links_refl, of s1 V ds True] all by simp
    ultimately show ?thesis using \<open>c = d\<close> \<open>d < nch s\<close> n1 by (auto simp: links_kept_def)
  qed
qed simp

lemma reconnect_settled:
  assumes "tgt_ch_count (st_target s) \<le> nch s"
  shows "settled s (snd (srp_rport_reconnect V s))"
proof (rule reconnect_stages [of s V])
  fix s1 s2 s3 s4 r4
  let ?cs = "[0..<tgt_ch_count (st_target s)]"
  assume st: "settled s s1" "settled s1 s2" "settled s3 s4"
    and s3: "s3 = fold (srp_finish_reqs V None (DID_RESET * 2 ^ 16)) ?cs s2"
    and rec: "srp_rport_reconnect V s = (if tgt_state (st_target s1) = SRP_TARGET_SCANNING then (- ENODEV, s1)
        else if r4 \<noteq> 0 then (r4, s4) else srp_connect_all V ?cs False s4)"
  have "settled s s2" using st settled_trans by blast
  moreover have "settled s2 s3" unfolding s3
    by (rule settled_fold_ch) (use assms settled_nch [OF calculation] in \<open>auto intro: settled_finish_reqs\<close>)
  ultimately have s4: "settled s s4" using st(3) settled_trans by blast
  then have "settled s (snd (srp_connect_all V ?cs False s4))" by (rule stl.R_connect_all)
  with s4 st(1) show ?thesis by (simp add: rec)
qed

lemma reconnect_connects:
  assumes "target_inv s" "fst (srp_rport_reconnect V s) = 0"
  shows "links_up (snd (srp_rport_reconnect V s))" "outstanding (snd (srp_rport_reconnect V s)) = {#}"
proof -
  have cnt: "tgt_ch_count (st_target s) = nch s" and inv: "reqs_inv no_claims s" using assms(1) by (simp_all add: target_inv_def)
  let ?cs = "[0..<tgt_ch_count (st_target s)]"
  obtain s1 r2 s2 s3 r4 s4 where st: "settled s s1" "settled s1 s2" "settled s3 s4"
    and s3: "s3 = fold (srp_finish_reqs V None (DID_RESET * 2 ^ 16)) ?cs s2"
    and rec: "srp_rport_reconnect V s = (if tgt_state (st_target s1) = SRP_TARGET_SCANNING then (- ENODEV, s1)
        else if r4 \<noteq> 0 then (r4, s4) else srp_connect_all V ?cs False s4)"
    by (rule reconnect_stages [of s V]) blast
  have e: "srp_rport_reconnect V s = srp_connect_all V ?cs False s4" using rec assms(2) by (auto split: if_splits)
  let ?t = "snd (srp_rport_reconnect V s)"
  have t: "srp_connect_all V ?cs False s4 = (0, ?t)" using assms(2) e by (metis prod.collapse)
  have s2: "settled s s2" using st settled_trans by blast
  then have inv2: "reqs_inv no_claims s2" using inv by (elim settledD)
  have n2: "nch s2 = nch s" by (rule settled_nch [OF s2])
  have s23: "settled s2 s3" unfolding s3
    by (rule settled_fold_ch) (use cnt n2 in \<open>auto intro: settled_finish_reqs\<close>)
  then have inv3: "reqs_inv no_claims s3" using inv2 by (elim settledD)
  have n3: "nch s3 = nch s" using settled_nch [OF s23] n2 by simp
  have n4: "nch s4 = nch s" using settled_nch [OF st(3)] n3 by simp
  have s3t: "settled s3 ?t" unfolding e by (rule stl.R_connect_all [OF st(3)])
  then have sub: "\<forall>d < nch s3. owned (chan ?t d) \<subseteq> owned (chan s3 d)" using inv3 by (elim settledD)
  have nt: "nch ?t = nch s" using settled_nch [OF s3t] n3 by simp
  have ct: "tgt_ch_count (st_target ?t) = tgt_ch_count (st_target s)"
    by (rule staticD(4) [OF settled_static [OF reconnect_settled]]) (simp add: cnt)
  show "outstanding ?t = {#}"
  proof (rule idle_outstanding)
    fix c assume "c < nch ?t"
    then have c: "c < nch s" using nt by simp
    then have "owned (chan s3 c) = {}"
      unfolding s3 by (intro finish_all_owned [OF inv2]) (use n2 cnt in auto)
    then show "owned (chan ?t c) = {}" using sub c n3 by auto
  qed
  have "ch_connected (chan ?t c) \<or> tgt_tl_err_work (st_target ?t)" if "c < nch s" for c
    by (rule connect_all_connects [OF t]) (use that n4 cnt in simp_all)
  then show "links_up ?t" by (auto simp: links_up_def ct cnt)
qed

lemma rport_delete_inv: "target_inv s \<Longrightarrow> target_inv (srp_rport_delete s)"
  by (simp add: target_inv_def srp_rport_delete_def srp_queue_remove_work_def) (simp add: upd_tgt_def)

interpretation lld: srp_lld "ib_srp_transport_functions V rd fi dl" target_inv "\<lambda>s. outstanding s = {#}" links_up
  for V :: "'e verbs" and rd fi dl
  by unfold_locales
     (auto simp: ib_srp_transport_functions_def terminate_io_idle reconnect_connects rport_delete_inv
       intro!: target_inv_settled [OF reconnect_settled] dest: eq_imp_le [OF target_inv_count])

end
