(* ===== verification/SRP_Once.thy ===== *)
theory SRP_Once
  imports SRP_Reconnect
begin

text \<open>
  The driver and the transport class together: a step relation in which \<^verbatim>\<open>srp_queuecommand()\<close>, the handlers the
  RDMA core calls, the SCSI error handlers and the operations of the transport class interleave in any order,
  and what every run of it does to the commands. A run is labelled with the commands
  that the driver has accepted, that is for which \<^verbatim>\<open>srp_queuecommand()\<close> returned 0.
\<close>

section \<open>Commands are not lost and not completed twice\<close>

text \<open>\<open>completes s s'\<close>: the calls of \<^verbatim>\<open>scsi_done()\<close> since \<open>s\<close> are for commands that were held in \<open>s\<close> and are not held
  in \<open>s'\<close>.\<close>

definition completes :: "'e srp_state \<Rightarrow> 'e srp_state \<Rightarrow> bool" where
  "completes s s' \<longleftrightarrow> (st_fault s \<noteq> None \<longrightarrow> st_fault s' \<noteq> None) \<and>
     (\<exists>ds. st_done s' = st_done s @ ds \<and> outstanding s = outstanding s' + mset ds)"

lemma completes_refl [simp]: "completes s s"
  by (simp add: completes_def)

lemma completes_trans: "\<lbrakk>completes r s; completes s t\<rbrakk> \<Longrightarrow> completes r t"
proof -
  assume a: "completes r s" "completes s t"
  then obtain ds es where "st_done s = st_done r @ ds" "outstanding r = outstanding s + mset ds"
      "st_done t = st_done s @ es" "outstanding s = outstanding t + mset es" by (auto simp: completes_def)
  then have "st_done t = st_done r @ (ds @ es) \<and> outstanding r = outstanding t + mset (ds @ es)" by (simp add: ac_simps)
  then show "completes r t" using a unfolding completes_def by metis
qed

lemma settled_completes: "settled s s' \<Longrightarrow> target_inv s \<Longrightarrow> completes s s'"
  unfolding completes_def target_inv_def settled_def by blast

lemma keeps_history:
  assumes "settled l l'" "target_inv l \<and> completes l0 l"
  shows "target_inv l' \<and> completes l0 l'"
  using assms target_inv_settled settled_completes completes_trans by blast

lemma rport_delete_history:
  assumes "target_inv l \<and> completes l0 l"
  shows "target_inv (srp_rport_delete l) \<and> completes l0 (srp_rport_delete l)"
proof -
  have "completes l (srp_rport_delete l)"
    by (simp add: completes_def srp_rport_delete_def srp_queue_remove_work_def)
  then show ?thesis using assms rport_delete_inv completes_trans by blast
qed

text \<open>The operations of the transport class extend the history of the commands.\<close>

interpretation hist: srp_lld "ib_srp_transport_functions V rd fi dl" "\<lambda>l. target_inv l \<and> completes l0 l" "\<lambda>_. True" "\<lambda>_. True"
  for V :: "'e verbs" and rd fi dl l0
proof unfold_locales
  show "target_inv (snd (rc l)) \<and> completes l0 (snd (rc l))"
    if "f_reconnect (ib_srp_transport_functions V rd fi dl) = Some rc" "target_inv l \<and> completes l0 l" for rc l
    using that by (auto simp: ib_srp_transport_functions_def target_inv_count intro!: keeps_history [OF reconnect_settled])
  show "(target_inv (t l) \<and> completes l0 (t l)) \<and> True"
    if "f_terminate_rport_io (ib_srp_transport_functions V rd fi dl) = Some t" "target_inv l \<and> completes l0 l" for t l
    using that by (auto simp: ib_srp_transport_functions_def target_inv_count intro!: keeps_history [OF settled_terminate_io])
  show "target_inv (del l) \<and> completes l0 (del l)"
    if "f_rport_delete (ib_srp_transport_functions V rd fi dl) = Some del" "target_inv l \<and> completes l0 l" for del l
    using that by (auto simp: ib_srp_transport_functions_def rport_delete_history)
qed (simp_all add: ib_srp_transport_functions_def)

section \<open>Steps of the whole driver\<close>

inductive srp_step ::
    "int \<Rightarrow> scsi_core \<Rightarrow> 'e verbs \<Rightarrow> 'e srp_state srp_function_template \<Rightarrow>
     'e srp_state xport \<Rightarrow> nat list \<Rightarrow> 'e srp_state xport \<Rightarrow> bool"
  for hz :: int and C :: scsi_core and V :: "'e verbs" and F :: "'e srp_state srp_function_template"
where
  transport: "xport_op hz C F x y \<Longrightarrow> srp_step hz C V F x [] y"
| tl_err_work: "tgt_tl_err_work (st_target (xp_lld x)) \<Longrightarrow> srp_step hz C V F x [] (srp_tl_err_work hz C x)"
| queuecommand:
    "\<lbrakk>sc_device (st_cmds (xp_lld x) m) < length (xp_sdevs x);
      srp_queuecommand V cpu (rp_state (xp_rport x))
        (scsi_device_blocked (xp_sdevs x ! sc_device (st_cmds (xp_lld x) m))) m (xp_lld x) = (ret, l)\<rbrakk>
     \<Longrightarrow> srp_step hz C V F x (if ret = 0 then [m] else []) (x\<lparr>xp_lld := l\<rparr>)"
| upcall: "srp_step hz C V F x [] (x\<lparr>xp_lld := srp_upcall V cu (xp_lld x)\<rparr>)"
| abort: "srp_step hz C V F x [] (x\<lparr>xp_lld := snd (srp_abort V (rp_state (xp_rport x)) m (xp_lld x))\<rparr>)"
| reset_device: "srp_step hz C V F x [] (x\<lparr>xp_lld := snd (srp_reset_device V m (xp_lld x))\<rparr>)"
| new_command:
    "m \<notin># outstanding (xp_lld x) \<Longrightarrow> srp_step hz C V F x [] (x\<lparr>xp_lld := upd_cmd m (\<lambda>_. cmnd) (xp_lld x)\<rparr>)"
| devices: "srp_step hz C V F x [] (x\<lparr>xp_sdevs := d, xp_request_fn_active := a\<rparr>)"

inductive srp_run ::
    "int \<Rightarrow> scsi_core \<Rightarrow> 'e verbs \<Rightarrow> 'e srp_state srp_function_template \<Rightarrow>
     'e srp_state xport \<Rightarrow> nat list \<Rightarrow> 'e srp_state xport \<Rightarrow> bool"
  for hz :: int and C :: scsi_core and V :: "'e verbs" and F :: "'e srp_state srp_function_template"
    and x :: "'e srp_state xport"
where
  start: "srp_run hz C V F x [] x"
| step: "\<lbrakk>srp_run hz C V F x ms y; srp_step hz C V F y ns z\<rbrakk> \<Longrightarrow> srp_run hz C V F x (ms @ ns) z"

text \<open>The whole moves the remote port in no other way than the transport class does.\<close>

lemma xport_reachable_env:
  "xport_reachable hz C F x \<Longrightarrow> xport_reachable hz C F (x\<lparr>xp_sdevs := d, xp_request_fn_active := a, xp_lld := l\<rparr>)"
  by (rule xport_reachable.step [OF _ xport_step.environment])

lemma xport_reachable_lld: "xport_reachable hz C F x \<Longrightarrow> xport_reachable hz C F (x\<lparr>xp_lld := l\<rparr>)"
  using xport_reachable_env [where d = "xp_sdevs x" and a = "xp_request_fn_active x" and l = l] by fastforce

lemma srp_step_reachable:
  "srp_step hz C V F x ms y \<Longrightarrow> xport_reachable hz C F x \<Longrightarrow> xport_reachable hz C F y"
proof (induction rule: srp_step.induct)
  case (transport x y)
  then show ?case by (blast intro: xport_reachable.step xport_step.operation)
next
  case (tl_err_work x)
  let ?x1 = "x\<lparr>xp_lld := upd_tgt (\<lambda>t. t\<lparr>tgt_tl_err_work := False\<rparr>) (xp_lld x)\<rparr>"
  have x1: "xport_reachable hz C F ?x1" using tl_err_work(2) by (rule xport_reachable_lld)
  then have "xport_reachable hz C F (srp_start_tl_fail_timers hz C ?x1)"
    by (rule xport_reachable.step) (rule xport_step.operation [OF xport_op.tl_error])
  with x1 show ?case by (simp add: srp_tl_err_work_def Let_def)
next
  case (devices x a d)
  then show ?case using xport_reachable_env [where d = d and a = a and l = "xp_lld x"] by fastforce
qed (simp_all add: xport_reachable_lld)

subsection \<open>The effect of a step on the commands\<close>

lemma settled_reset_loop:
  assumes "srp_reset_loop V sdev i s = Some t" "tgt_ch_count (st_target s) \<le> nch s"
  shows "settled s t"
proof -
  have "tgt_ch_count (st_target s) \<le> nch s \<longrightarrow> settled s t"
  proof (rule srp_reset_loop.raw_induct [where P = "\<lambda>V sdev i s t. tgt_ch_count (st_target s) \<le> nch s \<longrightarrow> settled s t", OF _ assms(1)],
      intro impI, goal_cases)
    case (1 loop V sdev i s t)
    let ?s1 = "srp_finish_reqs V (Some sdev) (DID_RESET * 2 ^ 16) i s"
    show ?case
    proof (cases "i < tgt_ch_count (st_target s)")
      case True
      then have s1: "settled s ?s1" using 1(3) by (intro settled_finish_reqs) simp
      then have "tgt_ch_count (st_target ?s1) \<le> nch ?s1"
        using 1(3) staticD(3,4) [OF settled_static [OF s1]] by simp
      then have "settled ?s1 t" using 1(1) 1(2) True by simp
      then show ?thesis by (rule settled_trans [OF s1])
    qed (use 1(2) in simp)
  qed
  then show ?thesis using assms(2) by simp
qed

lemma settled_reset_device:
  assumes "tgt_ch_count (st_target s) \<le> nch s"
  shows "settled s (snd (srp_reset_device V m s))"
proof -
  obtain r s1 where 1: "srp_send_tsk_mgmt V 0 (ucast SRP_TAG_NO_REQ) (sc_lun (st_cmds s m)) SRP_TSK_LUN_RESET s = (r, s1)"
    by fastforce
  have s1: "settled s s1" using stl.R_send_tsk_mgmt [OF settled_refl] 1 by (metis snd_conv)
  then have "tgt_ch_count (st_target s1) \<le> nch s1" using assms staticD(3,4) [OF settled_static [OF s1]] by simp
  then have "settled s s2" if "srp_reset_loop V (sc_device (st_cmds s m)) 0 s1 = Some s2" for s2
    using settled_trans [OF s1 settled_reset_loop] that by blast
  then show ?thesis using s1 settled_upd(3) [OF s1] by (auto simp: srp_reset_device_def 1 split: option.split)
qed

text \<open>What a step does: the invariant is kept, and unless something went wrong with a pointer or for ever, the
  accepted commands are added to those held, and those completed are taken from there.\<close>

definition accounted :: "nat list \<Rightarrow> 'e srp_state \<Rightarrow> 'e srp_state \<Rightarrow> bool" where
  "accounted ms s s' \<longleftrightarrow> (st_fault s \<noteq> None \<longrightarrow> st_fault s' \<noteq> None) \<and>
     (st_fault s' = None \<longrightarrow>
       (\<exists>ds. st_done s' = st_done s @ ds \<and> mset ms + outstanding s = outstanding s' + mset ds))"

lemma accounted_completes: "completes s s' \<Longrightarrow> accounted [] s s'"
  by (simp add: completes_def accounted_def)

lemma accounted_trans:
  assumes "accounted ms r s" "accounted ns s t"
  shows "accounted (ms @ ns) r t"
  unfolding accounted_def
proof (intro conjI impI)
  show "st_fault t \<noteq> None" if "st_fault r \<noteq> None" using assms that by (simp add: accounted_def)
  assume t: "st_fault t = None"
  then have "st_fault s = None" using assms(2) by (auto simp: accounted_def)
  with t assms obtain ds es where "st_done s = st_done r @ ds" "mset ms + outstanding r = outstanding s + mset ds"
      "st_done t = st_done s @ es" "mset ns + outstanding s = outstanding t + mset es"
    unfolding accounted_def by blast
  then have "st_done t = st_done r @ (ds @ es)"
      "mset (ms @ ns) + outstanding r = outstanding t + mset (ds @ es)"
    by (simp_all add: ac_simps) (metis add.assoc add.left_commute)
  then show "\<exists>ds. st_done t = st_done r @ ds \<and> mset (ms @ ns) + outstanding r = outstanding t + mset ds" by blast
qed

lemma accounted_settled:
  "settled s s' \<Longrightarrow> target_inv s \<Longrightarrow> target_inv s' \<and> accounted [] s s'"
  using target_inv_settled settled_completes accounted_completes by blast

lemma accounted_accepts:
  assumes "accepts m s s'" "target_inv s"
  shows "target_inv s' \<and> accounted [m] s s'"
proof -
  have "reqs_inv no_claims s" using assms(2) by (simp add: target_inv_def)
  then have "reqs_inv no_claims s'" "\<exists>ds. st_done s' = st_done s @ ds \<and> add_mset m (outstanding s) = outstanding s' + mset ds"
    and st: "static s' = static s" and "st_fault s \<noteq> None \<longrightarrow> st_fault s' \<noteq> None"
    using assms(1) unfolding accepts_def by blast+
  then show ?thesis using assms(2) staticD(3,4) [OF st] by (simp add: target_inv_def accounted_def)
qed

lemma accounted_queue:
  assumes "queue_result m ret s s'" "target_inv s"
  shows "target_inv s' \<and> accounted (if ret = 0 then [m] else []) s s'"
proof -
  consider "ret = 0" "accepts m s s'" | "ret = 0" "settled s s'" "st_fault s' \<noteq> None" | "ret \<noteq> 0" "settled s s'"
    using assms(1) by (auto simp: queue_result_def split: if_splits)
  then show ?thesis
  proof cases
    case 1
    then show ?thesis using accounted_accepts assms(2) by simp
  next
    case 2
    then show ?thesis using target_inv_settled [OF 2(2) assms(2)] by (auto simp: accounted_def)
  next
    case 3
    then show ?thesis using accounted_settled assms(2) by simp
  qed
qed

lemma step_effect:
  assumes "srp_step hz C V (ib_srp_transport_functions V rd fi dl) x ms y" and "target_inv (xp_lld x)"
  shows "target_inv (xp_lld y) \<and> accounted ms (xp_lld x) (xp_lld y)"
  using assms
proof (induction rule: srp_step.induct)
  case (transport x y)
  have "target_inv (xp_lld y) \<and> completes (xp_lld x) (xp_lld y)" by (rule hist.op_keeps [OF transport(1)]) (simp add: transport(2))
  then show ?case by (simp add: accounted_completes)
next
  case (tl_err_work x)
  let ?l = "upd_tgt (\<lambda>t. t\<lparr>tgt_tl_err_work := False\<rparr>) (xp_lld x)"
  have "xp_lld (srp_tl_err_work hz C x) = ?l"
    by (simp add: srp_tl_err_work_def Let_def srp_start_tl_fail_timers_def srp_start_tl_fail_timers_locked_def split_beta)
  moreover have "settled (xp_lld x) ?l" by (rule settles) simp
  ultimately show ?case using accounted_settled tl_err_work(2) by simp
next
  case (queuecommand x m cpu ret l)
  then show ?case using accounted_queue [OF SRP_Requests.queuecommand [OF queuecommand(2)]] by simp
next
  case (upcall x cu)
  then show ?case using accounted_settled [OF stl.R_upcall] by simp
next
  case (abort x m)
  then show ?case using accounted_settled [OF settled_abort] by simp
next
  case (reset_device x m)
  then have "settled (xp_lld x) (snd (srp_reset_device V m (xp_lld x)))"
    by (intro settled_reset_device) (simp add: target_inv_count)
  then show ?case using accounted_settled reset_device by simp
next
  case (new_command m x cmnd)
  have "settled (xp_lld x) (upd_cmd m (\<lambda>_. cmnd) (xp_lld x))" by (rule settles) simp
  then show ?case using accounted_settled new_command(2) by simp
next
  case (devices x a d)
  then show ?case by (simp add: accounted_completes)
qed

lemma run_effect:
  assumes "srp_run hz C V (ib_srp_transport_functions V rd fi dl) x ms y" and "target_inv (xp_lld x)"
  shows "target_inv (xp_lld y) \<and> accounted ms (xp_lld x) (xp_lld y)"
  using assms
proof (induction rule: srp_run.induct)
  case start
  then show ?case by (simp add: accounted_def)
next
  case (step ms y ns z)
  then have y: "target_inv (xp_lld y)" "accounted ms (xp_lld x) (xp_lld y)" by simp_all
  then show ?case using step_effect [OF step(2) y(1)] accounted_trans by blast
qed

section \<open>The abstract machine\<close>

text \<open>What the SCSI core relies on: a host takes commands on and completes each of them once. The state is the
  multiset of the commands the host is working on and the list of the completed ones; a step is
  labelled with the commands taken on.\<close>

type_synonym host = "nat multiset \<times> nat list"

inductive host_run :: "host \<Rightarrow> nat list \<Rightarrow> host \<Rightarrow> bool" for h :: host where
  idle: "host_run h [] h"
| accept: "host_run h ms (P, D) \<Longrightarrow> host_run h (ms @ [m]) (add_mset m P, D)"
| complete: "host_run h ms (add_mset m P, D) \<Longrightarrow> host_run h ms (P, D @ [m])"

definition abs_host :: "'e srp_state \<Rightarrow> host" where
  "abs_host s = (outstanding s, st_done s)"

lemma host_accepts: "host_run h ms (P, D) \<Longrightarrow> host_run h (ms @ ns) (mset ns + P, D)"
proof (induction ns arbitrary: ms P)
  case (Cons n ns)
  from Cons.IH [OF host_run.accept [OF Cons.prems, of n]] show ?case by simp
qed simp

lemma host_completes: "host_run h ms (P + mset ds, D) \<Longrightarrow> host_run h ms (P, D @ ds)"
proof (induction ds arbitrary: D)
  case (Cons d ds)
  then have "host_run h ms (P + mset ds, D @ [d])" by (intro host_run.complete) simp
  from Cons.IH [OF this] show ?case by simp
qed simp

lemma host_simulates:
  assumes "accounted ns s s'" "st_fault s' = None" "host_run h ms (abs_host s)"
  shows "host_run h (ms @ ns) (abs_host s')"
proof -
  obtain ds where ds: "st_done s' = st_done s @ ds" "mset ns + outstanding s = outstanding s' + mset ds"
    using assms(1,2) by (auto simp: accounted_def)
  have "host_run h (ms @ ns) (outstanding s' + mset ds, st_done s)"
    using host_accepts [OF assms(3) [unfolded abs_host_def], of ns] ds(2) by simp
  from host_completes [OF this] show ?thesis by (simp add: abs_host_def ds(1))
qed

lemma host_balance: "host_run h ms h' \<Longrightarrow> mset ms + fst h + mset (snd h) = fst h' + mset (snd h')"
  by (induction rule: host_run.induct) (simp_all add: ac_simps)

section \<open>An example\<close>

text \<open>A target with one channel, two requests and one information unit in each direction.\<close>

definition example_params :: srp_params where
  "example_params = \<lparr>topspin_workarounds = True, register_always = False, enable_imm_data = False,
     int_to_scsilun = (\<lambda>_. zeros 8), msecs_to_jiffies = (\<lambda>ms. ucast ms)\<rparr>"

definition example_ch :: srp_rdma_ch where
  "example_ch = \<lparr>ch_free_tx = [0], ch_free_reqs = [0, 1], ch_req_lim = 3, ch_target = True, ch_send_cq = Some 0,
     ch_recv_cq = Some 1, ch_qp = Some 2, ch_fmr_pool = None, ch_fr_pool = None, ch_done = False, ch_status = 0,
     ch_path = \<lparr>path_sgid = zeros 16, path_dgid = zeros 16, path_pkey = zeros 2, path_service_id = zeros 8,
       path_dlid = zeros 2, path_numb_path = 1\<rparr>,
     ch_cm_id = Some 3, ch_tx_mem = Some 4, ch_tx_ring = [example_iu 80], ch_rx_mem = Some 5,
     ch_rx_ring = [(example_iu 80)\<lparr>iu_self := 6\<rparr>], ch_req_mem = Some 7,
     ch_req_ring = [zeroed_request\<lparr>req_tag := build_srp_tag 0 0\<rparr>, zeroed_request\<lparr>req_tag := build_srp_tag 0 1\<rparr>],
     ch_max_ti_iu_len = 80, ch_max_it_iu_len = 80, ch_buf_fmt = 0, ch_comp_vector = 0,
     ch_tsk_mgmt_done = False, ch_tsk_mgmt_status = 0, ch_connected = True\<rparr>"

definition example_target :: srp_target_port where
  "example_target = \<lparr>tgt_ch = [example_ch], tgt_ch_mem = Some 8, tgt_mq_map = [0], tgt_mq_mem = Some 9,
     tgt_ch_count = 1, tgt_lkey = 1, tgt_rkey = 1, tgt_state = SRP_TARGET_LIVE, tgt_max_iu_len = 80,
     tgt_cmd_sg_cnt = 12, tgt_indirect_size = 192, tgt_allow_ext_sg = False, tgt_sgid = zeros 16,
     tgt_id_ext = zeros 8, tgt_ioc_guid = zeros 8, tgt_initiator_ext = zeros 8, tgt_io_class = SRP_REV16A_IB_IO_CLASS,
     tgt_sg_tablesize = 12, tgt_queue_size = 3, tgt_req_ring_size = 2, tgt_comp_vector = 0, tgt_tl_retry_count = 2,
     tgt_using_rdma_cm = False,
     tgt_dst = zeros 32, tgt_rq_tmo_jiffies = 0, tgt_zero_req_lim = 0, tgt_tl_err_work = False, tgt_remove_work = False,
     tgt_rport = True, tgt_qp_in_error = False, tgt_can_queue = 1, tgt_cmd_per_lun = 1, tgt_max_sectors = 0\<rparr>"

definition example_state :: "nat srp_state" where
  "example_state = \<lparr>st_target = example_target, st_dev = example_dev False, st_node_guid = zeros 8, st_mod = example_params,
     st_cmds = (\<lambda>_. (example_scmnd [])\<lparr>sc_sglist := None\<rparr>), st_done = [], st_hw = \<lparr>hw_env = 10, hw_log = []\<rparr>, st_fault = None\<rparr>"

definition example_functions :: "nat srp_state srp_function_template" where
  "example_functions = ib_srp_transport_functions (example_verbs 100) 20 15 600"

definition example_host :: "nat srp_state xport" where
  "example_host = \<lparr>xp_rport = srp_rport_init example_functions \<lparr>ids_port_id = zeros 16, ids_roles = 1\<rparr>,
     xp_sdevs = [SDEV_RUNNING], xp_request_fn_active = [0], xp_lld = example_state\<rparr>"

text \<open>The response of the target to the command with the tag 0.\<close>

definition example_rsp :: srp_rsp where
  "example_rsp = \<lparr>rsp_opcode = SRP_RSP, rsp_req_lim_delta = cpu_to_be32 1, rsp_tag = 0, rsp_flags = 0, rsp_status = 2,
     rsp_data_out_res_cnt = zeros 4, rsp_data_in_res_cnt = zeros 4, rsp_sense_data_len = zeros 4,
     rsp_resp_data_len = zeros 4, rsp_data = []\<rparr>"

abbreviation example_issued :: "nat srp_state" where
  "example_issued \<equiv> snd (srp_queuecommand (example_verbs 100) 0 SRP_RPORT_RUNNING False 7 example_state)"

definition example_completed :: "nat srp_state" where
  "example_completed = srp_upcall (example_verbs 100)
     (0, Recv_Completion [\<lparr>wc_wr_id = 6, wc_success = True, wc_data = enc_srp_rsp example_rsp\<rparr>]) example_issued"

lemma example_queue:
  "fst (srp_queuecommand (example_verbs 100) 0 SRP_RPORT_RUNNING False 7 example_state) = 0"
  by code_simp

lemma example_completed_facts:
  "st_done example_completed = [7]" "st_fault example_completed = None" "ch_req_lim (chan example_completed 0) = 3"
  "sc_result (st_cmds example_completed 7) = 2"
  by code_simp+

lemma example_inv: "target_inv example_state"
proof -
  have "owned example_ch = {}"
    by (auto simp: owned_def example_ch_def zeroed_request_def nth_Cons' split: if_splits)
  then have "reqs_ok 2 0 {} example_ch"
    unfolding reqs_ok_def by (auto simp: example_ch_def nth_Cons' less_Suc_eq numeral_2_eq_2)
  then show ?thesis
    by (simp add: target_inv_def reqs_inv_def ring_size_def example_state_def example_target_def)
qed

lemma example_fresh: "outstanding example_state = {#}" "st_done example_state = []"
  by (simp_all add: outstanding_def ch_cmds_def example_state_def example_target_def example_ch_def zeroed_request_def)

lemma example_issue_step:
  "srp_step 250 example_core (example_verbs 100) example_functions example_host [7] (example_host\<lparr>xp_lld := example_issued\<rparr>)"
proof -
  have q: "srp_queuecommand (example_verbs 100) 0 SRP_RPORT_RUNNING False 7 example_state = (0, example_issued)"
    using example_queue by (metis prod.collapse)
  have "sc_device (st_cmds (xp_lld example_host) 7) < length (xp_sdevs example_host)"
    "srp_queuecommand (example_verbs 100) 0 (rp_state (xp_rport example_host))
       (scsi_device_blocked (xp_sdevs example_host ! sc_device (st_cmds (xp_lld example_host) 7))) 7 (xp_lld example_host) =
     (0, example_issued)"
    using q by (simp_all add: example_host_def example_state_def example_scmnd_def srp_rport_init_def scsi_device_blocked_def)
  from srp_step.queuecommand [OF this, of 250 example_core example_functions] show ?thesis by simp
qed

lemma example_run:
  "srp_run 250 example_core (example_verbs 100) example_functions example_host [7] (example_host\<lparr>xp_lld := example_completed\<rparr>)"
proof -
  have "srp_step 250 example_core (example_verbs 100) example_functions (example_host\<lparr>xp_lld := example_issued\<rparr>) []
      (example_host\<lparr>xp_lld := example_completed\<rparr>)"
    using srp_step.upcall [where x = "example_host\<lparr>xp_lld := example_issued\<rparr>"] by (simp add: example_completed_def)
  from srp_run.step [OF srp_run.step [OF srp_run.start example_issue_step] this] show ?thesis by simp
qed

section \<open>Properties of every run\<close>

text \<open>C1. Exactly once. However the SCSI core, the RDMA core, the transport class and the error handlers interleave,
  starting from a target with nothing outstanding, at any time the commands for which \<^verbatim>\<open>srp_queuecommand()\<close> has returned 0 are
  those for which \<^verbatim>\<open>scsi_done()\<close> has been called together with those the driver still holds a request for, counted
  with multiplicity, provided that no pointer was bad and no wait endless. No command is lost, none is completed
  twice, and a command that was refused with \<^verbatim>\<open>SCSI_MLQUEUE_HOST_BUSY\<close> is never completed.\<close>

theorem commands_completed_exactly_once:
  assumes "srp_run hz C V (ib_srp_transport_functions V rd fi dl) x ms y"
    and "target_inv (xp_lld x)" "outstanding (xp_lld x) = {#}" "st_done (xp_lld x) = []"
    and "st_fault (xp_lld y) = None"
  shows "mset ms = mset (st_done (xp_lld y)) + outstanding (xp_lld y)"
  using run_effect [OF assms(1,2)] assms(3-5) by (auto simp: accounted_def)

theorem commands_completed_exactly_once_witness:
  "mset [7] = mset (st_done example_completed) + outstanding example_completed \<and> st_done example_completed = [7]"
  using commands_completed_exactly_once [OF example_run [unfolded example_functions_def]]
  by (simp add: example_host_def example_inv example_fresh example_completed_facts)



text \<open>C7. The requests of a channel are never lost and never used twice. In every state that a run reaches, also one
  where a pointer was bad, each index of the request ring of each channel is either on the free list, and
  there once, or in use for a command, and not both; and the request at index \<open>i\<close> of channel \<open>c\<close> carries the
  tag made of \<open>c\<close> and \<open>i\<close>, from which a response is mapped back to it.\<close>

theorem request_ring_partition:
  assumes "srp_run hz C V (ib_srp_transport_functions V rd fi dl) x ms y" and "target_inv (xp_lld x)"
    and "c < length (tgt_ch (st_target (xp_lld y)))"
    and "ch = tgt_ch (st_target (xp_lld y)) ! c" and "n = nat (tgt_req_ring_size (st_target (xp_lld y)))"
  shows "length (ch_req_ring ch) = n \<and> distinct (ch_free_reqs ch) \<and>
    set (ch_free_reqs ch) \<union> {i. i < n \<and> req_scmnd (ch_req_ring ch ! i) \<noteq> None} = {..<n} \<and>
    set (ch_free_reqs ch) \<inter> {i. i < n \<and> req_scmnd (ch_req_ring ch ! i) \<noteq> None} = {} \<and>
    (\<forall>i < n. req_tag (ch_req_ring ch ! i) = build_srp_tag (of_nat c) (of_nat i))"
proof -
  have "target_inv (xp_lld y)" using run_effect [OF assms(1,2)] by simp
  then have "reqs_ok n c {} ch" using assms(3-5) by (simp add: target_inv_def reqs_inv_def ring_size_def)
  then show ?thesis unfolding reqs_ok_def owned_def by auto
qed

theorem request_ring_partition_witness:
  "set (ch_free_reqs (chan example_completed 0)) \<union> {i. i < 2 \<and> req_scmnd (ch_req_ring (chan example_completed 0) ! i) \<noteq> None} = {..<2} \<and>
   set (ch_free_reqs (chan example_completed 0)) \<inter> {i. i < 2 \<and> req_scmnd (ch_req_ring (chan example_completed 0) ! i) \<noteq> None} = {}"
proof -
  have n: "0 < length (tgt_ch (st_target example_completed))" "nat (tgt_req_ring_size (st_target example_completed)) = 2"
    by code_simp+
  have "target_inv (xp_lld example_host)" by (simp add: example_host_def example_inv)
  from request_ring_partition [OF example_run [unfolded example_functions_def] this, of 0 "chan example_completed 0" 2]
  show ?thesis using n by simp
qed

end
