(* ===== verification/SRP_Data_Path.thy ===== *)
theory SRP_Data_Path
  imports SRP_Once
begin

text \<open>
  Single operations on the data path: what a response does to the command it belongs to, the flow
  control credits of a channel, the errors of \<^verbatim>\<open>srp_process_rsp()\<close> that a target can cause, and
  \<^verbatim>\<open>srp_reset_device()\<close>.
\<close>

section \<open>Frame lemmas\<close>

text \<open>Credits are not changed by polling the send queue, by mapping and unmapping and by posting.\<close>

abbreviation lim :: "'e srp_state \<Rightarrow> nat \<Rightarrow> int" where
  "lim s c \<equiv> ch_req_lim (chan s c)"

lemma lim_upd_ch:
  "ch_req_lim (f (chan s c)) = ch_req_lim (chan s c) \<Longrightarrow> lim (upd_ch c f s) d = lim s d"
  by (cases "c < nch s") (simp_all, simp add: upd_defs list_update_beyond)

lemma lim_upd [simp]:
  "lim (upd_tx c i f s) d = lim s d" "lim (upd_req c i g s) d = lim s d"
  by (simp_all add: upd_tx_def upd_req_def lim_upd_ch)

lemma lim_handle_send: "lim (srp_handle_send c wc s) d = lim s d"
  by (auto simp: srp_handle_send_def srp_handle_qp_err_def lim_upd_ch split: option.split)

lemma lim_handle_sends: "lim (fold (srp_handle_send c) wcs s) d = lim s d"
  by (induction wcs arbitrary: s) (simp_all add: lim_handle_send)

lemma lim_send_completion [simp]: "lim (srp_send_completion V c s) d = lim s d"
  by (simp add: srp_send_completion_def lim_handle_sends split: option.split prod.split)

lemma done_handle_sends: "st_done (fold (srp_handle_send c) wcs s) = st_done s"
  by (induction wcs arbitrary: s) (auto simp: srp_handle_send_def srp_handle_qp_err_def split: option.split)

lemma done_send_completion [simp]: "st_done (srp_send_completion V c s) = st_done s"
  by (simp add: srp_send_completion_def done_handle_sends split: option.split prod.split)

lemma nch_handle_sends: "nch (fold (srp_handle_send c) wcs s) = nch s"
  by (induction wcs arbitrary: s) (auto simp: srp_handle_send_def srp_handle_qp_err_def split: option.split)

lemma nch_send_completion [simp]: "nch (srp_send_completion V c s) = nch s"
  by (simp add: srp_send_completion_def nch_handle_sends split: option.split prod.split)

lemma lim_unmap_req [simp]: "lim (srp_unmap_req V c i m s) d = lim s d"
  by (auto simp: srp_unmap_req_def Let_def lim_upd_ch split: prod.split)

lemma lim_map_req [simp]: "lim (snd (srp_map_req V c i j m s)) d = lim s d"
  by (auto simp: srp_map_req_def Let_def lim_upd_ch split: prod.split option.split)

lemma lim_post_send [simp]: "lim (snd (srp_post_send V c i len s)) d = lim s d"
  by (auto simp: srp_post_send_def Let_def split: prod.split option.split)

lemma lim_queue_err [simp]: "lim (snd (srp_queue_err m s)) d = lim s d"
  by (simp add: srp_queue_err_def)

lemma done_map_req [simp]: "st_done (snd (srp_map_req V c i j m s)) = st_done s"
  by (auto simp: srp_map_req_def Let_def split: prod.split option.split)

lemma done_post_send [simp]: "st_done (snd (srp_post_send V c i len s)) = st_done s"
  by (auto simp: srp_post_send_def Let_def split: prod.split option.split)

lemma nch_map_req [simp]: "nch (snd (srp_map_req V c i j m s)) = nch s"
  by (auto simp: srp_map_req_def Let_def split: prod.split option.split)

lemma nch_post_send [simp]: "nch (snd (srp_post_send V c i len s)) = nch s"
  by (auto simp: srp_post_send_def Let_def split: prod.split option.split)

section \<open>Credits\<close>

lemma get_tx_cmd:
  assumes "srp_get_tx_iu V c SRP_IU_CMD s = (r, s')" and "c < nch s" and "int_range (lim s c)"
  shows "st_done s' = st_done s" "nch s' = nch s" "d \<noteq> c \<Longrightarrow> lim s' d = lim s d"
    "r = None \<Longrightarrow> lim s' c = lim s c"
    "r \<noteq> None \<Longrightarrow> 1 < lim s c \<and> lim s' c = lim s c - 1"
  using assms by (auto simp: srp_get_tx_iu_def Let_def SRP_TSK_MGMT_SQ_SIZE_def int_range_def
      split: list.splits if_splits)

lemma lim_undo:
  assumes "c < nch s" and "lim s c = k - 1" and "int_range k"
  shows "lim (srp_queue_undo c i j s) d = (if d = c then k else lim s d)"
  using assms by (simp add: srp_queue_undo_def srp_put_tx_iu_def)

lemma queue_err_done: "srp_queue_err m s = (ret, s') \<Longrightarrow> ret \<noteq> 0 \<or> st_done s' \<noteq> st_done s"
  by (auto simp: srp_queue_err_def SCSI_MLQUEUE_HOST_BUSY_def split: if_splits)

definition credits_kept :: "nat \<Rightarrow> 'e srp_state \<Rightarrow> int \<Rightarrow> 'e srp_state \<Rightarrow> bool" where
  "credits_kept c s ret s' \<longleftrightarrow> (\<forall>d. d \<noteq> c \<longrightarrow> lim s' d = lim s d) \<and>
     (if ret = 0 \<and> st_done s' = st_done s then 1 < lim s c \<and> lim s' c = lim s c - 1 else lim s' c = lim s c)"

lemma credits_kept_err:
  assumes "srp_queue_err m t = (ret, s')" "st_done t = st_done s" "\<And>d. lim t d = lim s d"
  shows "credits_kept c s ret s'"
proof -
  have "lim s' d = lim s d" for d using lim_queue_err [of m t d] assms by simp
  then show ?thesis using queue_err_done [OF assms(1)] assms(2) by (auto simp: credits_kept_def)
qed

lemma credits_kept_issue:
  assumes q: "srp_issue_cmd V c j m s1 = (ret, s')" and c: "c < nch s1" and nf: "st_fault s' = None"
    and s: "st_done s1 = st_done s" "\<And>d. d \<noteq> c \<Longrightarrow> lim s1 d = lim s d"
      "1 < lim s c" "lim s1 c = lim s c - 1" "int_range (lim s c)"
  shows "credits_kept c s ret s'"
proof (cases "ch_free_reqs (chan s1 c)")
  case Nil
  then show ?thesis using q nf by (auto simp: srp_issue_cmd_def fault_def split: option.splits)
next
  case (Cons i rest)
  define s3 where "s3 = upd_req c i (\<lambda>r. r\<lparr>req_scmnd := Some m, req_cmd := Some j\<rparr>)
    (upd_tx c j (\<lambda>iu. iu\<lparr>iu_buf := srp_build_cmd (st_mod s1) (st_cmds s1 m) (req_tag (ch_req_ring (chan s1 c) ! i)) (iu_buf iu)\<rparr>)
      (upd_cmd m (\<lambda>x. x\<lparr>sc_scribble := Some (c, i)\<rparr>) (upd_ch c (\<lambda>ch. ch\<lparr>ch_free_reqs := rest\<rparr>) s1)))"
  obtain len s4 where m4: "srp_map_req V c i j m s3 = (len, s4)" by (meson surj_pair)
  obtain r s5 where p5: "srp_post_send V c j len s4 = (r, s5)" by (meson surj_pair)
  have e3: "st_done s3 = st_done s" "nch s3 = nch s1" "lim s3 d = lim s1 d" for d
    using s(1) by (simp_all add: s3_def lim_upd_ch)
  have e4: "st_done s4 = st_done s" "nch s4 = nch s1" "lim s4 d = lim s1 d" for d
    using done_map_req [of V c i j m s3] nch_map_req [of V c i j m s3] lim_map_req [of V c i j m s3] m4 e3 by simp_all
  have e5: "st_done s5 = st_done s" "nch s5 = nch s1" "lim s5 d = lim s1 d" for d
    using done_post_send [of V c j len s4] nch_post_send [of V c j len s4] lim_post_send [of V c j len s4] p5 e4 by simp_all
  have u: "lim (srp_queue_undo c i j t) d = lim s d" if "nch t = nch s1" "\<And>d. lim t d = lim s1 d" for t :: "'a srp_state" and d
    using lim_undo [of c t "lim s c" i j d] c s that by auto
  have ud: "st_done (srp_queue_undo c i j t) = st_done t" for t :: "'a srp_state"
    by (simp add: srp_queue_undo_def srp_put_tx_iu_def)
  have nu: "nch (srp_unmap_req V c i m s5) = nch s5" by (rule staticD(3) [OF unmap_req_frame(4)])
  show ?thesis
  proof (cases "len < 0 \<or> r \<noteq> 0")
    case True
    then obtain t where "srp_queue_err m t = (ret, s')" "st_done t = st_done s" "\<And>d. lim t d = lim s d"
      using q e4 e5 u ud nu
      by (auto simp: srp_issue_cmd_def Cons Let_def s3_def [symmetric] m4 p5 split: if_splits)
    then show ?thesis by (rule credits_kept_err)
  next
    case False
    then have "ret = 0" "s' = s5" using q by (auto simp: srp_issue_cmd_def Cons Let_def s3_def [symmetric] m4 p5)
    then show ?thesis using e5 s by (simp add: credits_kept_def)
  qed
qed

lemma map_cpu_to_ch_bound: "srp_map_cpu_to_ch cpu t = Some c \<Longrightarrow> c < length (tgt_ch t)"
  by (auto simp: srp_map_cpu_to_ch_def split: if_splits)

text \<open>C10. Credits of a channel. When \<^verbatim>\<open>srp_queuecommand()\<close> has sent the command to the target (it returns 0 and has
  not completed the command), it has used exactly one credit of the channel, and there was more than one, so
  that the credit that is reserved for task management functions is left. When the command was refused or completed at
  once, on every error path, the number of credits is what it was. The other channels keep theirs.\<close>

theorem command_uses_one_credit:
  assumes "srp_queuecommand V cpu rst blocked m s = (ret, s')" and "srp_map_cpu_to_ch cpu (st_target s) = Some c"
    and "int_range (ch_req_lim (tgt_ch (st_target s) ! c))" and "st_fault s' = None"
  shows "(\<forall>d. d \<noteq> c \<longrightarrow> ch_req_lim (tgt_ch (st_target s') ! d) = ch_req_lim (tgt_ch (st_target s) ! d)) \<and>
    (if ret = 0 \<and> st_done s' = st_done s
     then SRP_TSK_MGMT_SQ_SIZE < ch_req_lim (tgt_ch (st_target s) ! c) \<and>
       ch_req_lim (tgt_ch (st_target s') ! c) = ch_req_lim (tgt_ch (st_target s) ! c) - 1
     else ch_req_lim (tgt_ch (st_target s') ! c) = ch_req_lim (tgt_ch (st_target s) ! c))"
proof -
  let ?s1 = "upd_cmd m (\<lambda>x. x\<lparr>sc_result := srp_chkready rst\<rparr>) s"
  have c: "c < nch s" by (rule map_cpu_to_ch_bound [OF assms(2)])
  obtain o2 s2 where g: "srp_get_tx_iu V c SRP_IU_CMD ?s1 = (o2, s2)" by (meson surj_pair)
  have c1: "c < nch ?s1" and r1: "int_range (lim ?s1 c)" using c assms(3) by simp_all
  note tx = get_tx_cmd [OF g c1 r1, simplified]
  have "credits_kept c s ret s'"
  proof (cases "srp_chkready rst \<noteq> 0 \<or> blocked")
    case True
    then have "srp_queue_err m (upd_cmd m (\<lambda>x. x\<lparr>sc_quiet := True\<rparr>) ?s1) = (ret, s')"
      using assms(1) by (simp add: srp_queuecommand_def)
    then show ?thesis by (rule credits_kept_err) simp_all
  next
    case False
    show ?thesis
    proof (cases o2)
      case None
      then have "srp_queue_err m s2 = (ret, s')" using assms(1,2) False g by (simp add: srp_queuecommand_def)
      moreover have "lim s2 d = lim s d" for d using tx(3,4) None by (cases "d = c") simp_all
      ultimately show ?thesis by (rule credits_kept_err [OF _ tx(1)])
    next
      case (Some j)
      then have "srp_issue_cmd V c j m s2 = (ret, s')" using assms(1,2) False g by (simp add: srp_queuecommand_def)
      then show ?thesis
        by (rule credits_kept_issue [OF _ _ assms(4)]) (use tx c Some assms(3) in simp_all)
    qed
  qed
  then show ?thesis by (simp add: credits_kept_def SRP_TSK_MGMT_SQ_SIZE_def)
qed

theorem command_uses_one_credit_witness:
  "ch_req_lim (chan example_state 0) = 3 \<and> ch_req_lim (chan example_issued 0) = 2"
proof -
  have "srp_queuecommand (example_verbs 100) 0 SRP_RPORT_RUNNING False 7 example_state = (0, example_issued)"
    using example_queue by (metis prod.collapse)
  moreover have "srp_map_cpu_to_ch 0 (st_target example_state) = Some 0" "ch_req_lim (chan example_state 0) = 3"
    "st_fault example_issued = None" "st_done example_issued = st_done example_state"
    by code_simp+
  ultimately show ?thesis
    using command_uses_one_credit [of "example_verbs 100" 0 SRP_RPORT_RUNNING False 7 example_state 0 example_issued 0]
    by (simp add: int_range_def)
qed

section \<open>Responses\<close>

lemma tag_of_request:
  assumes "c < 2 ^ 15" and "i < 2 ^ 16" and "t = (ucast (build_srp_tag (of_nat c) (of_nat i)) :: u64)"
  shows "t AND ucast SRP_TAG_TSK_MGMT = 0" "unat (srp_tag_idx (ucast t)) = i"
proof -
  have "uint (of_nat c :: u16) < 2 ^ 15" using assms(1) by (simp add: uint_nat unat_of_nat)
  then have "\<not> bit (of_nat c :: u16) 15" by (rule bit15_small)
  then show "t AND ucast SRP_TAG_TSK_MGMT = 0"
    using tag_and_tsk_mgmt [of t] bit31_command_tag [of "of_nat c" "of_nat i"] assms(3) by simp
  have "(ucast t :: u32) = build_srp_tag (of_nat c) (of_nat i)"
    unfolding assms(3) by (rule bit_word_eqI) (auto simp: bit_simps)
  then show "unat (srp_tag_idx (ucast t)) = i" using assms(2) by (simp add: unat_of_nat)
qed

text \<open>The sense data of a response lie within the response and fit the buffer of the command.\<close>

definition sense_ok :: "srp_rsp \<Rightarrow> bool" where
  "sense_ok rsp \<longleftrightarrow> rsp_flags rsp AND SRP_RSP_FLAG_SNSVALID \<noteq> 0 \<longrightarrow>
     unat (be32_to_cpu (rsp_resp_data_len rsp)) + srp_sense_len rsp \<le> length (rsp_data rsp) \<and>
     srp_sense_len rsp \<le> SCSI_SENSE_BUFFERSIZE"

text \<open>The command after the response, as \<^verbatim>\<open>scsi_done()\<close> gets to see it.\<close>

definition answered :: "srp_rsp \<Rightarrow> scsi_cmnd \<Rightarrow> scsi_cmnd" where
  "answered rsp x = x\<lparr>sc_result := uint (rsp_status rsp),
     sc_sense := (if rsp_flags rsp AND SRP_RSP_FLAG_SNSVALID \<noteq> 0
       then write_bytes 0 (field (unat (be32_to_cpu (rsp_resp_data_len rsp))) (srp_sense_len rsp) (rsp_data rsp)) (sc_sense x)
       else sc_sense x),
     sc_resid := (case srp_rsp_resid rsp of None \<Rightarrow> sc_resid x | Some r \<Rightarrow> r),
     sc_scribble := None\<rparr>"

lemma claim_own:
  "i < length (ch_req_ring (chan s c)) \<Longrightarrow> req_scmnd (ch_req_ring (chan s c) ! i) = Some m \<Longrightarrow>
   srp_claim_req c i None None s = (Some m, upd_req c i (\<lambda>r. r\<lparr>req_scmnd := None\<rparr>) s)"
  by (simp add: srp_claim_req_def)

lemma cmds_fault [simp]: "st_cmds (fault f s) = st_cmds s"
  by (simp add: fault_def split: option.split)

lemma process_rsp_effect:
  assumes "c < length (tgt_ch (st_target s))" and "c < 2 ^ 15" and "i < 2 ^ 16"
    and "int i < tgt_req_ring_size (st_target s)" and "i < length (ch_req_ring (tgt_ch (st_target s) ! c))"
    and "req_scmnd (ch_req_ring (tgt_ch (st_target s) ! c) ! i) = Some m"
    and "rsp_tag rsp = ucast (build_srp_tag (of_nat c) (of_nat i))" and "sense_ok rsp"
    and "s' = srp_process_rsp V c rsp s" and "ch = tgt_ch (st_target s) ! c" and "ch' = tgt_ch (st_target s') ! c"
  shows "st_done s' = st_done s @ [m] \<and> st_cmds s' = (st_cmds s)(m := answered rsp (st_cmds s m)) \<and>
    ch_req_ring ch' = (ch_req_ring ch)[i := (ch_req_ring ch ! i)\<lparr>req_scmnd := None\<rparr>] \<and>
    ch_free_reqs ch' = ch_free_reqs ch @ [i] \<and>
    ch_req_lim ch' = s32 (ch_req_lim ch + u32_to_int (be32_to_cpu (rsp_req_lim_delta rsp))) \<and>
    (\<forall>d. d \<noteq> c \<longrightarrow> tgt_ch (st_target s') ! d = tgt_ch (st_target s) ! d) \<and> st_fault s' = st_fault s"
proof -
  note tag = tag_of_request [OF assms(2,3,7)]
  define s1 where "s1 = upd_req c i (\<lambda>r. r\<lparr>req_scmnd := None\<rparr>) s"
  define s2 where "s2 = upd_cmd m (\<lambda>x. x\<lparr>sc_result := uint (rsp_status rsp)\<rparr>) s1"
  define s3 where "s3 = (if rsp_flags rsp AND SRP_RSP_FLAG_SNSVALID \<noteq> 0 then srp_copy_sense m rsp s2 else s2)"
  define s4 where "s4 = (case srp_rsp_resid rsp of None \<Rightarrow> s3 | Some r \<Rightarrow> upd_cmd m (\<lambda>x. x\<lparr>sc_resid := r\<rparr>) s3)"
  have s': "s' = scsi_done m (upd_cmd m (\<lambda>x. x\<lparr>sc_scribble := None\<rparr>)
      (srp_free_req V c i m (u32_to_int (be32_to_cpu (rsp_req_lim_delta rsp))) s4))"
    using assms(4) unfolding assms(9) srp_process_rsp_def s4_def s3_def s2_def s1_def
    by (simp add: tag claim_own [OF assms(5,6)] Let_def)
  have s3: "s3 = s2 \<or> (\<exists>f. s3 = upd_cmd m f s2)" "st_fault s3 = st_fault s"
    using assms(8) by (auto simp: s3_def s2_def s1_def srp_copy_sense_def sense_ok_def Let_def)
  have s4: "chan s4 d = chan s1 d" "nch s4 = nch s" "st_done s4 = st_done s" "st_fault s4 = st_fault s" for d
    using s3 by (auto simp: s4_def s2_def s1_def split: option.split)
  have cm: "(st_cmds s4 m)\<lparr>sc_scribble := None\<rparr> = answered rsp (st_cmds s m)" "m' \<noteq> m \<Longrightarrow> st_cmds s4 m' = st_cmds s m'" for m'
    using assms(8) by (auto simp: s4_def s3_def s2_def s1_def srp_copy_sense_def sense_ok_def answered_def Let_def upd_defs split: option.split)
  obtain p where p: "chan (srp_unmap_req V c i m s4) d = (if d = c then (chan s4 c)\<lparr>ch_fr_pool := p d\<rparr> else chan s4 d)" for d
    using chan_unmap_req [of c s4 V i m] assms(1) s4(2) by metis
  have n: "nch (srp_unmap_req V c i m s4) = nch s" using staticD(3) [OF unmap_req_frame(4), of V c i m s4] s4(2) by simp
  have "st_cmds s' = (st_cmds s)(m := answered rsp (st_cmds s m))"
    using cm by (auto simp: s' fun_eq_iff)
  moreover have "chan s' d = (if d = c then (chan s1 c)\<lparr>ch_fr_pool := p c,
      ch_req_lim := s32 (ch_req_lim (chan s1 c) + u32_to_int (be32_to_cpu (rsp_req_lim_delta rsp))),
      ch_free_reqs := ch_free_reqs (chan s1 c) @ [i]\<rparr> else chan s1 d)" for d
    using assms(1) n by (simp add: s' srp_free_req_def p s4(1))
  ultimately show ?thesis using assms(1,5,10,11) s4(3,4) by (simp add: s' s1_def scsi_done_def)
qed

text \<open>C9. A response completes the command it belongs to. When the tag of the response is that of a request of the channel which
  is in use for the command \<open>m\<close>, and the sense data are within the response, \<^verbatim>\<open>srp_process_rsp()\<close> calls \<^verbatim>\<open>scsi_done()\<close>
  once, for \<open>m\<close>, which has then the status, the sense data and the residual count of the response; the request is free
  again and the last one to be used next; the credits that the response carries have been added. No other command
  and no other channel is touched.\<close>

theorem response_completes_its_command:
  assumes "c < length (tgt_ch (st_target s))" and "c < 2 ^ 15" and "i < 2 ^ 16"
    and "int i < tgt_req_ring_size (st_target s)" and "i < length (ch_req_ring (tgt_ch (st_target s) ! c))"
    and "req_scmnd (ch_req_ring (tgt_ch (st_target s) ! c) ! i) = Some m"
    and "rsp_tag rsp = ucast (build_srp_tag (of_nat c) (of_nat i))" and "sense_ok rsp"
    and "s' = srp_process_rsp V c rsp s" and "ch = tgt_ch (st_target s) ! c" and "ch' = tgt_ch (st_target s') ! c"
  shows "st_done s' = st_done s @ [m] \<and> st_cmds s' = (st_cmds s)(m := answered rsp (st_cmds s m)) \<and>
    ch_req_ring ch' = (ch_req_ring ch)[i := (ch_req_ring ch ! i)\<lparr>req_scmnd := None\<rparr>] \<and>
    ch_free_reqs ch' = ch_free_reqs ch @ [i] \<and>
    ch_req_lim ch' = s32 (ch_req_lim ch + u32_to_int (be32_to_cpu (rsp_req_lim_delta rsp))) \<and>
    (\<forall>d. d \<noteq> c \<longrightarrow> tgt_ch (st_target s') ! d = tgt_ch (st_target s) ! d) \<and> st_fault s' = st_fault s"
  by (rule process_rsp_effect [OF assms])

lemma example_answer:
  "length (tgt_ch (st_target example_issued)) = 1" "tgt_req_ring_size (st_target example_issued) = 2"
  "length (ch_req_ring (chan example_issued 0)) = 2" "req_scmnd (ch_req_ring (chan example_issued 0) ! 0) = Some 7"
  "st_done example_issued = []" "st_fault example_issued = None" "sense_ok example_rsp"
  "rsp_tag example_rsp = ucast (build_srp_tag 0 0)"
  by code_simp+

theorem response_completes_its_command_witness:
  "st_done (srp_process_rsp (example_verbs 100) 0 example_rsp example_issued) = [7] \<and>
   ch_free_reqs (chan (srp_process_rsp (example_verbs 100) 0 example_rsp example_issued) 0) = [1, 0]"
proof -
  have "ch_free_reqs (chan example_issued 0) = [1]" by code_simp
  then show ?thesis
    using response_completes_its_command [of 0 example_issued 0 7 example_rsp _ "example_verbs 100", OF _ _ _ _ _ _ _ _ refl refl refl]
    by (simp add: example_answer)
qed



lemma mod_wrap: "\<lbrakk>x < 0; - m \<le> x\<rbrakk> \<Longrightarrow> x mod m = x + m" for x m :: int
  using mod_pos_pos_trivial [of "x + m" m] by simp

text \<open>C32. The length of the sense data is a 32-bit number that the target chooses, and \<^verbatim>\<open>srp_process_rsp()\<close> takes the minimum with 96
  in the signed type \<^verbatim>\<open>int\<close>. A length with the topmost bit set is negative there, so that the minimum is negative and
  the copy of sense data runs over the end of the buffers.\<close>

theorem sense_length_overflow:
  assumes "c < 2 ^ 15" and "i < 2 ^ 16"
    and "int i < tgt_req_ring_size (st_target s)" and "i < length (ch_req_ring (tgt_ch (st_target s) ! c))"
    and "req_scmnd (ch_req_ring (tgt_ch (st_target s) ! c) ! i) = Some m"
    and "rsp_tag rsp = ucast (build_srp_tag (of_nat c) (of_nat i))"
    and "rsp_flags rsp AND SRP_RSP_FLAG_SNSVALID \<noteq> 0" and "2 ^ 31 \<le> uint (be32_to_cpu (rsp_sense_data_len rsp))"
    and "st_fault s = None"
  shows "SCSI_SENSE_BUFFERSIZE < srp_sense_len rsp \<and> st_fault (srp_process_rsp V c rsp s) = Some Bad_Pointer"
proof -
  let ?n = "uint (be32_to_cpu (rsp_sense_data_len rsp))"
  have "?n < 2 ^ 32" using uint_lt2p [of "be32_to_cpu (rsp_sense_data_len rsp)"] by simp
  then have "s32 ?n = ?n - 2 ^ 32" using assms(8) by (simp add: s32_def mod_pos_geq)
  moreover have "(?n - 2 ^ 32) mod 2 ^ 64 = ?n - 2 ^ 32 + 2 ^ 64"
    using \<open>?n < 2 ^ 32\<close> uint_ge_0 [of "be32_to_cpu (rsp_sense_data_len rsp)"]
    by (intro mod_wrap) simp_all
  ultimately have "nat ((min (s32 ?n) 96) mod 2 ^ 64) = nat (?n - 2 ^ 32 + 2 ^ 64)"
    using \<open>?n < 2 ^ 32\<close> by (simp add: min_def)
  then have big: "SCSI_SENSE_BUFFERSIZE < srp_sense_len rsp"
    using assms(8) by (simp add: srp_sense_len_def SCSI_SENSE_BUFFERSIZE_def u32_to_int_def Let_def)
  then have "st_fault (srp_copy_sense m rsp t) = Some Bad_Pointer" if "st_fault t = None" for t :: "'a srp_state"
    using that by (simp add: srp_copy_sense_def Let_def fault_def)
  then show ?thesis
    using big assms(3,7,9)
    by (simp add: srp_process_rsp_def tag_of_request [OF assms(1,2,6)] claim_own [OF assms(4,5)] Let_def split: option.split)
qed

theorem sense_length_overflow_witness:
  "st_fault (srp_process_rsp (example_verbs 100) 0
     (example_rsp\<lparr>rsp_flags := SRP_RSP_FLAG_SNSVALID, rsp_sense_data_len := cpu_to_be32 0x80000000\<rparr>) example_issued) = Some Bad_Pointer"
proof -
  have "SRP_RSP_FLAG_SNSVALID AND SRP_RSP_FLAG_SNSVALID \<noteq> 0" by (simp add: SRP_RSP_FLAG_SNSVALID_def)
  then show ?thesis
    using sense_length_overflow [of 0 0 example_issued 7
        "example_rsp\<lparr>rsp_flags := SRP_RSP_FLAG_SNSVALID, rsp_sense_data_len := cpu_to_be32 0x80000000\<rparr>" "example_verbs 100"]
    by (simp add: example_answer)
qed

section \<open>Device reset\<close>

lemma reset_loop_hangs:
  assumes "i < tgt_ch_count (st_target s)" "tgt_ch_count (st_target s) \<le> nch s" "ring_size s + 1 < tgt_ch_count (st_target s)"
  shows "srp_reset_loop V sdev i s = None"
proof (rule ccontr)
  assume "srp_reset_loop V sdev i s \<noteq> None"
  then obtain t where t: "srp_reset_loop V sdev i s = Some t" by blast
  let ?P = "\<lambda>(V :: 'a verbs) (sdev :: nat) i (s :: 'a srp_state) (t :: 'a srp_state). i < tgt_ch_count (st_target s) \<longrightarrow>
    tgt_ch_count (st_target s) \<le> nch s \<longrightarrow> ring_size s + 1 < tgt_ch_count (st_target s) \<longrightarrow> False"
  have "?P V sdev i s t"
  proof (rule srp_reset_loop.raw_induct [where P = ?P, OF _ t], goal_cases)
    case (1 loop V sdev i s t)
    show ?case
    proof (intro impI)
      assume a: "i < tgt_ch_count (st_target s)" "tgt_ch_count (st_target s) \<le> nch s" "ring_size s + 1 < tgt_ch_count (st_target s)"
      let ?s = "srp_finish_reqs V (Some sdev) (DID_RESET * 2 ^ 16) i s"
      have "settled s ?s" by (rule settled_finish_reqs) (use a in simp)
      then have st: "static ?s = static s" by (simp add: settled_def)
      have "loop V sdev (ring_size s + 1) ?s = Some t" using 1(2) a(1) by simp
      from 1(1) [OF this] show False
        using a staticD(3,4,5) [OF st] by (simp add: ring_size_def)
    qed
  qed
  then show False using assms by simp
qed

text \<open>C31. The loop over the requests in \<^verbatim>\<open>srp_reset_device()\<close> uses the variable of the loop over the channels. With no more than
  \<^verbatim>\<open>req_ring_size + 1\<close> channels, a reset that the target confirmed finishes only the requests of the
  first channel and reports success; with more channels than that, it never returns.\<close>

theorem reset_device_skips_channels:
  assumes "srp_send_tsk_mgmt V 0 (ucast SRP_TAG_NO_REQ) (sc_lun (st_cmds s m)) SRP_TSK_LUN_RESET s = (0, s1)"
    and "ch_tsk_mgmt_status (tgt_ch (st_target s1) ! 0) = 0" and "0 < tgt_ch_count (st_target s)"
    and "tgt_ch_count (st_target s) \<le> length (tgt_ch (st_target s))" and "n = nat (tgt_req_ring_size (st_target s))"
  shows "srp_reset_device V m s =
    (if tgt_ch_count (st_target s) \<le> n + 1
     then (SUCCESS, srp_finish_reqs V (Some (sc_device (st_cmds s m))) (DID_RESET * 2 ^ 16) 0 s1)
     else (FAILED, fault Hang s1))"
proof -
  let ?dev = "sc_device (st_cmds s m)"
  let ?t = "srp_finish_reqs V (Some ?dev) (DID_RESET * 2 ^ 16) 0 s1"
  have "settled s s1" using stl.R_send_tsk_mgmt [OF settled_refl] assms(1) by (metis snd_conv)
  then have st1: "static s1 = static s" by (simp add: settled_def)
  note c1 = staticD(3,4,5) [OF st1]
  have "settled s1 ?t" by (rule settled_finish_reqs) (use assms(3,4) c1 in linarith)
  then have "static ?t = static s1" by (simp add: settled_def)
  note c2 = staticD(3,4,5) [OF this]
  show ?thesis
  proof (cases "tgt_ch_count (st_target s) \<le> n + 1")
    case True
    then have "srp_reset_loop V ?dev (ring_size s1 + 1) ?t = Some ?t"
      using c1 c2 assms(5) by (subst srp_reset_loop.simps) (simp add: ring_size_def)
    then have "srp_reset_loop V ?dev 0 s1 = Some ?t" using assms(3) c1 by (subst srp_reset_loop.simps) simp
    then show ?thesis using True assms(1,2) by (simp add: srp_reset_device_def)
  next
    case False
    then have "srp_reset_loop V ?dev 0 s1 = None"
      using assms(3-5) c1 by (intro reset_loop_hangs) (simp_all add: ring_size_def)
    then show ?thesis using False assms(1,2) by (simp add: srp_reset_device_def)
  qed
qed

text \<open>Two channels, with a command of the same device on each of them; the target confirms the reset.\<close>

definition example_two_channels :: "nat srp_state" where
  "example_two_channels = upd_tgt (\<lambda>t. t\<lparr>tgt_ch_count := 2, tgt_ch :=
     [example_ch\<lparr>ch_free_reqs := [1], ch_req_ring := (ch_req_ring example_ch)[0 := (ch_req_ring example_ch ! 0)\<lparr>req_scmnd := Some 7\<rparr>]\<rparr>,
      example_ch\<lparr>ch_free_reqs := [1], ch_req_ring := (ch_req_ring example_ch)[0 := (ch_req_ring example_ch ! 0)\<lparr>req_scmnd := Some 8\<rparr>]\<rparr>]\<rparr>)
     example_state"

definition example_confirms :: "nat verbs" where
  "example_confirms = (example_verbs 100)\<lparr>v_wait := (\<lambda>c e. ([(0, Recv_Completion [\<lparr>wc_wr_id = 6, wc_success = True,
     wc_data = enc_srp_rsp (example_rsp\<lparr>rsp_tag := ucast SRP_TAG_TSK_MGMT, rsp_resp_data_len := cpu_to_be32 4, rsp_data := zeros 4\<rparr>)\<rparr>])], Suc e))\<rparr>"

theorem reset_device_skips_channels_witness:
  "fst (srp_reset_device example_confirms 7 example_two_channels) = SUCCESS \<and>
   req_scmnd (ch_req_ring (chan (snd (srp_reset_device example_confirms 7 example_two_channels)) 0) ! 0) = None \<and>
   req_scmnd (ch_req_ring (chan (snd (srp_reset_device example_confirms 7 example_two_channels)) 1) ! 0) = Some 8"
proof -
  define s1 where "s1 = snd (srp_send_tsk_mgmt example_confirms 0 (ucast SRP_TAG_NO_REQ) (sc_lun (st_cmds example_two_channels 7))
    SRP_TSK_LUN_RESET example_two_channels)"
  let ?t = "srp_finish_reqs example_confirms (Some (sc_device (st_cmds example_two_channels 7))) (DID_RESET * 2 ^ 16) 0 s1"
  have "fst (srp_send_tsk_mgmt example_confirms 0 (ucast SRP_TAG_NO_REQ) (sc_lun (st_cmds example_two_channels 7))
    SRP_TSK_LUN_RESET example_two_channels) = 0"
    by code_simp
  then have "srp_send_tsk_mgmt example_confirms 0 (ucast SRP_TAG_NO_REQ) (sc_lun (st_cmds example_two_channels 7))
    SRP_TSK_LUN_RESET example_two_channels = (0, s1)" by (simp add: s1_def prod_eq_iff)
  moreover have "ch_tsk_mgmt_status (chan s1 0) = 0" unfolding s1_def by code_simp
  moreover have "tgt_ch_count (st_target example_two_channels) = 2" "nch example_two_channels = 2"
    "tgt_req_ring_size (st_target example_two_channels) = 2"
    by code_simp+
  ultimately have r: "srp_reset_device example_confirms 7 example_two_channels = (SUCCESS, ?t)"
    using reset_device_skips_channels [of example_confirms example_two_channels 7 s1] by simp
  have "req_scmnd (ch_req_ring (chan ?t 0) ! 0) = None" "req_scmnd (ch_req_ring (chan ?t 1) ! 0) = Some 8"
    unfolding s1_def by code_simp+
  then show ?thesis unfolding r by simp
qed

section \<open>Recovery\<close>

lemma reconnect_running:
  "srp_reconnect_rport hz C F lr x = (0, y) \<Longrightarrow> rp_state (xp_rport y) = SRP_RPORT_RUNNING"
  by (rule reconnect_rport_cases [of lr hz C F x]) (auto simp: rport_reconnect_succeeded)


text \<open>The example with a command under way, in an environment that refuses every call.\<close>

definition example_busy_host :: "nat srp_state xport" where
  "example_busy_host = example_host\<lparr>xp_lld := upd_tgt (\<lambda>t. t\<lparr>tgt_queue_size := 1\<rparr>) example_issued\<rparr>"

abbreviation example_reconnect :: "int \<times> nat srp_state xport" where
  "example_reconnect \<equiv> srp_reconnect_rport 250 example_core (ib_srp_transport_functions (example_verbs 0) 20 15 600) 0 example_busy_host"

lemma example_issued_state: "target_inv example_issued" "outstanding example_issued = {#7#}"
proof -
  have q: "srp_queuecommand (example_verbs 100) 0 SRP_RPORT_RUNNING False 7 example_state = (0, example_issued)"
    using example_queue by (metis prod.collapse)
  have "target_inv example_issued \<and> accounted [7] example_state example_issued"
    using accounted_queue [OF SRP_Requests.queuecommand [OF q] example_inv] by simp
  then show "target_inv example_issued" "outstanding example_issued = {#7#}"
    by (simp_all add: accounted_def example_answer(5,6) example_fresh)
qed

lemma example_busy: "target_inv (xp_lld example_busy_host)" "outstanding (xp_lld example_busy_host) = {#7#}"
  "st_done (xp_lld example_busy_host) = []" "rp_state (xp_rport example_busy_host) = SRP_RPORT_RUNNING"
proof -
  show "target_inv (xp_lld example_busy_host)"
    using example_issued_state(1) by (simp add: example_busy_host_def target_inv_def) (simp add: upd_tgt_def)
  show "outstanding (xp_lld example_busy_host) = {#7#}"
    using example_issued_state(2) by (simp add: example_busy_host_def outstanding_def) (simp add: upd_tgt_def)
  show "st_done (xp_lld example_busy_host) = []" "rp_state (xp_rport example_busy_host) = SRP_RPORT_RUNNING"
    by code_simp+
qed


end
