(* ===== verification/SRP_Resources.thy ===== *)
theory SRP_Resources
  imports SRP_Data_Path
begin

text \<open>
  Resources: what the functions that set up a channel allocate, and that they give it back when they fail or when the
  channel is taken down. The resources that are alive are read off the log of the calls.
\<close>

section \<open>Single calls\<close>

lemma live_kzalloc:
  "kzalloc V n h = (r, h') \<Longrightarrow> hw_live h' = hw_live h + (case r of None \<Rightarrow> {#} | Some p \<Rightarrow> {#R_mem p#})"
  by (auto simp: kzalloc_def split: prod.splits option.splits)

lemma live_dma_map_single:
  "ib_dma_map_single V p n d h = (r, h') \<Longrightarrow> hw_live h' = hw_live h + (case r of None \<Rightarrow> {#} | Some a \<Rightarrow> {#R_dma a#})"
  by (auto simp: ib_dma_map_single_def split: prod.splits option.splits)

lemma live_create:
  "create V c h = (r, h') \<Longrightarrow> hw_live h' = hw_live h + (case r of Inl _ \<Rightarrow> {#} | Inr n \<Rightarrow> {#created c n#})"
  by (auto simp: create_def split: prod.splits sum.splits)

lemma live_verb: "verb V c h = (r, h') \<Longrightarrow> hw_live h' = hw_live h"
  by (auto simp: verb_def split: prod.splits)

lemmas live_calls = live_kzalloc live_dma_map_single live_create live_verb

section \<open>The objects of a channel\<close>

lemma live_init_ib_qp: "srp_init_ib_qp V qp t h = (r, h') \<Longrightarrow> hw_live h' = hw_live h"
  by (auto simp: srp_init_ib_qp_def split: prod.splits option.splits if_splits dest!: live_calls)

lemma live_create_qp:
  assumes "srp_create_qp V cm_id t scq rcq m h = (r, h')"
  shows "hw_live h' = hw_live h + (case r of Inl _ \<Rightarrow> {#} | Inr qp \<Rightarrow> {#R_qp qp#})"
  using assms unfolding srp_create_qp_def Let_def
  by (auto split: if_splits prod.splits sum.splits dest!: live_init_ib_qp live_create)

lemma replace_pool_failure:
  assumes "srp_replace_pool V c s = (ret, s')" and "ret \<noteq> 0"
  shows "\<exists>h. s' = upd_hw h s \<and> hw_live h = hw_live (st_hw s)"
proof -
  have fr: "hw_live h' = hw_live h" if "srp_alloc_fr_pool V dev t h = (Inl e, h')" for dev t h h' e
    using create_fr_pool_result [OF that [unfolded srp_alloc_fr_pool_def]] by simp
  have fmr: "hw_live h' = hw_live h" if "srp_alloc_fmr_pool V dev t h = (Inl e, h')" for dev t h h' e
    using live_create [OF that [unfolded srp_alloc_fmr_pool_def]] by simp
  show ?thesis
    using assms unfolding srp_replace_pool_def Let_def
    by (auto split: if_splits prod.splits sum.splits dest!: fr fmr)
qed

lemma create_ch_ib_failure:
  assumes "srp_create_ch_ib V c s = (ret, s')" and "ret \<noteq> 0"
  shows "\<exists>h. s' = upd_hw h s \<and> hw_live h = hw_live (st_hw s)"
proof -
  let ?t = "st_target s" and ?m = "1 + (if dev_use_fast_reg (st_dev s) then 1 else 0) :: int"
  obtain a h1 where 1: "kzalloc V (v_sizeof V T_ib_qp_init_attr) (st_hw s) = (a, h1)" by (meson surj_pair)
  obtain r2 h2 where 2: "create V (Ib_create_cq (tgt_queue_size ?t + 1) (ch_comp_vector (chan s c))) h1 = (r2, h2)" by (meson surj_pair)
  obtain r3 h3 where 3: "create V (Ib_create_cq (?m * tgt_queue_size ?t) (ch_comp_vector (chan s c))) h2 = (r3, h3)" by (meson surj_pair)
  obtain v h4 where 4: "verb V (Ib_req_notify_cq (case r2 of Inr n \<Rightarrow> n)) h3 = (v, h4)" by (meson surj_pair)
  obtain r5 h5 where 5: "srp_create_qp V (ch_cm_id (chan s c)) ?t (case r3 of Inr n \<Rightarrow> n) (case r2 of Inr n \<Rightarrow> n) ?m h4 = (r5, h5)"
    by (meson surj_pair)
  obtain r6 s6 where 6: "srp_replace_pool V c (upd_hw h5 s) = (r6, s6)" by (meson surj_pair)
  note l = live_kzalloc [OF 1] live_create [OF 2] live_create [OF 3] live_verb [OF 4] live_create_qp [OF 5]
  show ?thesis
  proof (cases "a = None \<or> (\<exists>e. r2 = Inl e) \<or> (\<exists>e. r3 = Inl e) \<or> (\<exists>e. r5 = Inl e)")
    case True
    then show ?thesis using assms 1 2 3 4 5 l
      by (auto simp: srp_create_ch_ib_def Let_def split: option.splits sum.splits)
  next
    case False
    then obtain p n2 n3 qp where ok: "a = Some p" "r2 = Inr n2" "r3 = Inr n3" "r5 = Inr qp" by (metis not_None_eq sum.exhaust)
    then have "r6 \<noteq> 0" and s': "s' = upd_hw (kfree p (release (R_cq n2) (release (R_cq n3) (release (R_qp qp) (st_hw s6))))) s6"
      using assms 1 2 3 4 5 6 by (auto simp: srp_create_ch_ib_def Let_def split: if_splits)
    then obtain h where h: "s6 = upd_hw h (upd_hw h5 s)" "hw_live h = hw_live h5"
      using replace_pool_failure [OF 6] by (auto simp: upd_hw_def)
    have "s' = upd_hw (kfree p (release (R_cq n2) (release (R_cq n3) (release (R_qp qp) h)))) s"
      by (simp add: s' h(1) upd_hw_def)
    moreover have "hw_live (kfree p (release (R_cq n2) (release (R_cq n3) (release (R_qp qp) h)))) = hw_live (st_hw s)"
      using l ok h(2) by simp
    ultimately show ?thesis by blast
  qed
qed

section \<open>Information units\<close>

definition iu_res :: "srp_iu \<Rightarrow> resource multiset" where
  "iu_res iu = {#R_mem (iu_self iu), R_mem (iu_mem iu), R_dma (iu_dma iu)#}"

abbreviation ius_res :: "srp_iu list \<Rightarrow> resource multiset" where
  "ius_res ius \<equiv> sum_list (map iu_res ius)"

lemma live_alloc_iu:
  assumes "srp_alloc_iu V sz dir h = (r, h')"
  shows "hw_live h' = hw_live h + (case r of None \<Rightarrow> {#} | Some iu \<Rightarrow> iu_res iu)"
    "r = Some iu \<Longrightarrow> iu_size iu = sz \<and> length (iu_buf iu) = sz \<and> iu_direction iu = dir"
  using assms by (auto simp: srp_alloc_iu_def iu_res_def split: prod.splits option.splits dest!: live_calls)

lemma live_free_iu: "hw_live (srp_free_iu iu h) = hw_live h - iu_res iu"
  by (simp add: srp_free_iu_def iu_res_def add_mset_commute)

lemma alloc_ius_result:
  assumes "srp_alloc_ius V n sz dir h = (ok, ius, h')"
  shows "hw_live h' = hw_live h + ius_res ius \<and> length ius \<le> n \<and> (ok \<longrightarrow> length ius = n) \<and>
    (\<forall>iu \<in> set ius. iu_size iu = sz \<and> length (iu_buf iu) = sz \<and> iu_direction iu = dir)"
  using assms
proof (induction n arbitrary: h ius)
  case (Suc n)
  obtain r h1 where a: "srp_alloc_iu V sz dir h = (r, h1)" by (meson surj_pair)
  show ?case
  proof (cases r)
    case None
    then show ?thesis using Suc.prems a live_alloc_iu(1) [OF a] by auto
  next
    case (Some iu)
    obtain ok' ius' h2 where b: "srp_alloc_ius V n sz dir h1 = (ok', ius', h2)" by (metis prod_cases3)
    show ?thesis using Suc.prems Suc.IH [of h1 ius'] a b Some live_alloc_iu [OF a] by (auto simp: ac_simps)
  qed
qed simp

lemma live_free_ius: "hw_live (fold srp_free_iu ius h) = hw_live h - ius_res ius"
  by (induction ius arbitrary: h) (simp_all add: live_free_iu)

lemma live_free_nth: "hw_live (srp_free_nth ius i h) = hw_live h - (if i < length ius then iu_res (ius ! i) else {#})"
  by (simp add: srp_free_nth_def live_free_iu)

lemma live_free_both:
  "hw_live (fold (\<lambda>i h. srp_free_nth tx i (srp_free_nth rx i h)) [0..<n] h) =
   hw_live h - ius_res (take n rx) - ius_res (take n tx)"
proof (induction n)
  case (Suc n)
  have t: "ius_res (take (Suc n) xs) = ius_res (take n xs) + (if n < length xs then iu_res (xs ! n) else {#})" for xs
    by (simp add: take_Suc_conv_app_nth)
  show ?case by (simp only: upt_Suc_append fold_append t) (simp add: Suc live_free_nth ac_simps)
qed simp

lemma live_kfree_opt: "hw_live (kfree_opt p h) = hw_live h - (case p of None \<Rightarrow> {#} | Some q \<Rightarrow> {#R_mem q#})"
  by (simp split: option.split)

lemma live_free_ring: "hw_live (srp_free_ring (Some p) ius h) = hw_live h - ius_res ius - {#R_mem p#}"
  by (simp add: srp_free_ring_def live_free_ius)

text \<open>C19. \<^verbatim>\<open>srp_alloc_iu_bufs()\<close> either gives the channel two full rings of information units, with receive
  buffers of the size the target asked for and send buffers of the size of the target port, all of the send units on the
  free list; or it fails and has released everything it had allocated. The code of \<^verbatim>\<open>srp_free_ch_ib()\<close> for the rings releases exactly what was
  allocated.\<close>

theorem iu_bufs_all_or_nothing:
  assumes "srp_alloc_iu_bufs V c s = (ret, s')" and "c < length (tgt_ch (st_target s))"
    and "ch = tgt_ch (st_target s) ! c" and "ch_tx_mem ch = None" and "ch' = tgt_ch (st_target s') ! c"
    and "n = nat (tgt_queue_size (st_target s))"
  shows "if ret = 0
    then length (ch_rx_ring ch') = n \<and> length (ch_tx_ring ch') = n \<and> ch_free_tx ch' = rev [0..<n] @ ch_free_tx ch \<and>
      list_all (\<lambda>iu. length (iu_buf iu) = nat (ch_max_ti_iu_len ch mod 2 ^ 64)) (ch_rx_ring ch') \<and>
      list_all (\<lambda>iu. length (iu_buf iu) = unat (tgt_max_iu_len (st_target s))) (ch_tx_ring ch') \<and>
      hw_live (srp_free_ring (ch_tx_mem ch') (ch_tx_ring ch') (srp_free_ring (ch_rx_mem ch') (ch_rx_ring ch') (st_hw s'))) =
        hw_live (st_hw s)
    else ret = - ENOMEM \<and> ch_rx_mem ch' = None \<and> ch_tx_mem ch' = None \<and> hw_live (st_hw s') = hw_live (st_hw s)"
proof -
  let ?rxs = "nat (ch_max_ti_iu_len (chan s c) mod 2 ^ 64)" and ?txs = "unat (tgt_max_iu_len (st_target s))"
  obtain r1 h1 where 1: "kzalloc V (n * 8) (st_hw s) = (r1, h1)" by (meson surj_pair)
  obtain r2 h2 where 2: "kzalloc V (n * 8) h1 = (r2, h2)" by (meson surj_pair)
  obtain ok3 rx h3 where 3: "srp_alloc_ius V n ?rxs DMA_FROM_DEVICE h2 = (ok3, rx, h3)" by (metis prod_cases3)
  obtain ok4 tx h4 where 4: "srp_alloc_ius V n ?txs DMA_TO_DEVICE h3 = (ok4, tx, h4)" by (metis prod_cases3)
  note l1 = live_kzalloc [OF 1] and l2 = live_kzalloc [OF 2] and l3 = alloc_ius_result [OF 3] and l4 = alloc_ius_result [OF 4]
  note e = assms(1) [unfolded srp_alloc_iu_bufs_def Let_def assms(6) [symmetric] 1 prod.case]
  consider (a) "r1 = None" | (b) p where "r1 = Some p" "r2 = None" | (c) p q where "r1 = Some p" "r2 = Some q" "\<not> ok3"
    | (d) p q where "r1 = Some p" "r2 = Some q" "ok3" "\<not> ok4" | (f) p q where "r1 = Some p" "r2 = Some q" "ok3" "ok4"
    by (cases r1; cases r2; cases ok3; cases ok4) auto
  then show ?thesis
  proof cases
    case a
    then show ?thesis using e assms(2-5) l1 by auto
  next
    case b
    then show ?thesis using e 2 assms(2,5) l1 l2 by auto
  next
    case c
    then have "ret = - ENOMEM" and s': "s' = upd_hw (kfree p (kfree q (fold (\<lambda>i h. srp_free_nth [] i (srp_free_nth rx i h)) [0..<n] h3)))
        (upd_ch c (\<lambda>ch. ch\<lparr>ch_tx_mem := None, ch_tx_ring := [], ch_rx_mem := None, ch_rx_ring := []\<rparr>) s)"
      using e 2 3 by auto
    then show ?thesis using assms(2,5) l1 l2 l3 c by (simp add: live_free_both add_mset_commute)
  next
    case d
    then have "ret = - ENOMEM" and s': "s' = upd_hw (kfree p (kfree q (fold (\<lambda>i h. srp_free_nth tx i (srp_free_nth rx i h)) [0..<n] h4)))
        (upd_ch c (\<lambda>ch. ch\<lparr>ch_tx_mem := None, ch_tx_ring := [], ch_rx_mem := None, ch_rx_ring := []\<rparr>)
          (upd_ch c (\<lambda>ch. ch\<lparr>ch_free_tx := rev [0..<length tx] @ ch_free_tx ch\<rparr>) s))"
      using e 2 3 4 by auto
    then show ?thesis using assms(2,5) l1 l2 l3 l4 d by (simp add: live_free_both add_mset_commute)
  next
    case f
    then have "ret = 0" and s': "s' = upd_hw h4 (upd_ch c (\<lambda>ch. ch\<lparr>ch_rx_mem := Some p, ch_rx_ring := rx,
        ch_tx_mem := Some q, ch_tx_ring := tx\<rparr>) (upd_ch c (\<lambda>ch. ch\<lparr>ch_free_tx := rev [0..<length tx] @ ch_free_tx ch\<rparr>) s))"
      using e 2 3 4 by auto
    then show ?thesis using assms(2,3,5) l1 l2 l3 l4 f
      by (simp add: live_free_ring list_all_iff add_mset_commute)
  qed
qed

text \<open>The example before its rings have been allocated.\<close>

definition example_no_rings :: "nat srp_state" where
  "example_no_rings = upd_ch 0 (\<lambda>ch. ch\<lparr>ch_tx_mem := None, ch_tx_ring := [], ch_rx_mem := None, ch_rx_ring := [],
     ch_free_tx := []\<rparr>) example_state"

theorem iu_bufs_all_or_nothing_witness:
  "fst (srp_alloc_iu_bufs (example_verbs 13) 0 example_no_rings) = - ENOMEM \<and>
   hw_live (st_hw (snd (srp_alloc_iu_bufs (example_verbs 13) 0 example_no_rings))) = {#}"
proof -
  have e: "fst (srp_alloc_iu_bufs (example_verbs 13) 0 example_no_rings) = - ENOMEM"
    "ch_tx_mem (chan example_no_rings 0) = None" "nch example_no_rings = 1" "st_hw example_no_rings = \<lparr>hw_env = 10, hw_log = []\<rparr>"
    by code_simp+
  show ?thesis
    using iu_bufs_all_or_nothing [OF prod.collapse [symmetric] _ refl e(2) refl refl, of "example_verbs 13"] e by simp
qed

section \<open>Requests\<close>

text \<open>A DMA address that the kernel returns is not zero. (The code takes zero to mean that nothing was mapped.)\<close>

definition dma_addr_nonzero :: "'e verbs \<Rightarrow> bool" where
  "dma_addr_nonzero V \<longleftrightarrow> (\<forall>p n d e. fst (v_dma_map_single V p n d e) \<noteq> Some 0)"

definition req_res :: "srp_request \<Rightarrow> resource multiset" where
  "req_res r = mset (map R_mem (req_mem r)) + (if req_indirect_dma_addr r \<noteq> 0 then {#R_dma (req_indirect_dma_addr r)#} else {#})"

abbreviation reqs_res :: "srp_request list \<Rightarrow> resource multiset" where
  "reqs_res rs \<equiv> sum_list (map req_res rs)"

lemma req_res_zeroed [simp]: "req_res zeroed_request = {#}"
  by (simp add: req_res_def zeroed_request_def)

lemma alloc_request_result:
  assumes "srp_alloc_request V dev t tag h = (ok, r, h')" and "dma_addr_nonzero V"
  shows "hw_live h' = hw_live h + req_res r"
proof -
  have dma: "hw_live g' = hw_live g + (case x of None \<Rightarrow> {#} | Some a \<Rightarrow> {#R_dma a#}) \<and> x \<noteq> Some 0"
    if "ib_dma_map_single V p n d g = (x, g')" for p n d g x g'
  proof -
    have "fst (v_dma_map_single V p n d (hw_env g)) = x"
      using that by (auto simp: ib_dma_map_single_def split: prod.splits option.splits)
    then show ?thesis using assms(2) live_dma_map_single [OF that] unfolding dma_addr_nonzero_def by metis
  qed
  show ?thesis
    using assms(1) unfolding srp_alloc_request_def
    by (auto simp: req_res_def zeroed_request_def split: prod.splits option.splits dest!: live_kzalloc dma)
qed

lemma live_kfrees: "hw_live (fold kfree ps h) = hw_live h - mset (map R_mem ps)"
  by (induction ps arbitrary: h) simp_all

lemma live_free_request: "hw_live (srp_free_request r h) = hw_live h - req_res r"
proof -
  have "mset (map R_mem (req_mem r)) = mset (map R_mem (take 2 (req_mem r))) + mset (map R_mem (drop 2 (req_mem r)))"
    by (metis append_take_drop_id map_append mset_append)
  then show ?thesis by (simp add: srp_free_request_def req_res_def live_kfrees ac_simps)
qed

lemma live_free_requests: "hw_live (fold srp_free_request rs h) = hw_live h - reqs_res rs"
  by (induction rs arbitrary: h) (simp_all add: live_free_request)

lemma alloc_requests_live:
  assumes "srp_alloc_requests V dev t c i n h = (k, rs, h')" and "dma_addr_nonzero V"
  shows "hw_live h' = hw_live h + reqs_res rs"
  using assms(1)
proof (induction n arbitrary: i h k rs h')
  case (Suc n)
  obtain ok r h1 where a: "srp_alloc_request V dev t (build_srp_tag (of_nat c) (of_nat i)) h = (ok, r, h1)" by (metis prod_cases3)
  obtain k' rs' h2 where b: "srp_alloc_requests V dev t c (Suc i) n h1 = (k', rs', h2)" by (metis prod_cases3)
  show ?case
    using Suc.prems a b alloc_request_result [OF a assms(2)] Suc.IH [OF b]
    by (cases ok) (auto simp: sum_list_replicate ac_simps)
qed simp

lemma alloc_request_shape:
  "srp_alloc_request V dev t tag h = (ok, r, h') \<Longrightarrow> req_scmnd r = None \<and> (ok \<longrightarrow> req_tag r = tag)"
  unfolding srp_alloc_request_def by (auto simp: zeroed_request_def split: prod.splits option.splits)

lemma alloc_requests_shape:
  assumes "srp_alloc_requests V dev t c i n h = (k, rs, h')"
  shows "length rs = n \<and> k \<le> n \<and> (\<forall>r \<in> set rs. req_scmnd r = None) \<and>
    (\<forall>j < k. req_tag (rs ! j) = build_srp_tag (of_nat c) (of_nat (i + j)))"
  using assms
proof (induction n arbitrary: i h k rs h')
  case (Suc n)
  obtain ok r h1 where a: "srp_alloc_request V dev t (build_srp_tag (of_nat c) (of_nat i)) h = (ok, r, h1)" by (metis prod_cases3)
  obtain k' rs' h2 where b: "srp_alloc_requests V dev t c (Suc i) n h1 = (k', rs', h2)" by (metis prod_cases3)
  show ?case
    using Suc.prems a b alloc_request_shape [OF a] Suc.IH [OF b]
    by (cases ok) (auto simp: zeroed_request_def nth_Cons' less_Suc_eq_0_disj ac_simps)
qed simp

text \<open>A channel whose requests are complete and all free.\<close>

definition idle_ch :: "nat \<Rightarrow> nat \<Rightarrow> srp_rdma_ch \<Rightarrow> bool" where
  "idle_ch n c ch \<longleftrightarrow> reqs_ok n c {} ch \<and> owned ch = {}"

lemma alloc_req_data_idle:
  assumes "srp_alloc_req_data V c s = (0, s')" and "c < nch s"
  shows "idle_ch (ring_size s) c (chan s' c)"
proof -
  let ?n = "ring_size s"
  obtain p h1 k rs h2 where 2: "srp_alloc_requests V (st_dev s) (st_target s) c 0 ?n h1 = (k, rs, h2)" "k = ?n"
    and s': "s' = upd_hw h2 (upd_ch c (\<lambda>ch. ch\<lparr>ch_free_reqs := [0..<k], ch_req_mem := Some p, ch_req_ring := rs\<rparr>) s)"
    using assms(1)
    by (auto simp: srp_alloc_req_data_def ring_size_def Let_def split: option.splits prod.splits if_splits)
  have "owned (chan s' c) = {}" using alloc_requests_shape [OF 2(1)] assms(2) by (auto simp: s' owned_def)
  then show ?thesis
    using alloc_requests_shape [OF 2(1)] assms(2) 2(2) by (auto simp: idle_ch_def reqs_ok_def s')
qed


lemma example_dma: "dma_addr_nonzero ((example_verbs n)\<lparr>v_dma_map_single := (\<lambda>p k d e. (if e < n then Some 4096 else None, Suc e))\<rparr>)"
  by (simp add: dma_addr_nonzero_def)

abbreviation example_dma_verbs :: "nat \<Rightarrow> nat verbs" where
  "example_dma_verbs n \<equiv> (example_verbs n)\<lparr>v_dma_map_single := (\<lambda>p k d e. (if e < n then Some 4096 else None, Suc e))\<rparr>"


text \<open>C17. \<^verbatim>\<open>srp_create_ch_ib()\<close> that fails, at whichever of its calls, leaves the channel and everything else of the target as it was and
  has released all it had created: after an error the channel can be used or freed as before.\<close>

theorem create_ch_ib_failure_releases:
  assumes "srp_create_ch_ib V c s = (ret, s')" and "ret \<noteq> 0"
  shows "hw_live (st_hw s') = hw_live (st_hw s) \<and> st_target s' = st_target s \<and> st_cmds s' = st_cmds s \<and>
    st_done s' = st_done s \<and> st_fault s' = st_fault s"
  using create_ch_ib_failure [OF assms] by (auto simp: upd_hw_def)

theorem create_ch_ib_failure_releases_witness:
  "fst (srp_create_ch_ib (example_verbs 14) 0 example_state) = - ENOMEM \<and>
   hw_live (st_hw (snd (srp_create_ch_ib (example_verbs 14) 0 example_state))) = {#}"
proof -
  have e: "fst (srp_create_ch_ib (example_verbs 14) 0 example_state) = - ENOMEM"
    "st_hw example_state = \<lparr>hw_env = 10, hw_log = []\<rparr>" by code_simp+
  show ?thesis using create_ch_ib_failure_releases [OF prod.collapse [symmetric], of "example_verbs 14" 0 example_state] e by simp
qed

end
