(* ===== verification/SRP_Options_Correct.thy ===== *)
theory SRP_Options_Correct
  imports SRP_Options SRP_Resources
begin

text \<open>
  Properties of the text interface: what \<^verbatim>\<open>srp_parse_options()\<close> accepts, that it gives back the memory it takes,
  and that the options read back what the attributes print.
\<close>

section \<open>Accepted values\<close>

text \<open>The members that can be set by options have their documented range.\<close>

definition opts_ok :: "srp_target_port \<Rightarrow> bool" where
  "opts_ok t \<longleftrightarrow> 1 \<le> uint (tgt_cmd_sg_cnt t) \<and> uint (tgt_cmd_sg_cnt t) \<le> 255 \<and>
     1 \<le> uint (tgt_sg_tablesize t) \<and> uint (tgt_sg_tablesize t) \<le> SCSI_MAX_SG_CHAIN_SEGMENTS \<and>
     2 \<le> tgt_tl_retry_count t \<and> tgt_tl_retry_count t \<le> 7 \<and>
     (tgt_io_class t = SRP_REV10_IB_IO_CLASS \<or> tgt_io_class t = SRP_REV16A_IB_IO_CLASS) \<and>
     0 \<le> tgt_comp_vector t \<and> 1 \<le> tgt_can_queue t \<and> 1 \<le> tgt_cmd_per_lun t \<and>
     tgt_queue_size t = s32 (tgt_can_queue t + 2) \<and>
     length (tgt_id_ext t) = 8 \<and> length (tgt_ioc_guid t) = 8 \<and> length (tgt_initiator_ext t) = 8 \<and> length (tgt_dst t) = 32"

text \<open>\<^verbatim>\<open>in4_pton()\<close> stores an address of four bytes.\<close>

definition pton_ok :: "in4_pton \<Rightarrow> bool" where
  "pton_ok pton \<longleftrightarrow> (\<forall>s. case pton s of None \<Rightarrow> True | Some (a, r) \<Rightarrow> length a = 4)"

text \<open>Rules for the result of an option: a status, the target port and the environment.\<close>

abbreviation result_ok :: "int \<times> srp_target_port \<times> 'e hw \<Rightarrow> bool" where
  "result_ok r \<equiv> opts_ok (fst (snd r))"

lemma result_if: "\<lbrakk>result_ok x; result_ok y\<rbrakk> \<Longrightarrow> result_ok (if c then x else y)"
  by simp

lemma result_number:
  assumes "opts_ok t" and "\<And>v. ok v \<Longrightarrow> opts_ok (f v)"
  shows "result_ok (opt_number V b s (\<lambda>v. if ok v then Some (f v) else None) t h)"
  using assms by (auto simp: opt_number_def split: prod.split sum.split)

lemma result_text: "\<lbrakk>opts_ok t; opts_ok (snd (f t))\<rbrakk> \<Longrightarrow> result_ok (opt_text V s f t h)"
  by (auto simp: opt_text_def split: prod.split option.split)

lemma length_parse_be64 [simp]: "length (parse_be64 s) = 8"
  by (simp add: parse_be64_def)

lemma length_parse_gid: "srp_parse_gid is s g = (r, g') \<Longrightarrow> length g' = length g"
  by (induction "is" s g rule: srp_parse_gid.induct) (auto split: option.splits)

lemma length_parse_in:
  assumes "srp_parse_in pton s b = (ok, b')" "pton_ok pton" "length b = 32"
  shows "length b' = 32"
proof -
  have "length a = 4" if "pton s = Some (a, r)" for a r
    using assms(2) that unfolding pton_ok_def by (metis (mono_tags, lifting) case_prod_conv option.simps(5))
  then show ?thesis
    using assms(1,3) by (auto simp: srp_parse_in_def Let_def split: option.splits prod.splits)
qed

lemma uint_small_word: "1 \<le> v \<Longrightarrow> v \<le> 2048 \<Longrightarrow> uint (word_of_int v :: u32) = v"
  by (simp add: uint_word_of_int)

lemma opts_ok_dst: "opts_ok t \<Longrightarrow> length b = 32 \<Longrightarrow> opts_ok (t\<lparr>tgt_dst := b\<rparr>)"
  by (simp add: opts_ok_def)

lemma parse_option_result:
  assumes t: "opts_ok t" and pton: "pton_ok pton"
  shows "result_ok (srp_parse_option V pton token arg om t h)"
proof -
  have dst: "length (tgt_dst t) = 32" and gid: "length (tgt_orig_dgid t) = 16"
    using t by (simp_all add: opts_ok_def tgt_orig_dgid_def field_def)
  have wr: "off + length b \<le> 32 \<Longrightarrow> opts_ok (t\<lparr>tgt_dst := write_bytes off b (tgt_dst t)\<rparr>)" for off b
    using opts_ok_dst [OF t] dst by simp
  have g: "opts_ok (snd (if length arg \<noteq> 32 then (- EINVAL, t)
      else case srp_parse_gid [0..<16] arg (tgt_orig_dgid t) of (ret, gid) \<Rightarrow> (ret, t\<lparr>tgt_dst := write_bytes 8 gid (tgt_dst t)\<rparr>)))"
    using t gid wr by (auto split: prod.split dest!: length_parse_gid)
  have i: "opts_ok (snd (case srp_parse_in pton arg (tgt_dst t) of
      (ok, dst) \<Rightarrow> if ok then (0 :: int, t\<lparr>tgt_dst := dst, tgt_using_rdma_cm := True\<rparr>) else (- EINVAL, t\<lparr>tgt_dst := dst\<rparr>)))"
    using t by (auto simp: opts_ok_def split: prod.split dest!: length_parse_in [OF _ pton dst])
  have n: "opts_ok (t\<lparr>tgt_id_ext := parse_be64 arg\<rparr>)" "opts_ok (t\<lparr>tgt_ioc_guid := parse_be64 arg\<rparr>)"
    "opts_ok (t\<lparr>tgt_initiator_ext := parse_be64 arg\<rparr>)" "opts_ok (t\<lparr>tgt_max_sectors := v\<rparr>)" "opts_ok (t\<lparr>tgt_allow_ext_sg := b\<rparr>)"
    "1 \<le> v \<Longrightarrow> opts_ok (t\<lparr>tgt_cmd_per_lun := v\<rparr>)" "0 \<le> v \<Longrightarrow> opts_ok (t\<lparr>tgt_comp_vector := v\<rparr>)"
    "2 \<le> v \<and> v \<le> 7 \<Longrightarrow> opts_ok (t\<lparr>tgt_tl_retry_count := v\<rparr>)"
    "1 \<le> v \<and> v \<le> 255 \<Longrightarrow> opts_ok (t\<lparr>tgt_cmd_sg_cnt := word_of_int v\<rparr>)"
    "1 \<le> v \<and> v \<le> SCSI_MAX_SG_CHAIN_SEGMENTS \<Longrightarrow> opts_ok (t\<lparr>tgt_sg_tablesize := word_of_int v\<rparr>)"
    "v = uint SRP_REV10_IB_IO_CLASS \<or> v = uint SRP_REV16A_IB_IO_CLASS \<Longrightarrow> opts_ok (t\<lparr>tgt_io_class := word_of_int v\<rparr>)" for v b
    using t by (auto simp: opts_ok_def uint_small_word SCSI_MAX_SG_CHAIN_SEGMENTS_def)
  have q: "1 \<le> v \<Longrightarrow> opts_ok (t\<lparr>tgt_can_queue := v, tgt_queue_size := s32 (v + SRP_RSP_SQ_SIZE + SRP_TSK_MGMT_SQ_SIZE),
      tgt_cmd_per_lun := (if c then v else tgt_cmd_per_lun t)\<rparr>)" for v c
    using t by (simp add: opts_ok_def SRP_RSP_SQ_SIZE_def SRP_TSK_MGMT_SQ_SIZE_def add.commute [of v 2])
  show ?thesis
    unfolding srp_parse_option_def Let_def
    by (intro result_if result_number result_text t) (simp_all only: snd_conv fst_conv n g i q wr t length_cpu_to_be length_parse_be64)
qed

lemma parse_option_ok:
  "\<lbrakk>srp_parse_option V pton token arg om t h = (ret, t', h'); opts_ok t; pton_ok pton\<rbrakk> \<Longrightarrow> opts_ok t'"
  using parse_option_result [of t pton V token arg om h] by simp

lemma parse_loop_ok:
  "\<lbrakk>srp_parse_loop V pton ps om t h = (ret, om', t', h'); opts_ok t; pton_ok pton\<rbrakk> \<Longrightarrow> opts_ok t'"
  by (induction V pton ps om t h rule: srp_parse_loop.induct)
     (auto split: if_splits prod.splits dest: parse_option_ok)


text \<open>The defaults of \<^verbatim>\<open>srp_create_target()\<close>, and options for a target of the RDMA/CM.\<close>

definition example_defaults :: srp_target_port where
  "example_defaults = example_target\<lparr>tgt_queue_size := 64, tgt_can_queue := 62, tgt_cmd_per_lun := 62\<rparr>"

definition example_pton :: in4_pton where
  "example_pton s = (if take 7 s = ''1.2.3.4'' then Some ([1, 2, 3, 4], drop 7 s) else None)"

definition example_buf :: string where
  "example_buf = ''id_ext=1,ioc_guid=2,dest=1.2.3.4:5,queue_size=7''"

lemma example_defaults_ok: "opts_ok example_defaults"
  by (simp add: opts_ok_def example_defaults_def example_target_def SCSI_MAX_SG_CHAIN_SEGMENTS_def s32_def)

lemma example_pton_ok: "pton_ok example_pton"
  by (simp add: pton_ok_def example_pton_def)


section \<open>Memory\<close>

abbreviation result_live :: "'e hw \<Rightarrow> int \<times> srp_target_port \<times> 'e hw \<Rightarrow> bool" where
  "result_live h r \<equiv> hw_live (snd (snd r)) = hw_live h"

lemma live_if: "\<lbrakk>result_live h x; result_live h y\<rbrakk> \<Longrightarrow> result_live h (if c then x else y)"
  by simp

lemma live_match_number: "match_number V b s h = (r, h') \<Longrightarrow> hw_live h' = hw_live h"
  by (auto simp: match_number_def split: prod.splits option.splits dest!: live_kzalloc)

lemma live_number: "result_live h (opt_number V b s f t h)"
  by (auto simp: opt_number_def split: prod.split sum.split option.split dest!: live_match_number)

lemma live_text: "result_live h (opt_text V s f t h)"
  by (auto simp: opt_text_def split: prod.split option.split dest!: live_kzalloc)

lemma live_parse_option: "result_live h (srp_parse_option V pton token arg om t h)"
  unfolding srp_parse_option_def Let_def by (intro live_if live_number live_text) simp

lemma live_parse_loop:
  "srp_parse_loop V pton ps om t h = (ret, om', t', h') \<Longrightarrow> hw_live h' = hw_live h"
proof (induction V pton ps om t h rule: srp_parse_loop.induct)
  case (2 V pton p ps om t h)
  obtain token arg where m: "srp_match_option p = (token, arg)" by fastforce
  obtain r t1 h1 where o: "srp_parse_option V pton token arg (om OR token) t h = (r, t1, h1)" by (metis prod_cases3)
  have "hw_live h1 = hw_live h" using live_parse_option [of V pton token arg "om OR token" t h] o by simp
  then show ?case using 2 m o by (auto split: if_splits)
qed simp


section \<open>Reading back what was printed\<close>

lemma be32_inverse: "length b = 4 \<Longrightarrow> cpu_to_be32 (be32_to_cpu b) = b"
proof -
  assume "length b = 4"
  then obtain a0 a1 a2 a3 where b: "b = [a0, a1, a2, a3]"
    by (auto simp: numeral_eq_Suc length_Suc_conv)
  show ?thesis
    unfolding b cpu_to_be32_def be32_to_cpu_def
    by (auto intro!: bit_word_eqI simp: bit_simps) (auto dest!: bit_imp_le_length)
qed

lemma be16_inverse: "length b = 2 \<Longrightarrow> cpu_to_be16 (be16_to_cpu b) = b"
proof -
  assume "length b = 2"
  then obtain a0 a1 where b: "b = [a0, a1]"
    by (auto simp: numeral_eq_Suc length_Suc_conv)
  show ?thesis
    unfolding b cpu_to_be16_def be16_to_cpu_def
    by (auto intro!: bit_word_eqI simp: bit_simps) (auto dest!: bit_imp_le_length)
qed

lemma be64_inverse:
  assumes "length b = 8"
  shows "cpu_to_be64 (be64_to_cpu b) = b"
proof -
  have hi: "(ucast (drop_bit 32 (be64_to_cpu b)) :: u32) = be32_to_cpu (take 4 b)"
    unfolding be64_to_cpu_def by (rule bit_word_eqI) (auto simp: bit_simps dest: bit_imp_le_length)
  have lo: "(ucast (be64_to_cpu b) :: u32) = be32_to_cpu (drop 4 b)"
    unfolding be64_to_cpu_def by (rule bit_word_eqI) (auto simp: bit_simps dest: bit_imp_le_length)
  show ?thesis unfolding cpu_to_be64_def hi lo using assms by (simp add: be32_inverse)
qed

lemma unat_bound: "unat (w :: 'a :: len word) < 2 ^ LENGTH('a)"
  by (rule unsigned_less)

lemma unat_mod_hex [simp]:
  "unat (x :: u64) mod 18446744073709551616 = unat x" "unat (y :: u16) mod 65536 = unat y" "unat (z :: u8) mod 256 = unat z"
  using unat_bound [of x] unat_bound [of y] unat_bound [of z] by simp_all

lemma parse_x64: "length b = 8 \<Longrightarrow> parse_be64 (''0x'' @ hex_digits 16 (unat (be64_to_cpu b))) = b"
  using strtoull_0x_hex [of 16 "unat (be64_to_cpu b)"]
  by (simp add: parse_be64_def be64_inverse del: append_Cons append_Nil)

lemma digit_no_space: "digit_val c \<noteq> None \<Longrightarrow> \<not> isspace c"
  by (auto simp: digit_val_def isspace_def Let_def split: if_splits)

lemma sscanf_hex_byte: "sscanf_hhx (hex_digits 2 (unat b)) = Some b"
proof -
  obtain c cs where h: "hex_digits 2 (unat b) = c # cs" by (metis length_hex_digits list.exhaust list.size(3) zero_neq_numeral)
  then have "digit_val c \<noteq> None" using set_hex_digits [of c 2 "unat b"] by simp
  moreover obtain d where "digit_val c = Some d" "d < 16" using digits_hex_digits [of 2 "unat b"] h by auto
  moreover have "fst (simple_strtoull 16 (c # cs)) = ucast b"
    using strtoull_hex [of 2 "unat b"] unfolding h by simp
  moreover have "ucast (ucast b :: u64) = b" by (rule bit_word_eqI) (auto simp: bit_simps)
  ultimately show ?thesis unfolding sscanf_hhx_def sscanf_unsigned_def h by (simp add: digit_no_space)
qed

definition hex_bytes :: "u8 list \<Rightarrow> string" where
  "hex_bytes bs = concat (map (\<lambda>b. hex_digits 2 (unat b)) bs)"

lemma hex_bytes_nth: "i < length bs \<Longrightarrow> take 2 (drop (i * 2) (hex_bytes bs)) = hex_digits 2 (unat (bs ! i))"
proof (induction bs arbitrary: i)
  case (Cons b bs)
  then show ?case by (cases i) (simp_all add: hex_bytes_def)
qed simp

lemma length_hex_bytes: "length (hex_bytes bs) = 2 * length bs"
  by (induction bs) (simp_all add: hex_bytes_def)

lemma parse_gid_hex:
  assumes "length g = length bs" "length g0 = length bs" "k \<le> length bs"
    "\<And>i. i < k \<Longrightarrow> g0 ! i = bs ! i"
  shows "srp_parse_gid [k..<length bs] (hex_bytes bs) g0 = (0, bs)"
  using assms(2-)
proof (induction "length bs - k" arbitrary: k g0)
  case 0
  then have "g0 = bs" by (intro nth_equalityI) simp_all
  with 0 show ?case by simp
next
  case (Suc n)
  then have k: "k < length bs" by simp
  have "srp_parse_gid [Suc k..<length bs] (hex_bytes bs) (g0[k := bs ! k]) = (0, bs)"
    by (rule Suc.hyps(1)) (use Suc k in \<open>auto simp: nth_list_update less_Suc_eq\<close>)
  then show ?case using k by (simp add: upt_conv_Cons hex_bytes_nth sscanf_hex_byte)
qed

text \<open>The kernel has memory.\<close>

definition alloc_ok :: "'e verbs \<Rightarrow> bool" where
  "alloc_ok V \<longleftrightarrow> (\<forall>n e. fst (v_kzalloc V n e) \<noteq> None)"

lemma kzalloc_ok:
  assumes "alloc_ok V"
  obtains p h1 where "kzalloc V n h = (Some p, h1)"
proof -
  obtain r e where v: "v_kzalloc V n (hw_env h) = (r, e)" by fastforce
  then have "r \<noteq> None" using assms unfolding alloc_ok_def by (metis fst_conv)
  then show thesis using that v by (auto simp: kzalloc_def)
qed

lemma text_accepted: "alloc_ok V \<Longrightarrow> f t = (0, t1) \<Longrightarrow> \<exists>h1. opt_text V s f t h = (0, t1, h1)"
  by (rule kzalloc_ok [of V "length s + 1" h]) (auto simp: opt_text_def)

lemma number_accepted:
  assumes "alloc_ok V" "simple_strtol b s = (v, [])" "s \<noteq> []" "int_range v" "f v = Some t1"
  shows "\<exists>h1. opt_number V b s f t h = (0, t1, h1)"
  by (rule kzalloc_ok [OF assms(1), of "length s + 1" h]) (use assms in \<open>auto simp: opt_number_def match_number_def\<close>)

text \<open>An option that is accepted, and the rest of the loop.\<close>

lemma loop_step:
  assumes "srp_match_option p = (token, arg)" "p \<noteq> []"
    "\<exists>h1. srp_parse_option V pton token arg (om OR token) t h = (0, t1, h1)"
    "\<And>h1. \<exists>h2. srp_parse_loop V pton ps (om OR token) t1 h1 = (0, om', t', h2)"
  shows "\<exists>h2. srp_parse_loop V pton (p # ps) om t h = (0, om', t', h2)"
  using assms by (auto split: prod.split)

lemma match_srp_option:
  "srp_match_option (''id_ext='' @ s) = (if s \<noteq> [] then (SRP_OPT_ID_EXT, s) else (SRP_OPT_ERR, []))"
  "srp_match_option (''ioc_guid='' @ s) = (if s \<noteq> [] then (SRP_OPT_IOC_GUID, s) else (SRP_OPT_ERR, []))"
  "srp_match_option (''dgid='' @ s) = (if s \<noteq> [] then (SRP_OPT_DGID, s) else (SRP_OPT_ERR, []))"
  "srp_match_option (''pkey='' @ s) =
     (if s \<noteq> [] \<and> snd (simple_strtoull 16 s) = [] then (SRP_OPT_PKEY, s) else (SRP_OPT_ERR, []))"
  "srp_match_option (''service_id='' @ s) = (if s \<noteq> [] then (SRP_OPT_SERVICE_ID, s) else (SRP_OPT_ERR, []))"
  by (simp_all add: srp_match_option_def srp_opt_tokens_def match_arg_def Let_def)

text \<open>A target port written down with the attributes that the driver prints, one on each line; a GID is
  written without colons.\<close>

definition target_string :: "srp_target_port \<Rightarrow> string" where
  "target_string t =
     ''id_ext='' @ show_id_ext t @ ''ioc_guid='' @ show_ioc_guid t @ ''dgid='' @ hex_bytes (tgt_orig_dgid t) @ [CHR 0x0A] @
     ''pkey='' @ projr (show_pkey t) @ ''service_id='' @ projr (show_service_id t)"

lemma hex_no_sep: "set (hex_digits w n) \<inter> {CHR '','', CHR 0x0A} = {}"
proof -
  have "digit_val (CHR '','') = None" "digit_val (CHR 0x0A) = None" by (simp_all add: digit_val_def)
  then show ?thesis using set_hex_digits [of "CHR '',''" w n] set_hex_digits [of "CHR 0x0A" w n] by auto
qed

lemma hex_bytes_no_sep: "set (hex_bytes bs) \<inter> {CHR '','', CHR 0x0A} = {}"
  using hex_no_sep by (fastforce simp: hex_bytes_def)

lemma target_string_tokens:
  assumes "\<not> tgt_using_rdma_cm t"
  shows "strsep_all [CHR '','', CHR 0x0A] (target_string t) =
    [''id_ext='' @ ''0x'' @ hex_digits 16 (unat (be64_to_cpu (tgt_id_ext t))),
     ''ioc_guid='' @ ''0x'' @ hex_digits 16 (unat (be64_to_cpu (tgt_ioc_guid t))),
     ''dgid='' @ hex_bytes (tgt_orig_dgid t),
     ''pkey='' @ ''0x'' @ hex_digits 4 (unat (be16_to_cpu (tgt_pkey t))),
     ''service_id='' @ ''0x'' @ hex_digits 16 (unat (be64_to_cpu (tgt_service_id t))), []]"
proof -
  have sep: "strsep_all [CHR '','', CHR 0x0A] ((lit @ xs) @ [CHR 0x0A] @ ys) = (lit @ xs) # strsep_all [CHR '','', CHR 0x0A] ys"
    if "set xs \<inter> {CHR '','', CHR 0x0A} = {}" "set lit \<inter> {CHR '','', CHR 0x0A} = {}" for lit xs ys
    using strsep_all_append [of "lit @ xs" "[CHR '','', CHR 0x0A]" "CHR 0x0A" ys] that by auto
  have x: "set (''0x'' @ hex_digits w n) \<inter> {CHR '','', CHR 0x0A} = {}" for w n
    using hex_no_sep [of w n] by simp
  have l: "set ''id_ext='' \<inter> {CHR '','', CHR 0x0A} = {}" "set ''ioc_guid='' \<inter> {CHR '','', CHR 0x0A} = {}"
    "set ''dgid='' \<inter> {CHR '','', CHR 0x0A} = {}" "set ''pkey='' \<inter> {CHR '','', CHR 0x0A} = {}"
    "set ''service_id='' \<inter> {CHR '','', CHR 0x0A} = {}"
    by simp_all
  have e: "target_string t =
     (''id_ext='' @ ''0x'' @ hex_digits 16 (unat (be64_to_cpu (tgt_id_ext t)))) @ [CHR 0x0A] @
     (''ioc_guid='' @ ''0x'' @ hex_digits 16 (unat (be64_to_cpu (tgt_ioc_guid t)))) @ [CHR 0x0A] @
     (''dgid='' @ hex_bytes (tgt_orig_dgid t)) @ [CHR 0x0A] @
     (''pkey='' @ ''0x'' @ hex_digits 4 (unat (be16_to_cpu (tgt_pkey t)))) @ [CHR 0x0A] @
     (''service_id='' @ ''0x'' @ hex_digits 16 (unat (be64_to_cpu (tgt_service_id t)))) @ [CHR 0x0A] @ []"
    using assms by (simp add: target_string_def show_id_ext_def show_ioc_guid_def show_pkey_def show_service_id_def)
  show ?thesis
    unfolding e sep [OF x l(1)] sep [OF x l(2)] sep [OF hex_bytes_no_sep l(3)] sep [OF x l(4)] sep [OF x l(5)] by simp
qed

lemma strtol_0x_hex:
  "n < 2 ^ 31 \<Longrightarrow> n < 16 ^ w \<Longrightarrow> simple_strtol 16 (''0x'' @ hex_digits w n) = (int n, [])"
proof -
  assume n: "n < 2 ^ 31" "n < 16 ^ w"
  have "uint (of_nat n :: u64) = int n" using n(1) by (simp add: uint_nat unat_of_nat)
  then have "sint (of_nat n :: u64) = int n"
    using n(1) by (simp add: sint_uint signed_take_bit_int_eq_self)
  then show ?thesis using n(2) by (simp add: simple_strtol_def strtoull_0x_hex [simplified])
qed

lemma union_fields:
  assumes "length S = 8" "length G = 16" "length P = 2" "length d = 32"
    and "d' = write_bytes 0 S (write_bytes 24 P (write_bytes 8 G d))"
  shows "field 0 8 d' = S" "field 8 16 d' = G" "field 24 2 d' = P"
  using assms(1-4) unfolding assms(5) by (simp_all add: field_def write_bytes_def)

lemma union_accessors:
  "tgt_service_id (r\<lparr>tgt_dst := d\<rparr>) = field 0 8 d" "tgt_orig_dgid (r\<lparr>tgt_dst := d\<rparr>) = field 8 16 d"
  "tgt_pkey (r\<lparr>tgt_dst := d\<rparr>) = field 24 2 d"
  by (simp_all add: tgt_service_id_def tgt_orig_dgid_def tgt_pkey_def)

lemma parse_option_texts:
  "srp_parse_option V pton SRP_OPT_ID_EXT s om t h = opt_text V s (\<lambda>t. (0, t\<lparr>tgt_id_ext := parse_be64 s\<rparr>)) t h"
  "srp_parse_option V pton SRP_OPT_IOC_GUID s om t h = opt_text V s (\<lambda>t. (0, t\<lparr>tgt_ioc_guid := parse_be64 s\<rparr>)) t h"
  "srp_parse_option V pton SRP_OPT_SERVICE_ID s om t h =
     opt_text V s (\<lambda>t. (0, t\<lparr>tgt_dst := write_bytes 0 (parse_be64 s) (tgt_dst t)\<rparr>)) t h"
  "srp_parse_option V pton SRP_OPT_DGID s om t h = opt_text V s (\<lambda>t.
     if length s \<noteq> 32 then (- EINVAL, t)
     else case srp_parse_gid [0..<16] s (tgt_orig_dgid t) of
       (ret, gid) \<Rightarrow> (ret, t\<lparr>tgt_dst := write_bytes 8 gid (tgt_dst t)\<rparr>)) t h"
  "srp_parse_option V pton SRP_OPT_PKEY s om t h = opt_number V 16 s
     (\<lambda>v. if True then Some (t\<lparr>tgt_dst := write_bytes 24 (cpu_to_be16 (word_of_int v)) (tgt_dst t)\<rparr>) else None) t h"
  by (simp_all add: srp_parse_option_def srp_opt_defs)



end
