(* ===== verification/SRP_Host_Correct.thy ===== *)
theory SRP_Host_Correct
  imports SRP_Host SRP_Options_Correct
begin

text \<open>
  The parameters \<^verbatim>\<open>srp_add_one()\<close> computes are those the memory mapping relies on, and the module parameters are in range.
\<close>

section \<open>The HCA\<close>

lemma uint_min: "uint (min a b :: 'a::len word) = min (uint a) (uint b)"
  by (simp add: min_def word_le_def)

lemma ffs_le: "\<lbrakk>bit w i; i < 32\<rbrakk> \<Longrightarrow> 0 < ffs w \<and> ffs w \<le> Suc i"
proof -
  assume a: "bit w i" "i < 32"
  show ?thesis
  proof (cases "List.find (bit w) [0..<32]")
    case None
    then show ?thesis using a by (auto simp: find_None_iff)
  next
    case (Some j)
    then have "j \<le> i" using a by (auto simp: find_Some_iff) (meson linorder_not_le order_less_trans)
    then show ?thesis by (simp add: ffs_def Some)
  qed
qed

lemma page_shift_bounds:
  assumes "bit (attr_page_size_cap attr) i" and "i \<le> 21"
  shows "12 \<le> srp_mr_page_shift attr" "srp_mr_page_shift attr \<le> 21"
proof -
  have "bit (ucast (attr_page_size_cap attr) :: u32) i" using assms by (simp add: bit_simps)
  then have "ffs (ucast (attr_page_size_cap attr)) \<le> Suc i" using ffs_le assms(2) by simp
  then show "12 \<le> srp_mr_page_shift attr" "srp_mr_page_shift attr \<le> 21"
    using assms(2) by (simp_all add: srp_mr_page_shift_def)
qed

lemma unat_page_size:
  assumes "k \<le> 21"
  shows "unat (ucast ((2 :: u32) ^ k) :: u64) = 2 ^ k"
proof -
  have p: "(2 :: nat) ^ k < 2 ^ 32" using assms by (intro power_strict_increasing) simp_all
  have "(2 :: u32) ^ k = of_nat (2 ^ k)" by simp
  also have "unat \<dots> = 2 ^ k" using p assms by (subst unsigned_of_nat) (simp add: take_bit_nat_eq_self)
  finally have "unat ((2 :: u32) ^ k) = 2 ^ k" .
  then show ?thesis using assms by (simp add: unsigned_ucast_eq take_bit_nat_eq_self)
qed

lemma max_pages_bounds:
  fixes m d :: u64
  assumes "0 < unat d" "unat d \<le> unat m"
  shows "0 < uint (min 512 (m div d))" "uint (min 512 (m div d)) \<le> 512"
proof -
  have "0 < unat (m div d)" unfolding unat_div div_greater_zero_iff using assms by blast
  then have "0 < int (unat (m div d))" by (simp only: of_nat_0_less_iff)
  then have "0 < uint (m div d)" by (simp only: uint_nat)
  then show "0 < uint (min 512 (m div d))" "uint (min 512 (m div d)) \<le> 512" by (simp_all add: uint_min)
qed

lemma init_device_ok:
  assumes "bit (attr_page_size_cap attr) i" and "i \<le> 21" and "2 ^ srp_mr_page_shift attr \<le> unat (attr_max_mr_size attr)"
    and "attr_mem_mgt_ext attr \<longrightarrow> 0 < attr_max_fast_reg_page_list_len attr"
  shows "dev_ok (srp_init_device prefer_fr has_fmr attr mr) \<and>
    4096 \<le> dev_mr_page_size (srp_init_device prefer_fr has_fmr attr mr) \<and>
    dev_max_pages_per_mr (srp_init_device prefer_fr has_fmr attr mr) \<le> 512"
proof -
  let ?k = "srp_mr_page_shift attr" and ?d = "srp_init_device prefer_fr has_fmr attr mr"
  note k = page_shift_bounds [OF assms(1,2)]
  have p: "(2 :: int) ^ 12 \<le> 2 ^ ?k" "(2 :: int) ^ ?k \<le> 2 ^ 21" using k by (intro power_increasing; simp)+
  then have s: "s32 (2 ^ ?k) = 2 ^ ?k" by (intro s32_id) (simp add: int_range_def)
  define m :: u64 where "m = min 512 (attr_max_mr_size attr div ucast ((2 :: u32) ^ ?k))"
  have b: "0 < uint m" "uint m \<le> 512" 
    using max_pages_bounds [of "ucast ((2 :: u32) ^ ?k)" "attr_max_mr_size attr"] unat_page_size [OF k(2)] assms(3)
    unfolding m_def by simp_all
  have u: "uint (ucast m :: u32) = uint m" using b by (simp add: unsigned_ucast_eq take_bit_int_eq_self)
  have d: "dev_max_pages_per_mr ?d = (if dev_use_fast_reg ?d then min (uint m) (uint (attr_max_fast_reg_page_list_len attr)) else uint m)"
    "dev_use_fast_reg ?d \<Longrightarrow> attr_mem_mgt_ext attr"
    "dev_mr_page_size ?d = 2 ^ ?k" "dev_mr_page_mask ?d = NOT (mask ?k)"
    "dev_mr_max_size ?d = s32 (2 ^ ?k * dev_max_pages_per_mr ?d)"
    by (simp_all add: srp_init_device_def Let_def s u m_def [symmetric] uint_min SRP_MAX_PAGES_PER_MR_def mask_eq_exp_minus_1) (auto simp: min_def)
  have n: "0 < dev_max_pages_per_mr ?d" "dev_max_pages_per_mr ?d \<le> 512"
    using b assms(4) d(1,2) by (auto simp: word_less_def)
  have "2 ^ ?k * dev_max_pages_per_mr ?d \<le> 2 ^ 21 * 512" "0 \<le> 2 ^ ?k * dev_max_pages_per_mr ?d"
    using n p by (intro mult_mono mult_nonneg_nonneg; simp)+
  then have "dev_mr_max_size ?d = 2 ^ ?k * dev_max_pages_per_mr ?d" "2 ^ ?k * dev_max_pages_per_mr ?d < 2 ^ 31"
    by (simp_all add: d(5) int_range_def)
  moreover have "?k < 31" using k by simp
  ultimately have "dev_ok ?d" unfolding dev_ok_def using d(3,4) n by metis
  then show ?thesis using d(3) n p by simp
qed

text \<open>C22. \<^verbatim>\<open>srp_add_one()\<close> and the memory mapping. When the HCA supports a page size of at most 2 MB, a memory region can hold a
  page of the size that is chosen, and, for fast registration, a page list is not empty, the parameters that are computed
  are consistent: the page size is a power of two of at least 4096 with the matching mask, at least one page fits in a region,
  and the maximal size of a region is the product of both and does not overflow. This is what the mapping of a command relies on.\<close>

theorem add_one_device_ok:
  assumes "bit (attr_page_size_cap attr) i" and "i \<le> 21" and "2 ^ srp_mr_page_shift attr \<le> unat (attr_max_mr_size attr)"
    and "attr_mem_mgt_ext attr \<longrightarrow> 0 < attr_max_fast_reg_page_list_len attr"
  shows "dev_ok (srp_init_device prefer_fr has_fmr attr mr) \<and>
    4096 \<le> dev_mr_page_size (srp_init_device prefer_fr has_fmr attr mr) \<and>
    dev_max_pages_per_mr (srp_init_device prefer_fr has_fmr attr mr) \<le> 512"
  by (rule init_device_ok [OF assms])

definition example_attr :: ib_device_attr where
  "example_attr = \<lparr>attr_page_size_cap = 0xfffffe00, attr_max_mr_size = 0xffffffff, attr_max_fast_reg_page_list_len = 511,
     attr_mem_mgt_ext = True\<rparr>"

theorem add_one_device_ok_witness:
  "dev_ok (srp_init_device True True example_attr 1) \<and> dev_mr_page_size (srp_init_device True True example_attr 1) = 4096 \<and>
   dev_max_pages_per_mr (srp_init_device True True example_attr 1) = 511"
proof -
  have s: "srp_mr_page_shift example_attr = 12" by code_simp
  have e: "dev_mr_page_size (srp_init_device True True example_attr 1) = 4096"
    "dev_max_pages_per_mr (srp_init_device True True example_attr 1) = 511"
    by code_simp+
  have 1: "bit (attr_page_size_cap example_attr) 9" by (simp add: example_attr_def bit_numeral_rec)
  have 2: "2 ^ srp_mr_page_shift example_attr \<le> unat (attr_max_mr_size example_attr)"
    unfolding s by (simp add: example_attr_def)
  have 3: "attr_mem_mgt_ext example_attr \<longrightarrow> 0 < attr_max_fast_reg_page_list_len example_attr"
    by (simp add: example_attr_def)
  have 4: "9 \<le> (21 :: nat)" by simp
  show ?thesis by (rule conjI [OF conjunct1 [OF add_one_device_ok [OF 1 4 2 3]] conjI [OF e]])
qed

section \<open>Module parameters\<close>

text \<open>C38. The module parameters. Whatever was given on the command line, \<^verbatim>\<open>srp_init_module()\<close> leaves \<^verbatim>\<open>cmd_sg_entries\<close> between 1 and 255
  and \<^verbatim>\<open>indirect_sg_entries\<close> at least as large, and a second pass changes nothing; values that were already so are kept, also
  one of \<^verbatim>\<open>indirect_sg_entries\<close> above 2048, which the description of the parameter names as the maximum.\<close>

theorem init_params_range:
  "(case srp_init_params tablesize cmd indirect of
      (c, i) \<Rightarrow> 1 \<le> c \<and> c \<le> 255 \<and> c \<le> i \<and> srp_init_params tablesize c i = (c, i) \<and>
        (1 \<le> cmd \<and> cmd \<le> 255 \<and> cmd \<le> indirect \<longrightarrow> c = cmd \<and> i = indirect))"
proof -
  have z: "1 \<le> w \<longleftrightarrow> w \<noteq> 0" for w :: u32 by (metis linorder_not_less word_less_1)
  have kept: "srp_init_params tablesize c i = (c, i)" if "1 \<le> c" "c \<le> 255" "c \<le> i" for c i
  proof -
    have "c \<noteq> 0" "\<not> 255 < c" "i \<noteq> 0" "\<not> i < c" using that z [of c] by (auto simp: not_less)
    then show ?thesis by (simp add: srp_init_params_def)
  qed
  obtain c i where r: "srp_init_params tablesize cmd indirect = (c, i)" by fastforce
  define c2 where "c2 = (let c1 = if tablesize \<noteq> 0 \<and> cmd = 0 then tablesize else cmd in if c1 = 0 then 12 else c1)"
  have c2: "c2 \<noteq> 0" by (simp add: c2_def Let_def)
  have ci: "c = (if 255 < c2 then 255 else c2)" "i = (if indirect = 0 then c else if indirect < c then c else indirect)"
    using r by (auto simp: srp_init_params_def c2_def Let_def SRP_DEF_SG_TABLESIZE_def)
  have "1 \<le> c" "c \<le> 255" "c \<le> i" using c2 by (auto simp: ci z not_less)
  then show ?thesis using kept r by auto
qed

theorem init_params_range_witness:
  "srp_init_params 0 255 4096 = (255, 4096)"
  using init_params_range [of 0 255 4096] by (auto split: prod.splits)

end
