(* ===== verification/SRP_Bring_Up.thy ===== *)
theory SRP_Bring_Up
  imports SRP_Host_Correct
begin

text \<open>
  The channels of a new target port: the loops of \<^verbatim>\<open>srp_create_target()\<close> establish the invariant on which the accounting
  of commands rests, and a map from CPUs to channels that are there.
\<close>

section \<open>What happens to a channel without commands\<close>

text \<open>While other channels are being set up, events arrive. They leave the requests of a channel without commands alone.\<close>

definition quiet :: "'e srp_state \<Rightarrow> 'e srp_state \<Rightarrow> bool" where
  "quiet s s' \<longleftrightarrow> nch s' = nch s \<and>
     (\<forall>c < nch s. owned (chan s c) = {} \<longrightarrow>
        ch_req_ring (chan s' c) = ch_req_ring (chan s c) \<and> ch_free_reqs (chan s' c) = ch_free_reqs (chan s c))"

lemma owned_ring: "ch_req_ring a = ch_req_ring b \<Longrightarrow> owned a = owned b"
  by (simp add: owned_def)

lemma quiet_trans: "\<lbrakk>quiet r s; quiet s t\<rbrakk> \<Longrightarrow> quiet r t"
  unfolding quiet_def by (metis owned_ring)

lemma quiet_same:
  assumes "nch s' = nch s" "\<And>d. d < nch s \<Longrightarrow> d \<noteq> c \<or> owned (chan s c) = {} \<Longrightarrow>
      ch_req_ring (chan s' d) = ch_req_ring (chan s d) \<and> ch_free_reqs (chan s' d) = ch_free_reqs (chan s d)"
  shows "quiet s s'"
  using assms unfolding quiet_def by metis

lemma quiet_upd_ch:
  "\<lbrakk>ch_req_ring (f (chan s c)) = ch_req_ring (chan s c); ch_free_reqs (f (chan s c)) = ch_free_reqs (chan s c)\<rbrakk> \<Longrightarrow>
   quiet s (upd_ch c f s)"
  by (cases "c < nch s") (simp_all add: quiet_def, simp add: upd_defs list_update_beyond)

lemma quiet_upd:
  "quiet r s \<Longrightarrow> quiet r (upd_cmd m g s)"
  "quiet r s \<Longrightarrow> quiet r (upd_hw h s)"
  "quiet r s \<Longrightarrow> quiet r (fault x s)"
  "quiet r s \<Longrightarrow> quiet r (scsi_done m s)"
  by (simp_all add: quiet_def)

lemma quiet_step_ch:
  "\<lbrakk>quiet r s; ch_req_ring (f (chan s c)) = ch_req_ring (chan s c); ch_free_reqs (f (chan s c)) = ch_free_reqs (chan s c)\<rbrakk> \<Longrightarrow>
   quiet r (upd_ch c f s)"
  by (erule quiet_trans) (rule quiet_upd_ch)

text \<open>The channel \<open>c\<close>, which has a command, is the only one that changes.\<close>

definition others_same :: "nat \<Rightarrow> 'e srp_state \<Rightarrow> 'e srp_state \<Rightarrow> bool" where
  "others_same c s s' \<longleftrightarrow> nch s' = nch s \<and> (\<forall>d < nch s. d \<noteq> c \<longrightarrow> chan s' d = chan s d)"

lemma others_upd:
  "others_same c s s"
  "others_same c r s \<Longrightarrow> others_same c r (upd_cmd m g s)"
  "others_same c r s \<Longrightarrow> others_same c r (upd_hw h s)"
  "others_same c r s \<Longrightarrow> others_same c r (fault x s)"
  "others_same c r s \<Longrightarrow> others_same c r (scsi_done m s)"
  by (simp_all add: others_same_def)

lemma others_upd_ch: "others_same c r s \<Longrightarrow> others_same c r (upd_ch c f s)"
  by (cases "c < nch s") (simp_all add: others_same_def, simp add: upd_defs list_update_beyond)

lemma others_upd_tgt: "\<lbrakk>others_same c r s; \<And>t. tgt_ch (k t) = tgt_ch t\<rbrakk> \<Longrightarrow> others_same c r (upd_tgt k s)"
  by (simp add: others_same_def upd_tgt_def)

lemma others_upd_req: "others_same c r s \<Longrightarrow> others_same c r (upd_req c i f s)"
  unfolding upd_req_def by (rule others_upd_ch)

lemma others_free_req: "others_same c r s \<Longrightarrow> others_same c r (srp_free_req V c i m d s)"
  unfolding srp_free_req_def srp_unmap_req_def Let_def split_beta
  by (intro others_upd_ch others_upd_req others_upd(2-) others_upd_tgt) simp_all

lemma others_copy_sense: "others_same c r s \<Longrightarrow> others_same c r (srp_copy_sense m rsp s)"
  unfolding srp_copy_sense_def Let_def by (simp add: others_upd)

lemma quiet_others: "\<lbrakk>others_same c s s'; owned (chan s c) \<noteq> {}\<rbrakk> \<Longrightarrow> quiet s s'"
  unfolding others_same_def quiet_def by metis

lemma claim_idle:
  assumes "owned (chan s c) = {}"
  shows "srp_claim_req c i None None s = (None, s) \<or> srp_claim_req c i None None s = (None, fault Bad_Pointer s)"
  using assms by (auto simp: srp_claim_req_def owned_def split: option.split)

lemma quiet_refl: "quiet s s"
  by (simp add: quiet_def)

lemma quiet_add_credits: "quiet r s \<Longrightarrow> quiet r (srp_add_credits c d s)"
  unfolding srp_add_credits_def by (rule quiet_step_ch) simp_all

lemma others_claim_req: "others_same c s (snd (srp_claim_req c i sdev scmnd s))"
  by (auto simp: srp_claim_req_def intro: others_upd others_upd_req split: option.split)

lemma others_process_rsp:
  assumes "rsp_tag rsp AND ucast SRP_TAG_TSK_MGMT = 0"
  shows "others_same c s (srp_process_rsp V c rsp s)"
  using assms unfolding srp_process_rsp_def Let_def srp_add_credits_def
  by (auto simp: split_beta others_claim_req intro!: others_upd others_upd_ch others_free_req others_copy_sense split: option.split)

lemma quiet_process_rsp: "quiet s (srp_process_rsp V c rsp s)"
proof (cases "rsp_tag rsp AND ucast SRP_TAG_TSK_MGMT = 0")
  case False
  then show ?thesis
    unfolding srp_process_rsp_def Let_def
    by (auto intro!: quiet_step_ch quiet_upd quiet_add_credits quiet_refl)
next
  case True
  show ?thesis
  proof (cases "owned (chan s c) = {}")
    case False
    then show ?thesis using quiet_others [OF others_process_rsp [OF True]] by blast
  next
    case idle: True
    let ?i = "unat (srp_tag_idx (ucast (rsp_tag rsp)))"
    from claim_idle [OF idle, of ?i] True show ?thesis
      unfolding srp_process_rsp_def Let_def
      by (auto intro!: quiet_upd quiet_add_credits quiet_refl)
  qed
qed

interpretation qt: driver_relation V quiet for V
proof (unfold_locales, goal_cases)
  case (11 s c)
  show ?case
    by (rule quiet_trans [OF quiet_upd_ch [of "\<lambda>ch. ch\<lparr>ch_connected := False\<rparr>" s c]]) (simp_all add: quiet_def)
next
  case 12 show ?case by (rule quiet_process_rsp)
qed (erule (1) quiet_trans | rule quiet_upd_ch, assumption, assumption | simp add: quiet_def)+

context driver_relation
begin

lemma R_free_ch_ib [keeps]: "R r s \<Longrightarrow> R r (srp_free_ch_ib V c s)"
  unfolding srp_free_ch_ib_def Let_def by (auto intro!: keeps)

end

section \<open>Channels that have been set up\<close>

lemma idle_cong:
  "\<lbrakk>idle_ch n c a; ch_req_ring b = ch_req_ring a; ch_free_reqs b = ch_free_reqs a\<rbrakk> \<Longrightarrow> idle_ch n c b"
  using owned_ring [of b a] by (auto simp: idle_ch_def reqs_ok_def)

text \<open>The first \<open>b\<close> channels have been set up.\<close>

definition chs_ready :: "nat \<Rightarrow> 'e srp_state \<Rightarrow> bool" where
  "chs_ready b s \<longleftrightarrow> tgt_ch_count (st_target s) = nch s \<and> b \<le> nch s \<and> (\<forall>d < b. idle_ch (ring_size s) d (chan s d))"

definition map_below :: "nat \<Rightarrow> 'e srp_state \<Rightarrow> bool" where
  "map_below b s \<longleftrightarrow> (\<forall>v \<in> set (tgt_mq_map (st_target s)). v < max 1 b)"

lemma static_ring_size: "static s' = static s \<Longrightarrow> ring_size s' = ring_size s"
  using staticD(5) by (metis ring_size_def)

lemma ready_quiet: "\<lbrakk>static s' = static s; quiet s s'; chs_ready b s\<rbrakk> \<Longrightarrow> chs_ready b s'"
  using staticD(3,4) [of s' s] static_ring_size [of s' s] unfolding chs_ready_def quiet_def
  by (metis idle_ch_def idle_cong order_less_le_trans)

lemma ready_others: "\<lbrakk>static s' = static s; others_same c s s'; b \<le> c; chs_ready b s\<rbrakk> \<Longrightarrow> chs_ready b s'"
  using staticD(3,4) [of s' s] static_ring_size [of s' s] unfolding chs_ready_def others_same_def
  by (metis order_less_le_trans less_irrefl)

lemma alloc_req_data_frame:
  "static (snd (srp_alloc_req_data V c s)) = static s" "others_same c s (snd (srp_alloc_req_data V c s))"
  unfolding srp_alloc_req_data_def Let_def
  by (auto intro!: others_upd others_upd_ch split: option.split prod.split)

lemma free_req_data_frame:
  "static (srp_free_req_data c s) = static s" "others_same c s (srp_free_req_data c s)"
  unfolding srp_free_req_data_def by (auto intro!: others_upd others_upd_ch split: option.split)

lemma setup_ch_ready:
  assumes "srp_setup_ch V c cv s = (0, s')" "c < nch s" "chs_ready c s"
  shows "static s' = static s" "chs_ready (Suc c) s'"
proof -
  define s0 where "s0 = upd_ch c (\<lambda>ch. ch\<lparr>ch_target := True, ch_comp_vector := cv, ch_free_tx := []\<rparr>) s"
  obtain r1 s1 where 1: "srp_new_cm_id V c s0 = (r1, s1)" by fastforce
  obtain r2 s2 where 2: "srp_create_ch_ib V c s1 = (r2, s2)" by fastforce
  have 3: "srp_alloc_req_data V c s2 = (0, s')"
    using assms(1) 1 2 by (simp add: srp_setup_ch_def s0_def split: if_splits)
  have q0: "quiet s s0" "static s0 = static s" unfolding s0_def by (simp_all add: quiet_upd_ch)
  have q1: "quiet s0 s1" "static s1 = static s0"
    using qt.R_new_cm_id [OF qt.R_refl, of s0 V c] stl.R_new_cm_id [OF settled_refl, of s0 V c] 1
    by (simp_all add: settled_static)
  have q2: "quiet s1 s2" "static s2 = static s1"
    using qt.R_create_ch_ib [OF qt.R_refl, of s1 V c] stl.R_create_ch_ib [OF settled_refl, of s1 V c] 2
    by (simp_all add: settled_static)
  have st: "static s2 = static s" using q0 q1 q2 by simp
  have r2: "chs_ready c s2" using ready_quiet q0 q1 q2 assms(3) by metis
  have f: "static s' = static s2" "others_same c s2 s'" using alloc_req_data_frame [where V = V and c = c and s = s2] 3 by simp_all
  have c2: "c < nch s2" using assms(2) staticD(3) [OF st] by simp
  show "static s' = static s" using f st by simp
  have r3: "chs_ready c s'" using ready_others [OF f order_refl r2] .
  have "idle_ch (ring_size s') c (chan s' c)"
    using alloc_req_data_idle [OF 3 c2] static_ring_size [OF f(1)] by simp
  moreover have "Suc c \<le> nch s'" using c2 staticD(3) [OF f(1)] by simp
  ultimately show "chs_ready (Suc c) s'" using r3 by (auto simp: chs_ready_def less_Suc_eq)
qed

lemma connect_ch_ready:
  assumes "srp_connect_ch V c multich s = (ret, s')" "chs_ready b s"
  shows "static s' = static s" "chs_ready b s'"
proof -
  have "quiet s s'" "static s' = static s"
    using qt.R_connect_ch [OF qt.R_refl, of s V c multich] stl.R_connect_ch [OF settled_refl, of s V c multich] assms(1)
    by (simp_all add: settled_static)
  then show "static s' = static s" "chs_ready b s'" using ready_quiet assms(2) by blast+
qed

section \<open>The loops\<close>

lemma static_set_mq_map: "tgt_ch (st_target (set_mq_map cpu v s)) = tgt_ch (st_target s)"
  "tgt_ch_count (st_target (set_mq_map cpu v s)) = tgt_ch_count (st_target s)"
  "ring_size (set_mq_map cpu v s) = ring_size s"
  "tgt_mq_map (st_target (set_mq_map cpu v s)) = (tgt_mq_map (st_target s))[cpu := v]"
  by (simp_all add: set_mq_map_def upd_tgt_def ring_size_def)

lemma ready_set_mq_map [simp]: "chs_ready b (set_mq_map cpu v s) = chs_ready b s"
  by (simp add: chs_ready_def static_set_mq_map)

lemma map_below_set: "\<lbrakk>map_below b s; v < max 1 b\<rbrakk> \<Longrightarrow> map_below b (set_mq_map cpu v s)"
  using set_update_subset_insert [of "tgt_mq_map (st_target s)" cpu v] by (auto simp: map_below_def static_set_mq_map)

lemma map_below_mono: "\<lbrakk>map_below a s; a \<le> b\<rbrakk> \<Longrightarrow> map_below b s"
  by (force simp: map_below_def)

lemma map_below_static: "static s' = static s \<Longrightarrow> map_below b s' = map_below b s"
  using staticD(7) [of s' s] by (simp add: map_below_def)

abbreviation mq_len :: "'e srp_state \<Rightarrow> nat" where
  "mq_len s \<equiv> length (tgt_mq_map (st_target s))"

lemma mq_len_set [simp]: "mq_len (set_mq_map cpu v s) = mq_len s"
  by (simp add: static_set_mq_map)

text \<open>What the loops achieve: after the loops all of \<open>b\<close> channels, or those that were left, are ready, and the map leads to them
  when the first CPU is 0.\<close>

definition setup_ok :: "nat \<Rightarrow> 'e srp_state \<Rightarrow> 'e ch_setup \<Rightarrow> bool" where
  "setup_ok b s r \<longleftrightarrow> (case r of
      Setup_Failed _ _ \<Rightarrow> True
    | Setup_Connected first s' \<Rightarrow>
        chs_ready (nch s') s' \<and> 0 < nch s' \<and> mq_len s' = mq_len s \<and> (first = 0 \<longrightarrow> map_below (nch s') s')
    | Setup_Next first _ s' \<Rightarrow> chs_ready b s' \<and> nch s' = nch s \<and> mq_len s' = mq_len s \<and> map_below b s')"

lemma setup_ok_frame: "\<lbrakk>setup_ok b s r; nch s = nch t; mq_len s = mq_len t\<rbrakk> \<Longrightarrow> setup_ok b t r"
  by (auto simp: setup_ok_def split: ch_setup.splits)

lemma drop_ch_ready:
  assumes "chs_ready c s" "c < nch s"
  shows "chs_ready c (srp_drop_ch V c cpu first s) \<and> nch (srp_drop_ch V c cpu first s) = c \<and>
    tgt_mq_map (st_target (srp_drop_ch V c cpu first s)) = (tgt_mq_map (st_target s))[cpu := as_entry first]"
proof -
  let ?s1 = "srp_free_ch_ib V c s"
  let ?s2 = "srp_free_req_data c ?s1"
  have q: "quiet s ?s1" "static ?s1 = static s"
    using qt.R_free_ch_ib [OF qt.R_refl, of s V c] stl.R_free_ch_ib [OF settled_refl, of s V c] by (simp_all add: settled_static)
  have "chs_ready c ?s2"
    using ready_others [OF free_req_data_frame order_refl ready_quiet [OF q(2,1) assms(1)]] .
  moreover have "static ?s2 = static s" using free_req_data_frame(1) q(2) by metis
  ultimately show ?thesis
    using staticD(3,7) [of ?s2 s] assms(2)
    by (auto simp: srp_drop_ch_def chs_ready_def upd_tgt_def set_mq_map_def ring_size_def)
qed

lemma setup_connected_ok:
  assumes "chs_ready c s'" "c < nch s'" "tgt_mq_map (st_target s') = (tgt_mq_map (st_target s))[cpu := c]" "0 < c" "map_below c s"
  shows "setup_ok b s (Setup_Connected first (srp_drop_ch V c cpu first s'))"
proof -
  note d = drop_ch_ready [OF assms(1,2), of V cpu first]
  have "map_below c (srp_drop_ch V c cpu 0 s')"
    using map_below_set [OF assms(5), of 0 cpu] drop_ch_ready [OF assms(1,2), of V cpu 0] assms(3)
    by (simp add: map_below_def static_set_mq_map)
  then show ?thesis using d assms(3,4) by (auto simp: setup_ok_def)
qed

lemma setup_cpus_ok:
  assumes "chs_ready (ch_start + cpu_idx) s" "map_below (ch_start + cpu_idx) s"
    and "ch_start + cpu_idx \<le> ch_end" "ch_end \<le> nch s" "ch_start < ch_end" "node_idx \<noteq> 0 \<Longrightarrow> 0 < ch_start"
  shows "setup_ok (ch_start + min (ch_end - ch_start) (cpu_idx + length (filter (\<lambda>cpu. cpu_to_node T cpu = node) cpus))) s
    (srp_setup_cpus V T node_idx node (ch_start, ch_end) cvs cpus cpu_idx first multich s)"
  using assms(1-4)
proof (induction cpus arbitrary: cpu_idx first multich s)
  case Nil
  then have "ch_start + min (ch_end - ch_start) cpu_idx = ch_start + cpu_idx" by simp
  then show ?case using Nil by (simp add: setup_ok_def)
next
  case (Cons cpu cpus)
  obtain cv cv' where cvs: "cvs = (cv, cv')" by fastforce
  let ?c = "ch_start + cpu_idx" and ?f = "if first < 0 then int cpu else first"
  let ?s1 = "set_mq_map cpu (srp_pick_ch ch_start ch_end cpu_idx) s"
  show ?case
  proof (cases "cpu_to_node T cpu = node")
    case False
    then show ?thesis using Cons by (simp add: cvs)
  next
    case node: True
    show ?thesis
    proof (cases "ch_end \<le> ?c")
      case True
      then have i: "cpu_idx = ch_end - ch_start" using Cons.prems(3) by simp
      have "map_below ?c ?s1"
        using Cons.prems(2) assms(5) by (intro map_below_set) (auto simp: srp_pick_ch_def i)
      then have "setup_ok (ch_start + min (ch_end - ch_start) (cpu_idx + length (filter (\<lambda>cpu. cpu_to_node T cpu = node) cpus))) ?s1
          (srp_setup_cpus V T node_idx node (ch_start, ch_end) cvs cpus cpu_idx ?f multich ?s1)"
        using Cons.prems by (intro Cons.IH) (simp_all add: static_set_mq_map)
      then show ?thesis
        using node True i by (auto simp: cvs Let_def static_set_mq_map elim!: setup_ok_frame)
    next
      case False
      then have lt: "?c < nch s" and p: "srp_pick_ch ch_start ch_end cpu_idx = ?c"
        using Cons.prems(4) assms(5) by (simp_all add: srp_pick_ch_def)
      obtain r2 s2 where 2: "srp_setup_ch V ?c (srp_pick_vector cv cv' cpu_idx) ?s1 = (r2, s2)" by fastforce
      obtain r3 s3 where 3: "srp_connect_ch V ?c multich s2 = (r3, s3)" by fastforce
      have e: "srp_setup_cpus V T node_idx node (ch_start, ch_end) cvs (cpu # cpus) cpu_idx first multich s =
          (if r2 \<noteq> 0 then Setup_Failed r2 s2
           else if r3 \<noteq> 0 then if node_idx = 0 \<and> cpu_idx = 0 then Setup_Failed r3 s3
             else Setup_Connected ?f (srp_drop_ch V ?c cpu ?f s3)
           else srp_setup_cpus V T node_idx node (ch_start, ch_end) cvs cpus (cpu_idx + 1) ?f True s3)"
        using node False 2 3 by (simp add: cvs Let_def)
      show ?thesis
      proof (cases "r2 = 0")
        case False
        then show ?thesis unfolding e by (simp add: setup_ok_def)
      next
        case True
        have r2: "static s2 = static ?s1" "chs_ready (Suc ?c) s2"
          using setup_ch_ready [of V ?c _ ?s1 s2] 2 True lt Cons.prems(1) by (simp_all add: static_set_mq_map)
        note r3 = connect_ch_ready [OF 3 r2(2)]
        have st: "static s3 = static ?s1" using r2(1) r3(1) by simp
        note fr = staticD(3,7) [OF st, unfolded static_set_mq_map p]
        have "setup_ok (ch_start + min (ch_end - ch_start) (cpu_idx + 1 + length (filter (\<lambda>cpu. cpu_to_node T cpu = node) cpus))) s3
            (srp_setup_cpus V T node_idx node (ch_start, ch_end) cvs cpus (cpu_idx + 1) ?f True s3)"
        proof (rule Cons.IH)
          show "chs_ready (ch_start + (cpu_idx + 1)) s3" using r3(2) by simp
          have "map_below (ch_start + (cpu_idx + 1)) s" using map_below_mono [OF Cons.prems(2)] by simp
          then show "map_below (ch_start + (cpu_idx + 1)) s3"
            unfolding map_below_static [OF st] p by (rule map_below_set) simp
        qed (use \<open>\<not> ch_end \<le> ?c\<close> Cons.prems(4) fr in simp_all)
        then have "setup_ok (ch_start + min (ch_end - ch_start) (cpu_idx + 1 + length (filter (\<lambda>cpu. cpu_to_node T cpu = node) cpus))) s
            (srp_setup_cpus V T node_idx node (ch_start, ch_end) cvs cpus (cpu_idx + 1) ?f True s3)"
          by (rule setup_ok_frame) (simp_all add: fr)
        moreover have "setup_ok b s (Setup_Connected ?f (srp_drop_ch V ?c cpu ?f s3))" if "\<not> (node_idx = 0 \<and> cpu_idx = 0)" for b
          using setup_connected_ok [of ?c s3 s cpu b ?f V] r3(2) lt fr that assms(6) Cons.prems(2) by (auto simp: chs_ready_def)
        ultimately show ?thesis unfolding e using node True by (simp add: setup_ok_def)
      qed
    qed
  qed
qed

lemma ch_bound_step: "\<lbrakk>0 < n; n \<le> k\<rbrakk> \<Longrightarrow> ch_bound i k n < ch_bound (Suc i) k n"
proof -
  assume "0 < n" "n \<le> k"
  then have "i * k div n + 1 = (i * k + n) div n" by (simp add: div_add_self2)
  also have "\<dots> \<le> Suc i * k div n" using \<open>n \<le> k\<close> by (intro div_le_mono) simp
  finally show ?thesis by (simp add: ch_bound_def)
qed

lemma ch_bound_mono: "i \<le> j \<Longrightarrow> ch_bound i k n \<le> ch_bound j k n"
  by (simp add: ch_bound_def div_le_mono)

lemma ch_bound_ends [simp]: "ch_bound 0 k n = 0" "0 < n \<Longrightarrow> ch_bound n k n = k"
  by (simp_all add: ch_bound_def)

text \<open>Every node has at least as many online CPUs as channels.\<close>

definition cpus_suffice :: "srp_topology \<Rightarrow> nat \<Rightarrow> bool" where
  "cpus_suffice T k \<longleftrightarrow>
     (\<forall>i < length (online_nodes T). ch_bound (Suc i) k (length (online_nodes T)) - ch_bound i k (length (online_nodes T)) \<le>
        length (filter (\<lambda>cpu. cpu_to_node T cpu = online_nodes T ! i) (online_cpus T)))"

lemma setup_nodes_ok:
  assumes "cpus_suffice T k" "n = length (online_nodes T)" "0 < n" "n \<le> k"
    and "nodes = drop i (online_nodes T)" "i \<le> n" "nch s = k"
    and "chs_ready (ch_bound i k n) s" "map_below (ch_bound i k n) s"
  shows "setup_ok k s (srp_setup_nodes V T i nodes first multich s)"
  using assms(5-)
proof (induction nodes arbitrary: i first multich s)
  case Nil
  then have "i = n" using assms(2) by simp
  then show ?case using Nil assms(3) by (simp add: setup_ok_def)
next
  case (Cons node nodes)
  then have i: "i < n" using assms(2) by (metis drop_all list.distinct(1) not_less)
  then have node: "node = online_nodes T ! i" "nodes = drop (Suc i) (online_nodes T)"
    using Cons.prems(1) assms(2) by (simp_all add: Cons_nth_drop_Suc [symmetric])
  let ?a = "ch_bound i k n" and ?b = "ch_bound (Suc i) k n"
  let ?l = "length (filter (\<lambda>cpu. cpu_to_node T cpu = node) (online_cpus T))"
  have ab: "?a < ?b" "?b \<le> k" using ch_bound_step [OF assms(3,4)] ch_bound_mono [of "Suc i" n k n] i assms(3) by simp_all
  have "?a + min (?b - ?a) (0 + ?l) = ?b" using assms(1,2) i ab node(1) by (auto simp: cpus_suffice_def)
  moreover have "0 < ?a" if "i \<noteq> 0"
    using that ch_bound_step [OF assms(3,4), of 0] ch_bound_mono [of "Suc 0" i k n] by simp
  moreover have cnt: "tgt_ch_count (st_target s) = k" using Cons.prems(3,4) by (simp add: chs_ready_def)
  ultimately have r: "setup_ok ?b s (srp_setup_cpus V T i node (?a, ?b) cvs (online_cpus T) 0 first multich s)" for cvs
    using setup_cpus_ok [of ?a 0 s ?b i T node "online_cpus T" V cvs first multich] Cons.prems(3-5) ab by simp
  let ?r = "srp_setup_cpus V T i node (?a, ?b) (cv_bound i T (tgt_comp_vector (st_target s)), cv_bound (i + 1) T (tgt_comp_vector (st_target s)))
      (online_cpus T) 0 first multich s"
  have e: "srp_setup_nodes V T i (node # nodes) first multich s =
      (case ?r of Setup_Next first multich s1 \<Rightarrow> srp_setup_nodes V T (i + 1) nodes first multich s1 | r \<Rightarrow> r)"
    by (simp add: cnt assms(2) Let_def)
  show ?case
  proof (cases ?r)
    case (Setup_Next f m s1)
    then have s1: "chs_ready ?b s1" "nch s1 = nch s" "mq_len s1 = mq_len s" "map_below ?b s1"
      using r [of "(cv_bound i T (tgt_comp_vector (st_target s)), cv_bound (i + 1) T (tgt_comp_vector (st_target s)))"]
      by (simp_all add: setup_ok_def)
    have "setup_ok k s1 (srp_setup_nodes V T (i + 1) nodes f m s1)"
      using s1 i Cons.prems(3) node(2) by (intro Cons.IH) simp_all
    then show ?thesis unfolding e Setup_Next using s1(2,3) by (simp add: setup_ok_frame)
  next
    case (Setup_Connected f s1)
    then show ?thesis unfolding e
      using r [of "(cv_bound i T (tgt_comp_vector (st_target s)), cv_bound (i + 1) T (tgt_comp_vector (st_target s)))"]
      by (simp add: setup_ok_def)
  qed (simp only: e ch_setup.case, simp add: setup_ok_def)
qed

section \<open>The target port that is handed over\<close>

lemma idle_no_cmds: "idle_ch n c ch \<Longrightarrow> ch_cmds ch = {#}"
  by (auto simp: idle_ch_def owned_def ch_cmds_def List.map_filter_def filter_empty_conv in_set_conv_nth)

lemma ready_outstanding:
  assumes "chs_ready (nch s) s"
  shows "target_inv s" "outstanding s = {#}"
proof -
  show "target_inv s" using assms by (simp add: chs_ready_def target_inv_def reqs_inv_def idle_ch_def)
  have "ch_cmds ch = {#}" if "ch \<in> set (tgt_ch (st_target s))" for ch
    using that assms idle_no_cmds unfolding chs_ready_def by (metis in_set_conv_nth)
  then have "map ch_cmds (tgt_ch (st_target s)) = map (\<lambda>_. {#}) (tgt_ch (st_target s))" by simp
  then show "outstanding s = {#}" by (simp only: outstanding_def sum_list_0)
qed

lemma finish_map_frame:
  "chs_ready b (srp_finish_map T first s) = chs_ready b s" "nch (srp_finish_map T first s) = nch s"
  "first = 0 \<Longrightarrow> srp_finish_map T first s = s"
proof -
  let ?f = "\<lambda>cpu s. if tgt_mq_map (st_target s) ! cpu = 0 then set_mq_map cpu (as_entry first) s else s"
  have "chs_ready b (fold ?f cpus s) = chs_ready b s \<and> nch (fold ?f cpus s) = nch s" for cpus
    by (induction cpus arbitrary: s) (simp_all add: static_set_mq_map)
  then show "chs_ready b (srp_finish_map T first s) = chs_ready b s" "nch (srp_finish_map T first s) = nch s"
    "first = 0 \<Longrightarrow> srp_finish_map T first s = s"
    by (simp_all add: srp_finish_map_def)
qed

lemma map_below_maps:
  assumes "map_below (nch s) s" "0 < nch s" "cpu < mq_len s"
  shows "srp_map_cpu_to_ch cpu (st_target s) \<noteq> None"
proof -
  have "tgt_mq_map (st_target s) ! cpu < nch s" using assms nth_mem [OF assms(3)] by (auto simp: map_below_def max_def)
  then show ?thesis using assms(3) by (simp add: srp_map_cpu_to_ch_def)
qed

text \<open>The target port when the loops begin.\<close>

definition fresh_target :: "nat \<Rightarrow> srp_topology \<Rightarrow> 'e srp_state \<Rightarrow> bool" where
  "fresh_target k T s \<longleftrightarrow> tgt_ch (st_target s) = replicate k zeroed_ch \<and> tgt_ch_count (st_target s) = k \<and>
     tgt_mq_map (st_target s) = replicate (nr_cpu_ids T) 0"

text \<open>C8. \<^verbatim>\<open>srp_create_target()\<close> and the accounting of commands. When every node has at least as many online CPUs as channels, the target port
  that is handed to \<^verbatim>\<open>srp_add_target()\<close> satisfies the invariant from which commands are completed exactly once, and has no
  command, whether all channels were connected or the port has to do with those before the first one that was not. This is so
  whatever events arrive meanwhile. When the first CPU is CPU 0, every CPU is mapped to a channel that is there.\<close>

theorem create_target_channels_ready:
  assumes "fresh_target (srp_ch_count P T) T s" and "online_nodes T \<noteq> []" and "cpus_suffice T (srp_ch_count P T)"
    and "srp_setup_nodes V T 0 (online_nodes T) (- 1) False s = r"
    and "r = Setup_Next first multich s' \<or> r = Setup_Connected first s'"
  shows "target_inv (srp_finish_map T first s') \<and> outstanding (srp_finish_map T first s') = {#} \<and>
    (first = 0 \<longrightarrow> (\<forall>cpu < nr_cpu_ids T. srp_map_cpu_to_ch cpu (st_target (srp_finish_map T first s')) \<noteq> None))"
proof -
  let ?k = "srp_ch_count P T" and ?n = "length (online_nodes T)"
  have n: "0 < ?n" "?n \<le> ?k" using assms(2) by (simp_all add: srp_ch_count_def)
  have s: "nch s = ?k" "chs_ready (ch_bound 0 ?k ?n) s" "map_below (ch_bound 0 ?k ?n) s" "mq_len s = nr_cpu_ids T"
    using assms(1) by (simp_all add: fresh_target_def chs_ready_def map_below_def)
  have "setup_ok ?k s r"
    using setup_nodes_ok [OF assms(3) refl n _ _ s(1-3), where nodes = "online_nodes T" and V = V and first = "- 1" and multich = False] assms(4) by simp
  then have r: "chs_ready (nch s') s'" "0 < nch s'" "mq_len s' = nr_cpu_ids T" "first = 0 \<longrightarrow> map_below (nch s') s'"
    using assms(5) s(1,4) n by (auto simp: setup_ok_def)
  have "srp_map_cpu_to_ch cpu (st_target (srp_finish_map T first s')) \<noteq> None" if "first = 0" "cpu < nr_cpu_ids T" for cpu
    using map_below_maps [of s' cpu] r that by (simp add: finish_map_frame(3))
  then show ?thesis using ready_outstanding [of "srp_finish_map T first s'"] r(1) by (simp add: finish_map_frame)
qed

text \<open>For the witnesses: an environment in which every call succeeds, one node with one CPU, and the target port that accepts a login with
  the RDMA/CM.\<close>

definition example_login :: "u8 list" where
  "example_login = [0xc0, 0, 0, 0, 0, 0, 0, 4] @ zeros 8 @ [0, 0, 0, 1, 0, 0, 0, 1, 0, 6, 0, 0] @ zeros 24"

definition example_answers :: "nat verbs" where
  "example_answers = (example_verbs 100)\<lparr>v_kzalloc := (\<lambda>n e. (Some 1, e)), v_dma_map_single := (\<lambda>p n d e. (Some 4096, e)),
     v_create := (\<lambda>c e. (Inr 1, e)), v_call := (\<lambda>c e. (0, e)), v_cm_init_qp_attr := (\<lambda>i st e. ((0, 1, 1), e)),
     v_query_port := (\<lambda>e. ((0, 18), e)), v_post_recv := (\<lambda>qp w sge e. (0, e)),
     v_wait := (\<lambda>c e. ([(0, Rdma_Cm_Event (if e = 0 then RDMA_CM_EVENT_ADDR_RESOLVED else if e = 1 then RDMA_CM_EVENT_ROUTE_RESOLVED
       else RDMA_CM_EVENT_ESTABLISHED example_login))], Suc e))\<rparr>"

definition example_topology :: srp_topology where
  "example_topology = \<lparr>online_nodes = [0], online_cpus = [0], possible_cpus = [0], cpu_to_node = (\<lambda>_. 0), nr_cpu_ids = 1,
     num_comp_vectors = 1\<rparr>"

definition example_nodev :: srp_device where
  "example_nodev = \<lparr>dev_mr = Some 0, dev_mr_page_mask = NOT (mask 12), dev_mr_page_size = 4096, dev_mr_max_size = 4096,
     dev_max_pages_per_mr = 1, dev_has_fmr = False, dev_has_fr = False, dev_use_fast_reg = False\<rparr>"

definition example_new :: "nat srp_state" where
  "example_new = upd_tgt (\<lambda>t. t\<lparr>tgt_ch := [zeroed_ch], tgt_mq_map := [0], tgt_queue_size := 1, tgt_req_ring_size := 1,
     tgt_state := SRP_TARGET_SCANNING, tgt_rport := False, tgt_using_rdma_cm := True, tgt_cmd_sg_cnt := 1, tgt_indirect_size := 16, tgt_max_iu_len := 8\<rparr>)
     (example_state\<lparr>st_dev := example_nodev, st_hw := \<lparr>hw_env = 0, hw_log = []\<rparr>\<rparr>)"

text \<open>The calls that set up and connect the channel.\<close>

lemma example_connects:
  "case srp_setup_ch example_answers 0 0 (set_mq_map 0 0 example_new) of (r1, s1) \<Rightarrow> r1 = 0 \<and>
   (case srp_lookup_path example_answers 0 s1 of (r2, s2) \<Rightarrow> r2 = 0 \<and>
   (case srp_send_req example_answers 0 False (init_done 0 s2) of (r3, s3) \<Rightarrow> r3 = 0 \<and>
   (case wait_done_interruptible example_answers 0 s3 of (r4, s4) \<Rightarrow> \<not> r4 < 0 \<and> ch_status (chan s4 0) = 0)))"
  by code_simp

lemma example_setup: "\<exists>s. srp_setup_nodes example_answers example_topology 0 [0] (- 1) False example_new = Setup_Next 0 True s"
proof -
  obtain s1 s2 s3 r4 s4 where 1: "srp_setup_ch example_answers 0 0 (set_mq_map 0 0 example_new) = (0, s1)"
    and 2: "srp_lookup_path example_answers 0 s1 = (0, s2)"
    and 3: "srp_send_req example_answers 0 False (init_done 0 s2) = (0, s3)"
    and 4: "wait_done_interruptible example_answers 0 s3 = (r4, s4)" "\<not> r4 < 0" "ch_status (chan s4 0) = 0"
    using example_connects by (auto split: prod.splits)
  have "srp_connect_loop example_answers 0 False s2 = Some (0, upd_ch 0 (\<lambda>ch. ch\<lparr>ch_connected := True\<rparr>) s4)"
    using 3 4 by (subst srp_connect_loop.simps) simp
  then have c: "srp_connect_ch example_answers 0 False s1 = (0, upd_ch 0 (\<lambda>ch. ch\<lparr>ch_connected := True\<rparr>) s4)"
    using 2 by (simp add: srp_connect_ch_def)
  have "ch_bound 0 1 1 = 0" "ch_bound (Suc 0) 1 1 = 1" "srp_pick_ch 0 1 0 = 0" by code_simp+
  moreover have "cv_bound 0 example_topology 0 = 0" "cv_bound (Suc 0) example_topology 0 = 0" "srp_pick_vector 0 0 0 = 0" by code_simp+
  moreover have "tgt_ch_count (st_target example_new) = 1" "tgt_comp_vector (st_target example_new) = 0" by code_simp+
  ultimately show ?thesis using 1 c by (simp add: example_topology_def Let_def)
qed

theorem create_target_channels_ready_witness:
  "case srp_setup_nodes example_answers example_topology 0 [0] (- 1) False example_new of
     Setup_Next first _ s \<Rightarrow> first = 0 \<and> target_inv (srp_finish_map example_topology first s) \<and>
       outstanding (srp_finish_map example_topology first s) = {#} \<and>
       srp_map_cpu_to_ch 0 (st_target (srp_finish_map example_topology first s)) \<noteq> None
   | _ \<Rightarrow> False"
proof -
  let ?P = "\<lparr>cmd_sg_entries = 12, indirect_sg_entries = 12, allow_ext_sg = False, par_ch_count = 1\<rparr>"
  obtain s where s: "srp_setup_nodes example_answers example_topology 0 [0] (- 1) False example_new = Setup_Next 0 True s"
    using example_setup by blast
  have k: "srp_ch_count ?P example_topology = 1" by code_simp
  have f: "fresh_target 1 example_topology example_new"
    by (simp add: fresh_target_def example_new_def upd_tgt_def example_state_def example_target_def example_topology_def)
  have c: "cpus_suffice example_topology 1" by (simp add: cpus_suffice_def example_topology_def ch_bound_def)
  have n: "online_nodes example_topology = [0]" "nr_cpu_ids example_topology = 1" by (simp_all add: example_topology_def)
  have "[0] \<noteq> ([] :: nat list)" by simp
  note t = create_target_channels_ready [of ?P example_topology example_new example_answers "Setup_Next 0 True s" 0 True s,
      unfolded k n, OF f this c s]
  show ?thesis unfolding s ch_setup.case using t by simp
qed

lemma fold_map_entry:
  assumes "0 < v" "cpu < mq_len s" "tgt_mq_map (st_target s) ! cpu = v \<or> tgt_mq_map (st_target s) ! cpu = 0 \<and> cpu \<in> set cpus"
  shows "tgt_mq_map (st_target (fold (\<lambda>cpu s. if tgt_mq_map (st_target s) ! cpu = 0 then set_mq_map cpu v s else s) cpus s)) ! cpu = v"
  using assms(2,3)
proof (induction cpus arbitrary: s)
  case (Cons x cpus)
  let ?s = "if tgt_mq_map (st_target s) ! x = 0 then set_mq_map x v s else s"
  have "cpu < mq_len ?s" using Cons.prems(1) by simp
  moreover have "tgt_mq_map (st_target ?s) ! cpu = v \<or> tgt_mq_map (st_target ?s) ! cpu = 0 \<and> cpu \<in> set cpus"
    using Cons.prems assms(1) by (cases "x = cpu") (auto simp: static_set_mq_map)
  ultimately show ?case unfolding fold_Cons o_apply by (rule Cons.IH)
qed simp

text \<open>C33. The entries of \<^verbatim>\<open>mq_map\<close> when the first CPU is not CPU 0. The code at \<^verbatim>\<open>connected\<close> replaces every entry 0, also that of a CPU which
  is meant to use channel 0, with the number of the first CPU, which is then read as the index of a channel. When there are not so
  many channels the CPU is mapped to a channel that does not exist: a command that is queued on it follows a bad pointer.\<close>

theorem first_cpu_used_as_channel:
  assumes "0 < first" and "first < 2 ^ 31" and "nch s \<le> nat first" and "cpu \<in> set (possible_cpus T)" and "cpu < mq_len s"
    and "tgt_mq_map (st_target s) ! cpu = 0"
  shows "srp_map_cpu_to_ch cpu (st_target (srp_finish_map T first s)) = None"
proof -
  have e: "as_entry first = nat first" using assms(1,2) by simp
  have "tgt_mq_map (st_target (srp_finish_map T first s)) ! cpu = nat first"
    unfolding srp_finish_map_def e using fold_map_entry [of "nat first" cpu s "possible_cpus T"] assms by simp
  then show ?thesis using assms(3) by (simp add: srp_map_cpu_to_ch_def finish_map_frame)
qed

theorem first_cpu_used_as_channel_witness:
  "srp_map_cpu_to_ch 1 (st_target (srp_finish_map (example_topology\<lparr>possible_cpus := [0, 1], online_cpus := [1], nr_cpu_ids := 2\<rparr>) 1
     (upd_tgt (\<lambda>t. t\<lparr>tgt_mq_map := [0, 0]\<rparr>) example_new))) = None"
  by (rule first_cpu_used_as_channel)
     (simp_all add: upd_tgt_def example_new_def)

end
