(* ===== verification/Spec2Isabelle.thy ===== *)
theory Spec2Isabelle
  imports SRP_Bring_Up
begin

text \<open>
  \<^bold>\<open>The SRP initiator of ib_srp-backport.\<close>

  The repository holds the Linux SCSI RDMA Protocol initiator, \<^verbatim>\<open>drivers/infiniband/ulp/srp/ib_srp.[ch]\<close>, the SRP
  transport class it plugs into, \<^verbatim>\<open>drivers/scsi/scsi_transport_srp.c\<close>, and the headers of both. The initiator takes SCSI
  commands from the SCSI core (\<^verbatim>\<open>srp_queuecommand()\<close>), describes their data to the target by memory registration, sends them over
  one of several RDMA channels under a credit scheme, and completes them when the response arrives, when the
  error handler aborts them or when the connection is given up. The transport class watches the connection of the remote
  port, blocks and unblocks the SCSI devices, and calls back into the driver to reconnect, to fail all commands or
  to remove the target.

  \<^bold>\<open>Configuration.\<close> The model is the code as compiled for Linux 3.7 to 3.18 on a 64-bit little endian machine, with
  \<^verbatim>\<open>HAVE_REQUEST_QUEUE_REQUEST_FN_ACTIVE\<close> and \<^verbatim>\<open>HAVE_SCSI_QDEPTH_REASON\<close> defined and without \<^verbatim>\<open>HAVE_USE_BLK_TAGS\<close> and
  \<^verbatim>\<open>HAVE_TRACK_QUEUE_DEPTH\<close>.

  \<^bold>\<open>Conventions.\<close> Unsigned C integers are words, \<^verbatim>\<open>int\<close> is \<open>int\<close> with the wrap-around \<open>s32\<close> where it can overflow, and
  big endian members are lists of bytes. Structures are records with the members of the source. The two unions of pools in the
  source (\<^verbatim>\<open>fmr_pool\<close> and \<^verbatim>\<open>fr_pool\<close>, \<^verbatim>\<open>fmr_list\<close> and \<^verbatim>\<open>fr_list\<close>) have one member each in use, chosen by
  \<^verbatim>\<open>use_fast_reg\<close>; the union of addresses in \<^verbatim>\<open>struct srp_target_port\<close> is one array of bytes. A channel, a request and an
  information unit are named by their index. A bad pointer and a loop that does not end are recorded in \<open>st_fault\<close>, which is never
  cleared. A call that can fail returns its status or a sum or option type.

  \<^bold>\<open>Code that is not in the repository\<close>, or that the drivers only call (the RDMA core, the HCA driver, the allocators), is the record
  \<open>'e verbs\<close> of \<open>SRP_Verbs\<close>: one function for each call, on an environment of any type. The sizes of the structures that are
  allocated are part of it. Every theorem holds for all such records, or names what it needs of them. While a thread of the driver
  sleeps the environment can deliver any sequence of events to any channel.

  \<^bold>\<open>Theories.\<close>
  \<^item> \<open>SRP_Prelude\<close>, \<open>SRP_Text\<close>, \<open>SRP_Strings\<close>: integers, byte order, and the string functions of the kernel.
  \<^item> \<open>SRP_Transport\<close>: all of \<^verbatim>\<open>scsi_transport_srp.c\<close> but the registration with the driver core. The timers, handlers and
    callbacks interleave in \<open>xport_step\<close>. A blocked port always has a way to recover, the states follow the diagram of the
    documentation with one more edge, and the arithmetic of the timeouts is exact for valid values. \<open>srp_lld\<close> is the contract with
    the driver below.
  \<^item> \<open>SRP_Protocol\<close>: \<^verbatim>\<open>include/scsi/srp.h\<close>, the messages and their bytes, and the tags of \<^verbatim>\<open>ib_srp.h\<close>.
  \<^item> \<open>SRP_Verbs\<close>, \<open>SRP_Fr_Pool\<close>: the calls, their log, and the pool of fast registration descriptors with the
    contract \<open>free_pool\<close>.
  \<^item> \<open>SRP_Mapping\<close>, \<open>SRP_Map_Correct\<close>, \<open>SRP_Map_Data\<close>: \<^verbatim>\<open>srp_map_sg()\<close>, \<^verbatim>\<open>srp_map_data()\<close> and
    \<^verbatim>\<open>srp_unmap_data()\<close>. The contract \<open>registration\<close> gives that the descriptors denote exactly the bytes of the scatter/gather list,
    for FMR and for fast registration, and that unmapping gives everything back.
  \<^item> \<open>SRP_Channel\<close>, \<open>SRP_Requests\<close>: the data path and the ownership of requests.
  \<^item> \<open>SRP_Cm\<close>, \<open>SRP_Connect\<close>: rings, connection management, waiting, error handlers, login, reconnect and removal.
  \<^item> \<open>SRP_Relations\<close>, \<open>SRP_Reconnect\<close>: what stays true while events arrive (\<open>driver_relation\<close>), and that the driver
    satisfies \<open>srp_lld\<close>.
  \<^item> \<open>SRP_Once\<close>, \<open>SRP_Data_Path\<close>, \<open>SRP_Resources\<close>: driver and transport class together. Every accepted command is
    completed exactly once in every interleaving; the effect of single operations; resources on error paths.
  \<^item> \<open>SRP_Options\<close>, \<open>SRP_Options_Correct\<close>: the options of \<^verbatim>\<open>add_target\<close>, the sysfs attributes and the timeout parameters.
  \<^item> \<open>SRP_Host\<close>, \<open>SRP_Host_Correct\<close>, \<open>SRP_Bring_Up\<close>: HCA and module parameters, and \<^verbatim>\<open>srp_create_target()\<close>, which
    establishes the invariant that the accounting of commands starts from.
  \<^item> This theory has the properties that span these components.

  \<^bold>\<open>Termination and bounds.\<close> Loops over arrays are structural recursions. The loops that need not end for every input
  (\<^verbatim>\<open>srp_connect_ch()\<close>, \<^verbatim>\<open>srp_map_sg_entry()\<close> and \<^verbatim>\<open>srp_map_sg()\<close>, \<^verbatim>\<open>srp_reset_device()\<close>) are partial functions, so that
  not returning is the value \<open>None\<close>; no fuel is used. Below it is shown that mapping always returns on an HCA that \<^verbatim>\<open>srp_add_one()\<close>
  has set up. \<^verbatim>\<open>srp_connect_ch()\<close> can be redirected for ever by a target, and \<^verbatim>\<open>srp_reset_device()\<close> is shown not to return
  in some cases.

  \<^bold>\<open>Not modelled.\<close>
  \<^item> Registration with the driver core, sysfs files and classes, and the log messages: \<^verbatim>\<open>srp_add_port()\<close>, \<^verbatim>\<open>srp_remove_one()\<close>, the second half of
    \<^verbatim>\<open>srp_add_one()\<close> and of \<^verbatim>\<open>srp_init_module()\<close>, \<^verbatim>\<open>srp_cleanup_module()\<close>, the device and reference functions of the transport
    class. They call the kernel and keep no state of their own beyond lists of devices.
  \<^item> \<^verbatim>\<open>srp_change_queue_type()\<close>, \<^verbatim>\<open>srp_sdev_count()\<close>, \<^verbatim>\<open>inet_ntop()\<close> and two attributes with names of devices.
  \<^item> Spin locks and mutexes: an operation that holds one is one step; it can be interrupted where it sleeps.
  \<^item> The RDMA core, the HCA and network drivers, IPoIB, iSER and the SRP target driver, which are copies of kernel code kept
    for backporting. The initiator calls the first two, they are the parameter described above; it has no other connection with the rest.
  \<^item> Other kernel versions than the one named, which the source supports by conditional compilation.
\<close>

section \<open>Mapping on every HCA\<close>

text \<open>C13. The memory mapping always ends. On an HCA whose parameters \<^verbatim>\<open>srp_add_one()\<close> has computed, from attributes with a page size of at
  most 2 MB and room for one page in a memory region, and with a fast registration pool that is well-formed if there is one, \<^verbatim>\<open>srp_map_data()\<close> returns for every command and scatter/gather list, whatever
  the calls into the RDMA core return; the loops over the pages and the step back in \<^verbatim>\<open>srp_map_sg()\<close> do not run for ever.\<close>

theorem mapping_always_ends:
  assumes "bit (attr_page_size_cap attr) i" and "i \<le> 21" and "2 ^ srp_mr_page_shift attr \<le> unat (attr_max_mr_size attr)"
    and "attr_mem_mgt_ext attr \<longrightarrow> 0 < attr_max_fast_reg_page_list_len attr"
    and "mp_dev cfg = srp_init_device prefer_fr has_fmr attr mr" and "pool_inv pool"
  shows "\<exists>r. srp_map_data V cfg cmd scmnd req iu pool h = Some r"
  using map_data_total [of cfg pool V cmd scmnd req iu h] init_device_ok [OF assms(1-4), of prefer_fr has_fmr mr] assms(5,6) by auto

theorem mapping_always_ends_witness:
  "srp_map_data always_posting ((example_cfg True)\<lparr>mp_dev := srp_init_device True True example_attr 1\<rparr>) 0
     (example_scmnd [\<lparr>sg_addr = 8191, sg_len = 70000\<rparr>, \<lparr>sg_addr = 4096, sg_len = 1\<rparr>]) example_req (example_iu 300) None
     \<lparr>hw_env = 10, hw_log = []\<rparr> \<noteq> None"
proof -
  have s: "srp_mr_page_shift example_attr = 12" by code_simp
  have 1: "bit (attr_page_size_cap example_attr) 9" by (simp add: example_attr_def bit_numeral_rec)
  have 2: "2 ^ srp_mr_page_shift example_attr \<le> unat (attr_max_mr_size example_attr)"
    unfolding s by (simp add: example_attr_def)
  have 3: "attr_mem_mgt_ext example_attr \<longrightarrow> 0 < attr_max_fast_reg_page_list_len example_attr"
    by (simp add: example_attr_def)
  have 4: "pool_inv None" by (simp add: pool_inv_def)
  show ?thesis
    using mapping_always_ends [OF 1 _ 2 3 _ 4, of "(example_cfg True)\<lparr>mp_dev := srp_init_device True True example_attr 1\<rparr>" True True 1]
    by (simp del: not_None_eq add: not_None_eq)
qed

section \<open>The request timeout\<close>

lemma mult_le_bound:
  assumes "t \<le> 31" "r \<le> (7 :: nat)"
  shows "r * 4 * (4096 * 2 ^ t) \<le> 7 * 4 * (4096 * 2 ^ 31)"
  using assms by (intro mult_mono power_increasing) simp_all

lemma ucast_of_nat_u32: "(ucast (of_nat m :: u64) :: u32) = of_nat m"
  by (rule bit_word_eqI) (simp add: bit_simps)

text \<open>C27. \<^verbatim>\<open>srp_compute_rq_tmo()\<close> computes, for the 5-bit timeouts and 3-bit retry counts that InfiniBand has, the formula of the specification over
  unbounded numbers: four times the retry count times 4096 ns times two to the power of the timeout, in milliseconds, plus one second. No
  intermediate 64-bit result overflows and the argument of \<^verbatim>\<open>msecs_to_jiffies()\<close> fits 32 bits.\<close>

theorem rq_tmo_exact:
  assumes "timeout \<le> 31" and "retry_cnt \<le> 7"
  shows "srp_compute_rq_tmo P timeout retry_cnt =
      ucast (msecs_to_jiffies P (of_nat (unat retry_cnt * 4 * (4096 * 2 ^ unat timeout) div 1000000 + 1000))) \<and>
    unat retry_cnt * 4 * (4096 * 2 ^ unat timeout) div 1000000 + 1000 < 2 ^ 32"
proof -
  let ?n = "unat retry_cnt * 4 * (4096 * 2 ^ unat timeout)"
  have "unat timeout \<le> 31" "unat retry_cnt \<le> 7" using assms by (simp_all add: word_le_nat_alt)
  then have n: "?n \<le> 7 * 4 * (4096 * 2 ^ 31)" by (rule mult_le_bound)
  have e: "ucast retry_cnt * 4 * (4096 * push_bit (unat timeout) 1) = (of_nat ?n :: u64)"
    by (simp add: push_bit_eq_mult)
  have u: "unat (of_nat ?n :: u64) = ?n" using n by (subst unsigned_of_nat) (simp add: take_bit_nat_eq_self)
  have "(of_nat ?n :: u64) div 1000000 = of_nat (unat ((of_nat ?n :: u64) div 1000000))" by simp
  then have d: "(of_nat ?n :: u64) div 1000000 = of_nat (?n div 1000000)" unfolding unat_div u by simp
  have "?n div 1000000 \<le> 7 * 4 * (4096 * 2 ^ 31) div 1000000" using n by (rule div_le_mono)
  then have b: "?n div 1000000 + 1000 < 2 ^ 32" by simp
  have "(ucast (of_nat (?n div 1000000) + 1000 :: u64) :: u32) = of_nat (?n div 1000000 + 1000)"
    using ucast_of_nat_u32 [of "?n div 1000000 + 1000"] by (simp only: of_nat_add of_nat_numeral)
  then show ?thesis using b unfolding srp_compute_rq_tmo_def Let_def e d by simp
qed

theorem rq_tmo_exact_witness: "srp_compute_rq_tmo example_params 18 7 = 31064"
  using rq_tmo_exact [of 18 7 example_params] by (simp add: example_params_def)

end
